(* ===== verification/Prelude.thy ===== *)
theory Prelude
  imports Main "HOL-Library.Word" "HOL-Library.Multiset" "HOL-Library.Sublist"
    "HOL-Library.Code_Target_Nat"
begin

text \<open>
  What every component of the development shares: the exceptions of the
  language the sources are written in, results that are either an exception or
  a value, the sequencing of such results, and the list facts the component
  proofs use.

  The named collections are \<open>res_simps\<close> (how results compose), \<open>js_defs\<close>
  (definitions a concrete run has to unfold) and \<open>sdk_frame\<close> (which fields an
  operation of the recorder leaves alone).
\<close>

named_theorems res_simps \<open>composition of fallible computations\<close>
named_theorems js_defs \<open>definitions unfolded to run the model on concrete data\<close>
named_theorems sdk_frame \<open>fields that an operation leaves unchanged\<close>


section \<open>Exceptions and results\<close>

text \<open>
  The exceptions the sources can meet. \<open>DOMError\<close> stands for the exceptions of
  the web platform (a blocked storage, an invalid base64 character, a blocked
  clipboard), \<open>Thrown\<close> for \<open>throw new Error(...)\<close> in the sources themselves,
  \<open>NetworkError\<close> for a rejected \<open>fetch\<close>. \<open>OutOfFuel\<close> is never raised by the
  program: the JSON parser is defined with a bound on its recursion, and it is
  proved that the bound is never met.
\<close>

datatype js_error =
    TypeError
  | SyntaxError
  | RangeError
  | DOMError
  | NetworkError
  | Thrown string
  | OutOfFuel

type_synonym 'a res = "js_error + 'a"

definition bindR :: "'a res \<Rightarrow> ('a \<Rightarrow> 'b res) \<Rightarrow> 'b res" where
  "bindR r f = (case r of Inl e \<Rightarrow> Inl e | Inr x \<Rightarrow> f x)"

lemma bindR_simps [simp, res_simps, code]:
  "bindR (Inl e) f = Inl e"
  "bindR (Inr x) f = f x"
  by (simp_all add: bindR_def)

lemma bindR_eq_Inr [res_simps]:
  "bindR r f = Inr y \<longleftrightarrow> (\<exists>x. r = Inr x \<and> f x = Inr y)"
  by (cases r) simp_all

lemma bindR_eq_Inl [res_simps]:
  "bindR r f = Inl e \<longleftrightarrow> r = Inl e \<or> (\<exists>x. r = Inr x \<and> f x = Inl e)"
  by (cases r) simp_all

lemma bindR_assoc: "bindR (bindR r f) g = bindR r (\<lambda>x. bindR (f x) g)"
  by (cases r) simp_all

lemma bindR_cong [fundef_cong]:
  "r = r' \<Longrightarrow> (\<And>x. r' = Inr x \<Longrightarrow> f x = f' x) \<Longrightarrow> bindR r f = bindR r' f'"
  by (cases r') simp_all

text \<open>\<open>array.map(f)\<close> for a callback that may throw: the first exception ends the loop.\<close>

fun mapR :: "('a \<Rightarrow> 'b res) \<Rightarrow> 'a list \<Rightarrow> 'b list res" where
  "mapR f [] = Inr []"
| "mapR f (x # xs) = bindR (f x) (\<lambda>y. bindR (mapR f xs) (\<lambda>ys. Inr (y # ys)))"

text \<open>\<open>array.forEach(f)\<close> for a callback that updates a state and may throw.\<close>

fun foldR :: "('a \<Rightarrow> 's \<Rightarrow> 's res) \<Rightarrow> 'a list \<Rightarrow> 's \<Rightarrow> 's res" where
  "foldR f [] s = Inr s"
| "foldR f (x # xs) s = bindR (f x s) (foldR f xs)"

lemma mapR_cong [fundef_cong]:
  "xs = ys \<Longrightarrow> (\<And>x. x \<in> set ys \<Longrightarrow> f x = g x) \<Longrightarrow> mapR f xs = mapR g ys"
proof (induction ys arbitrary: xs)
  case Nil
  then show ?case by simp
next
  case (Cons y ys)
  have "f y = g y" by (rule Cons.prems) simp
  moreover have "mapR f ys = mapR g ys"
    by (rule Cons.IH) (auto intro: Cons.prems)
  ultimately show ?case by (simp add: Cons.prems(1))
qed

lemma foldR_cong [fundef_cong]:
  "xs = ys \<Longrightarrow> s = t \<Longrightarrow> (\<And>x u. x \<in> set ys \<Longrightarrow> f x u = g x u) \<Longrightarrow> foldR f xs s = foldR g ys t"
proof (induction ys arbitrary: xs s t)
  case Nil
  then show ?case by simp
next
  case (Cons y ys)
  have step: "f y t = g y t" by (rule Cons.prems(3)) simp
  have "foldR f ys u = foldR g ys u" for u
    by (rule Cons.IH) (auto intro: Cons.prems(3))
  then have "foldR f ys = foldR g ys" by (rule ext)
  with step Cons.prems(1,2) show ?case by simp
qed

lemma mapR_Inr: "(\<And>x. x \<in> set xs \<Longrightarrow> f x = Inr (g x)) \<Longrightarrow> mapR f xs = Inr (map g xs)"
  by (induction xs) simp_all

lemma mapR_length: "mapR f xs = Inr ys \<Longrightarrow> length ys = length xs"
  by (induction xs arbitrary: ys) (auto simp: bindR_eq_Inr)

lemma foldR_Inr_inv:
  assumes "foldR f xs s = Inr t" and "P s"
    and "\<And>x u v. x \<in> set xs \<Longrightarrow> P u \<Longrightarrow> f x u = Inr v \<Longrightarrow> P v"
  shows "P t"
  using assms
proof (induction xs arbitrary: s)
  case Nil
  then show ?case by simp
next
  case (Cons x xs)
  from Cons.prems(1) obtain u where u: "f x s = Inr u" and rest: "foldR f xs u = Inr t"
    by (auto simp: bindR_eq_Inr)
  have "P u" by (rule Cons.prems(3) [OF _ Cons.prems(2) u]) simp
  with rest show ?case by (rule Cons.IH) (auto intro: Cons.prems(3))
qed

lemma foldR_total:
  assumes "\<And>x u. x \<in> set xs \<Longrightarrow> \<exists>v. f x u = Inr v"
  shows "\<exists>t. foldR f xs s = Inr t"
  using assms
proof (induction xs arbitrary: s)
  case Nil
  then show ?case by simp
next
  case (Cons x xs)
  obtain u where u: "f x s = Inr u" using Cons.prems [of x] by auto
  have "\<exists>t. foldR f xs u = Inr t" by (rule Cons.IH) (auto intro: Cons.prems)
  with u show ?case by simp
qed

lemma foldR_append: "foldR f (xs @ ys) s = bindR (foldR f xs s) (foldR f ys)"
proof (induction xs arbitrary: s)
  case (Cons x xs)
  then show ?case by (cases "f x s") simp_all
qed simp

lemma foldR_total_inv:
  assumes "P s" and "\<And>x u. x \<in> set xs \<Longrightarrow> P u \<Longrightarrow> \<exists>v. f x u = Inr v \<and> P v"
  shows "\<exists>t. foldR f xs s = Inr t \<and> P t"
  using assms
proof (induction xs arbitrary: s)
  case Nil
  then show ?case by simp
next
  case (Cons x xs)
  obtain u where u: "f x s = Inr u" "P u" using Cons.prems(1) Cons.prems(2) [of x s] by auto
  have "\<exists>t. foldR f xs u = Inr t \<and> P t" by (rule Cons.IH [OF u(2)]) (auto intro: Cons.prems(2))
  with u show ?case by simp
qed


section \<open>Transition systems\<close>

text \<open>
  The contract of a component that changes by steps: a predicate that holds at the
  start and that every step keeps. What follows for every state a run reaches is
  proved here once.
\<close>

locale invariant_system =
  fixes init :: "'s \<Rightarrow> bool"
    and step :: "'s \<Rightarrow> 's \<Rightarrow> bool"
    and inv :: "'s \<Rightarrow> bool"
  assumes init_inv: "init s \<Longrightarrow> inv s"
    and step_inv: "inv s \<Longrightarrow> step s t \<Longrightarrow> inv t"
begin

lemma steps_inv: "step\<^sup>*\<^sup>* s t \<Longrightarrow> inv s \<Longrightarrow> inv t"
  by (induction rule: rtranclp_induct) (auto intro: step_inv)

lemma reachable_inv: "init s \<Longrightarrow> step\<^sup>*\<^sup>* s t \<Longrightarrow> inv t"
  by (blast intro: steps_inv init_inv)

end

end
