(* ===== verification/JsString.thy ===== *)
theory JsString
  imports Prelude
begin

text \<open>
  Strings of the language: sequences of UTF-16 code units, so \<open>length\<close>, \<open>slice\<close>
  and indexing count exactly what the sources count. The operations are the ones
  the sources call: \<open>trim\<close>, \<open>replace(/\s+/g, ' ')\<close>, \<open>replace(/\/$/, '')\<close>,
  \<open>slice\<close>, \<open>split\<close>, \<open>join\<close>, \<open>startsWith\<close>, \<open>endsWith\<close>, \<open>includes_str\<close>,
  \<open>toLowerCase\<close>, and \<open>new TextEncoder().encode(s).length\<close>.
\<close>

type_synonym jsstr = "16 word list"

text \<open>An ASCII literal of the sources. Other characters are written as code units.\<close>

definition js :: "string \<Rightarrow> jsstr" where
  "js s = map of_char s"

lemma of_char_unit_inj: "(of_char c :: 16 word) = of_char d \<longleftrightarrow> c = d"
proof -
  have eq: "unat (of_char e :: 16 word) = of_char e" for e :: char
  proof -
    have "(of_char e :: nat) mod 256 < 256" by (rule mod_less_divisor) simp
    then have "(of_char e :: nat) < 256" by (simp only: of_char_mod_256)
    then have "(of_char e :: nat) < 2 ^ 16" by (rule less_trans) simp
    then have "unat (of_nat (of_char e) :: 16 word) = of_char e"
      by (simp add: unat_of_nat)
    then show ?thesis by (simp only: of_nat_of_char)
  qed
  show ?thesis
    by (metis eq of_char_eq_iff)
qed

lemma js_inj [simp]: "js s = js t \<longleftrightarrow> s = t"
  unfolding js_def by (rule inj_map_eq_map) (rule injI, simp add: of_char_unit_inj)

lemma js_eval [js_defs]: "js [] = []" "js (c # cs) = of_char c # js cs"
  by (simp_all add: js_def)

lemma js_Nil [simp]: "js [] = []"
  by (simp add: js_def)

lemma js_append: "js (s @ t) = js s @ js t"
  by (simp add: js_def)

lemma js_eq_Nil [simp]: "js s = [] \<longleftrightarrow> s = []" "[] = js s \<longleftrightarrow> s = []"
  by (auto simp: js_def)

lemma length_js [simp]: "length (js s) = length s"
  by (simp add: js_def)

text \<open>Characters of the sources outside ASCII, as UTF-16 code units.\<close>

definition ch_dash :: "16 word" where "ch_dash = 0x2014"
definition ch_ellipsis :: "16 word" where "ch_ellipsis = 0x2026"
definition ch_middot :: "16 word" where "ch_middot = 0x00B7"
definition ch_times :: "16 word" where "ch_times = 0x00D7"
definition ch_check :: "16 word" where "ch_check = 0x2713"

lemmas ch_defs [js_defs] = ch_dash_def ch_ellipsis_def ch_middot_def ch_times_def ch_check_def


section \<open>White space\<close>

text \<open>
  The class \<open>\s\<close> of regular expressions, which is also what \<open>trim\<close> removes:
  \<open>WhiteSpace\<close> and \<open>LineTerminator\<close> of the language standard.
\<close>

definition is_ws :: "16 word \<Rightarrow> bool" where
  "is_ws c \<longleftrightarrow> c = 9 \<or> c = 10 \<or> c = 11 \<or> c = 12 \<or> c = 13 \<or> c = 32 \<or> c = 160 \<or> c = 0x1680
     \<or> (0x2000 \<le> c \<and> c \<le> 0x200A) \<or> c = 0x2028 \<or> c = 0x2029 \<or> c = 0x202F \<or> c = 0x205F
     \<or> c = 0x3000 \<or> c = 0xFEFF"

lemma is_ws_space [simp]: "is_ws 32"
  by (simp add: is_ws_def)

definition trim :: "jsstr \<Rightarrow> jsstr" where
  "trim s = rev (dropWhile is_ws (rev (dropWhile is_ws s)))"

lemma length_dropWhile_less_Suc [simp]: "length (dropWhile P xs) < Suc (length xs)"
  using length_dropWhile_le [of P xs] by simp

text \<open>\<open>s.replace(/\s+/g, ' ')\<close>: every maximal run of white space becomes one space.\<close>

fun collapse_ws :: "jsstr \<Rightarrow> jsstr" where
  "collapse_ws [] = []"
| "collapse_ws (c # cs) =
     (if is_ws c then 32 # collapse_ws (dropWhile is_ws cs) else c # collapse_ws cs)"

text \<open>The idiom \<open>s.replace(/\s+/g, ' ').trim()\<close>.\<close>

definition one_line :: "jsstr \<Rightarrow> jsstr" where
  "one_line s = trim (collapse_ws s)"

text \<open>No two adjacent white-space units.\<close>

fun ws_sparse :: "jsstr \<Rightarrow> bool" where
  "ws_sparse (a # b # cs) \<longleftrightarrow> \<not> (is_ws a \<and> is_ws b) \<and> ws_sparse (b # cs)"
| "ws_sparse _ \<longleftrightarrow> True"

lemma collapse_ws_hd_not_ws:
  "(case cs of [] \<Rightarrow> True | c # _ \<Rightarrow> \<not> is_ws c) \<Longrightarrow>
   (case collapse_ws cs of [] \<Rightarrow> True | c # _ \<Rightarrow> \<not> is_ws c)"
  by (cases cs) auto

lemma dropWhile_hd_not: "case dropWhile P cs of [] \<Rightarrow> True | c # _ \<Rightarrow> \<not> P c"
  by (induction cs) auto

lemma ws_sparse_Cons:
  "ws_sparse (a # cs) \<longleftrightarrow>
     (case cs of [] \<Rightarrow> True | b # _ \<Rightarrow> \<not> (is_ws a \<and> is_ws b)) \<and> ws_sparse cs"
  by (cases cs) auto

lemma ws_sparse_collapse: "ws_sparse (collapse_ws s)"
proof (induction s rule: collapse_ws.induct)
  case 1
  then show ?case by simp
next
  case (2 c cs)
  show ?case
  proof (cases "is_ws c")
    case True
    have "case collapse_ws (dropWhile is_ws cs) of [] \<Rightarrow> True | b # _ \<Rightarrow> \<not> is_ws b"
      by (rule collapse_ws_hd_not_ws) (rule dropWhile_hd_not)
    with True "2.IH"(1) show ?thesis
      by (auto simp: ws_sparse_Cons split: list.splits)
  next
    case False
    with "2.IH"(2) show ?thesis by (auto simp: ws_sparse_Cons split: list.splits)
  qed
qed

lemma collapse_ws_only_space: "c \<in> set (collapse_ws s) \<Longrightarrow> is_ws c \<Longrightarrow> c = 32"
  by (induction s rule: collapse_ws.induct) (auto split: if_splits)

lemma collapse_ws_length: "length (collapse_ws s) \<le> length s"
proof (induction s rule: collapse_ws.induct)
  case (2 c cs)
  then show ?case using length_dropWhile_le [of is_ws cs] by auto
qed simp

lemma trim_length: "length (trim s) \<le> length s"
  using length_dropWhile_le [of is_ws s] length_dropWhile_le [of is_ws "rev (dropWhile is_ws s)"]
  by (simp add: trim_def)

lemma one_line_length: "length (one_line s) \<le> length s"
  using collapse_ws_length [of s] trim_length [of "collapse_ws s"] by (simp add: one_line_def)

lemma dropWhile_suffix: "suffix (dropWhile P s) s"
  by (metis suffix_def takeWhile_dropWhile_id)

lemma trim_sublist: "sublist (trim s) s"
proof -
  have "prefix (trim s) (dropWhile is_ws s)"
    unfolding trim_def using dropWhile_suffix [of is_ws "rev (dropWhile is_ws s)"]
    by (simp add: suffix_to_prefix)
  then have "sublist (trim s) (dropWhile is_ws s)" by (rule prefix_imp_sublist)
  also have "sublist (dropWhile is_ws s) s"
    by (rule suffix_imp_sublist) (rule dropWhile_suffix)
  finally show ?thesis .
qed

lemma ws_sparse_suffix: "ws_sparse (a @ s) \<Longrightarrow> ws_sparse s"
  by (induction a) (simp_all add: ws_sparse_Cons del: ws_sparse.simps(1))

lemma ws_sparse_prefix: "ws_sparse (s @ b) \<Longrightarrow> ws_sparse s"
proof (induction s)
  case (Cons c s)
  then show ?case by (cases s) simp_all
qed simp

lemma ws_sparse_sublist:
  assumes "sublist s t" and "ws_sparse t"
  shows "ws_sparse s"
proof -
  from assms(1) obtain a b where "t = a @ s @ b" by (auto simp: sublist_def)
  with assms(2) have "ws_sparse (s @ b)" by (simp add: ws_sparse_suffix)
  then show ?thesis by (rule ws_sparse_prefix)
qed

lemma trim_ends:
  "trim s \<noteq> [] \<Longrightarrow> \<not> is_ws (hd (trim s)) \<and> \<not> is_ws (last (trim s))"
proof -
  assume ne: "trim s \<noteq> []"
  let ?d = "dropWhile is_ws s"
  let ?e = "dropWhile is_ws (rev ?d)"
  from ne have e: "?e \<noteq> []" by (simp add: trim_def)
  then have "\<not> is_ws (hd ?e)" by (rule hd_dropWhile)
  then have l: "\<not> is_ws (last (trim s))" using e by (simp add: trim_def last_rev)
  from e have d: "?d \<noteq> []" by (metis dropWhile.simps(1) rev.simps(1))
  then have dh: "\<not> is_ws (hd ?d)" by (rule hd_dropWhile)
  have "rev ?d = takeWhile is_ws (rev ?d) @ ?e" by simp
  then have "?d = rev ?e @ rev (takeWhile is_ws (rev ?d))"
    by (metis rev_append rev_rev_ident)
  then have "hd ?d = hd (rev ?e)" using e by (metis hd_append2 rev_is_Nil_conv)
  then have "hd ?d = hd (trim s)" by (simp add: trim_def)
  with l dh show ?thesis by simp
qed

text \<open>The shape of a one-line text, and that such a text is left alone.\<close>

definition is_one_line :: "jsstr \<Rightarrow> bool" where
  "is_one_line s \<longleftrightarrow> ws_sparse s \<and> (\<forall>c\<in>set s. is_ws c \<longrightarrow> c = 32)
     \<and> (s \<noteq> [] \<longrightarrow> \<not> is_ws (hd s) \<and> \<not> is_ws (last s))"

lemma is_one_line_one_line: "is_one_line (one_line s)"
proof -
  have sub: "sublist (one_line s) (collapse_ws s)"
    by (simp add: one_line_def trim_sublist)
  have "set (one_line s) \<subseteq> set (collapse_ws s)"
    using sub by (rule set_mono_sublist)
  with ws_sparse_sublist [OF sub ws_sparse_collapse]
  show ?thesis
    unfolding is_one_line_def
    using collapse_ws_only_space [of _ s] trim_ends [of "collapse_ws s"]
    by (auto simp: one_line_def)
qed

lemma collapse_ws_id:
  "ws_sparse s \<Longrightarrow> (\<forall>c\<in>set s. is_ws c \<longrightarrow> c = 32) \<Longrightarrow> collapse_ws s = s"
proof (induction s rule: collapse_ws.induct)
  case (2 c cs)
  show ?case
  proof (cases "is_ws c")
    case True
    with "2.prems"(1) have "dropWhile is_ws cs = cs"
      by (cases cs) auto
    with True "2.IH"(1) "2.prems" show ?thesis by (auto simp: ws_sparse_Cons)
  next
    case False
    with "2.IH"(2) "2.prems" show ?thesis by (auto simp: ws_sparse_Cons)
  qed
qed simp

lemma trim_id: "s \<noteq> [] \<Longrightarrow> \<not> is_ws (hd s) \<Longrightarrow> \<not> is_ws (last s) \<Longrightarrow> trim s = s"
proof -
  assume "s \<noteq> []" "\<not> is_ws (hd s)" "\<not> is_ws (last s)"
  then have "dropWhile is_ws s = s" by (cases s) auto
  moreover have "dropWhile is_ws (rev s) = rev s"
    using \<open>s \<noteq> []\<close> \<open>\<not> is_ws (last s)\<close> by (cases s rule: rev_cases) auto
  ultimately show ?thesis by (simp add: trim_def)
qed

lemma one_line_id: "is_one_line s \<Longrightarrow> one_line s = s"
  unfolding is_one_line_def one_line_def
  by (cases "s = []") (simp add: trim_def, simp add: collapse_ws_id trim_id)

lemma one_line_idem: "one_line (one_line s) = one_line s"
  by (rule one_line_id) (rule is_one_line_one_line)

lemma newline_not_in_one_line: "10 \<notin> set (one_line s)"
  using is_one_line_one_line [of s] by (auto simp: is_one_line_def is_ws_def)


section \<open>Slicing, splitting, searching\<close>

text \<open>\<open>s.slice(0, n)\<close> and \<open>s.slice(1, -1)\<close>.\<close>

definition slice0 :: "nat \<Rightarrow> jsstr \<Rightarrow> jsstr" where
  "slice0 n s = take n s"

definition slice_inner :: "jsstr \<Rightarrow> jsstr" where
  "slice_inner s = butlast (tl s)"

fun split_on :: "16 word \<Rightarrow> jsstr \<Rightarrow> jsstr list" where
  "split_on d [] = [[]]"
| "split_on d (c # cs) =
     (if c = d then [] # split_on d cs
      else (case split_on d cs of [] \<Rightarrow> [[c]] | p # ps \<Rightarrow> (c # p) # ps))"

fun join :: "jsstr \<Rightarrow> jsstr list \<Rightarrow> jsstr" where
  "join sep [] = []"
| "join sep [s] = s"
| "join sep (s # ss) = s @ sep @ join sep ss"

lemma split_on_not_Nil [simp]: "split_on d s \<noteq> []"
  by (induction s) (auto split: list.splits)

lemma split_on_hd: "hd (split_on d s) = takeWhile (\<lambda>c. c \<noteq> d) s"
  by (induction s) (auto split: list.splits)

lemma join_Cons: "ss \<noteq> [] \<Longrightarrow> join sep (s # ss) = s @ sep @ join sep ss"
  by (cases ss) simp_all

lemma join_split_on: "join [d] (split_on d s) = s"
proof (induction s)
  case (Cons c s)
  then show ?case
    by (cases "split_on d s"; cases "tl (split_on d s)") auto
qed simp

lemma split_on_no_sep: "d \<notin> set s \<Longrightarrow> split_on d s = [s]"
  by (induction s) auto

lemma split_on_append: "d \<notin> set a \<Longrightarrow> split_on d (a @ d # b) = a # split_on d b"
  by (induction a) auto

lemma split_on_join:
  "ss \<noteq> [] \<Longrightarrow> (\<And>s. s \<in> set ss \<Longrightarrow> d \<notin> set s) \<Longrightarrow> split_on d (join [d] ss) = ss"
proof (induction ss)
  case Nil
  then show ?case by simp
next
  case (Cons s ss)
  show ?case
  proof (cases "ss = []")
    case True
    with Cons.prems(2) show ?thesis by (simp add: split_on_no_sep)
  next
    case False
    with Cons.IH Cons.prems(2) show ?thesis by (simp add: join_Cons split_on_append)
  qed
qed

definition startsWith :: "jsstr \<Rightarrow> jsstr \<Rightarrow> bool" where
  "startsWith s p \<longleftrightarrow> take (length p) s = p"

definition endsWith :: "jsstr \<Rightarrow> jsstr \<Rightarrow> bool" where
  "endsWith s p \<longleftrightarrow> length p \<le> length s \<and> drop (length s - length p) s = p"

fun includes_str :: "jsstr \<Rightarrow> jsstr \<Rightarrow> bool" where
  "includes_str [] p \<longleftrightarrow> p = []"
| "includes_str (c # cs) p \<longleftrightarrow> startsWith (c # cs) p \<or> includes_str cs p"

lemma startsWith_iff: "startsWith s p \<longleftrightarrow> prefix p s"
  by (metis append_eq_conv_conj append_take_drop_id prefix_def startsWith_def)

lemma endsWith_iff: "endsWith s p \<longleftrightarrow> suffix p s"
  unfolding endsWith_def suffix_def
  by (metis append_take_drop_id diff_diff_cancel diff_le_self length_append length_drop
      add_diff_cancel_right' append_eq_conv_conj le_add2)

lemma includes_str_iff: "includes_str s p \<longleftrightarrow> sublist p s"
  by (induction s) (auto simp: startsWith_iff sublist_Cons_right)

text \<open>\<open>s.replace(/\/$/, '')\<close>: one trailing slash goes.\<close>

definition strip_slash :: "jsstr \<Rightarrow> jsstr" where
  "strip_slash s = (if s \<noteq> [] \<and> last s = 0x2F then butlast s else s)"

text \<open>\<open>toLowerCase\<close>, on the ASCII letters; other code units are kept.\<close>

definition lower :: "16 word \<Rightarrow> 16 word" where
  "lower c = (if 65 \<le> c \<and> c \<le> 90 then c + 32 else c)"

definition toLowerCase :: "jsstr \<Rightarrow> jsstr" where
  "toLowerCase s = map lower s"

lemma lower_idem: "lower (lower c) = lower c"
proof (cases "65 \<le> c \<and> c \<le> 90")
  case True
  then have "unat c \<le> 90" and "65 \<le> unat c" by (simp_all add: word_le_nat_alt)
  then have "unat (c + 32) = unat c + 32" by (subst unat_add_lem [THEN iffD1]) simp_all
  with \<open>65 \<le> unat c\<close> have "\<not> c + 32 \<le> 90" by (simp add: word_le_nat_alt)
  with True show ?thesis by (simp add: lower_def)
next
  case False
  then show ?thesis by (simp add: lower_def)
qed

lemma toLowerCase_idem: "toLowerCase (toLowerCase s) = toLowerCase s"
  by (simp add: toLowerCase_def lower_idem)


section \<open>UTF-8\<close>

definition is_high :: "16 word \<Rightarrow> bool" where
  "is_high c \<longleftrightarrow> 0xD800 \<le> c \<and> c \<le> 0xDBFF"

definition is_low :: "16 word \<Rightarrow> bool" where
  "is_low c \<longleftrightarrow> 0xDC00 \<le> c \<and> c \<le> 0xDFFF"

text \<open>
  The number of bytes \<open>TextEncoder\<close> produces: one to three bytes for a unit of
  the basic plane, four for a surrogate pair, three (the replacement character)
  for a surrogate on its own.
\<close>

definition unit_len :: "16 word \<Rightarrow> nat" where
  "unit_len c = (if c < 0x80 then 1 else if c < 0x800 then 2 else 3)"

fun utf8_len :: "jsstr \<Rightarrow> nat" where
  "utf8_len [] = 0"
| "utf8_len [c] = unit_len c"
| "utf8_len (c # d # cs) =
     (if is_high c \<and> is_low d then 4 + utf8_len cs else unit_len c + utf8_len (d # cs))"

lemma unit_len_pos: "0 < unit_len c" "unit_len c \<le> 3"
  by (simp_all add: unit_len_def)

lemma utf8_len_lower: "length s \<le> utf8_len s"
proof (induction s rule: utf8_len.induct)
  case (2 c)
  then show ?case using unit_len_pos(1) [of c] by simp
next
  case (3 c d cs)
  then show ?case using unit_len_pos(1) [of c] by auto
qed simp

lemma utf8_len_upper: "utf8_len s \<le> 3 * length s"
proof (induction s rule: utf8_len.induct)
  case (2 c)
  then show ?case using unit_len_pos(2) [of c] by simp
next
  case (3 c d cs)
  then show ?case using unit_len_pos(2) [of c] by auto
qed simp

text \<open>Across a boundary that no surrogate pair straddles, the byte counts add up.\<close>

lemma utf8_len_append:
  "a = [] \<or> \<not> is_high (last a) \<Longrightarrow> utf8_len (a @ b) = utf8_len a + utf8_len b"
proof (induction a rule: utf8_len.induct)
  case (2 c)
  then show ?case by (cases b) auto
next
  case (3 c d cs)
  show ?case
  proof (cases "is_high c \<and> is_low d")
    case True
    have "\<not> is_high d" if "is_low d"
      using that by (auto simp: is_high_def is_low_def word_le_nat_alt)
    with True "3.prems" have "cs = [] \<or> \<not> is_high (last cs)" by auto
    with True "3.IH"(1) show ?thesis by auto
  next
    case False
    with "3.IH"(2) "3.prems" show ?thesis by auto
  qed
qed simp

lemma utf8_len_ascii: "(\<And>c. c \<in> set s \<Longrightarrow> c < 0x80) \<Longrightarrow> utf8_len s = length s"
proof (induction s rule: utf8_len.induct)
  case (2 c)
  then show ?case by (simp add: unit_len_def)
next
  case (3 c d cs)
  have "c < 0x80" by (rule "3.prems") simp
  then have "\<not> is_high c" by (auto simp: is_high_def word_le_nat_alt word_less_nat_alt)
  with \<open>c < 0x80\<close> 3 show ?case by (simp add: unit_len_def)
qed simp

end
