(* ===== verification/JsNumber.thy ===== *)
theory JsNumber
  imports JsString
begin

text \<open>
  Numbers. Counters, timestamps and sizes of the sources are integers and are
  modelled as \<open>int\<close>. Numbers inside JSON data may have a fraction: \<open>jsnum\<close> is an
  exact decimal, which agrees with a double up to fifteen significant digits. The
  few places that divide (\<open>ms / 1000\<close>, \<open>ms / 60_000\<close>, \<open>total / LIMIT\<close>) do so in
  double precision: \<open>js_quot\<close> computes the double that the division yields, rounded
  to nearest with ties to even, as an integer significand and a power of two, and
  \<open>Math.floor\<close>, \<open>Math.ceil\<close> and \<open>toFixed(1)\<close> are taken of that double.
\<close>

section \<open>Decimal digits\<close>

definition digit :: "nat \<Rightarrow> 16 word" where
  "digit d = of_nat (48 + d)"

fun dec_digits :: "nat \<Rightarrow> jsstr" where
  "dec_digits n = (if n < 10 then [digit n] else dec_digits (n div 10) @ [digit (n mod 10)])"

declare dec_digits.simps [simp del]

definition is_digit :: "16 word \<Rightarrow> bool" where
  "is_digit c \<longleftrightarrow> 48 \<le> c \<and> c \<le> 57"

definition digit_val :: "16 word \<Rightarrow> nat" where
  "digit_val c = unat c - 48"

definition digits_val :: "jsstr \<Rightarrow> nat" where
  "digits_val s = foldl (\<lambda>n c. 10 * n + digit_val c) 0 s"

definition show_int :: "int \<Rightarrow> jsstr" where
  "show_int i = (if i < 0 then 45 # dec_digits (nat (- i)) else dec_digits (nat i))"

lemma unat_digit: "d < 10 \<Longrightarrow> unat (digit d) = 48 + d"
  unfolding digit_def by (subst unat_of_nat) simp

lemma is_digit_digit [simp]: "d < 10 \<Longrightarrow> is_digit (digit d)"
  by (simp add: is_digit_def word_le_nat_alt unat_digit)

lemma digit_val_digit [simp]: "d < 10 \<Longrightarrow> digit_val (digit d) = d"
  by (simp add: digit_val_def unat_digit)

lemma dec_digits_not_Nil [simp]: "dec_digits n \<noteq> []"
  by (subst dec_digits.simps) simp

lemma dec_digits_all: "c \<in> set (dec_digits n) \<Longrightarrow> is_digit c"
proof (induction n rule: dec_digits.induct)
  case (1 n)
  show ?case
  proof (cases "n < 10")
    case True
    with "1.prems" show ?thesis by (simp add: dec_digits.simps [of n])
  next
    case False
    with 1 show ?thesis by (auto simp: dec_digits.simps [of n])
  qed
qed

lemma dec_digits_hd_digit [simp]: "is_digit (hd (dec_digits n))"
  by (rule dec_digits_all) (rule hd_in_set [OF dec_digits_not_Nil])

lemma digits_val_snoc: "digits_val (s @ [c]) = 10 * digits_val s + digit_val c"
  by (simp add: digits_val_def)

lemma digits_val_dec_digits [simp]: "digits_val (dec_digits n) = n"
proof (induction n rule: dec_digits.induct)
  case (1 n)
  show ?case
  proof (cases "n < 10")
    case True
    then show ?thesis by (simp add: dec_digits.simps [of n] digits_val_def)
  next
    case False
    with 1 show ?thesis by (simp add: dec_digits.simps [of n] digits_val_snoc)
  qed
qed

lemma dec_digits_hd: "0 < n \<Longrightarrow> hd (dec_digits n) \<noteq> 48"
proof (induction n rule: dec_digits.induct)
  case (1 n)
  show ?case
  proof (cases "n < 10")
    case True
    with "1.prems" have "unat (digit n) \<noteq> 48" by (simp add: unat_digit)
    then have "digit n \<noteq> 48" by auto
    with True show ?thesis by (simp add: dec_digits.simps [of n])
  next
    case False
    then have "0 < n div 10" by simp
    with False 1 show ?thesis by (simp add: dec_digits.simps [of n])
  qed
qed

lemma dec_digits_0 [simp]: "dec_digits 0 = [48]"
  by (simp add: dec_digits.simps digit_def)

lemma dec_digits_inj: "dec_digits m = dec_digits n \<Longrightarrow> m = n"
  by (metis digits_val_dec_digits)

lemma digit_not_minus: "is_digit c \<Longrightarrow> c \<noteq> 45"
  by (auto simp: is_digit_def word_le_nat_alt)

lemma show_int_not_Nil [simp]: "show_int i \<noteq> []"
  by (simp add: show_int_def)

lemma show_int_inj: "show_int i = show_int j \<longleftrightarrow> i = j"
proof
  assume eq: "show_int i = show_int j"
  have neg: "hd (show_int k) = 45 \<longleftrightarrow> k < 0" for k
    using digit_not_minus [OF dec_digits_all [OF hd_in_set [OF dec_digits_not_Nil]], of "nat k"]
    by (simp add: show_int_def)
  from eq neg [of i] neg [of j] have "i < 0 \<longleftrightarrow> j < 0" by simp
  with eq show "i = j"
    by (auto simp: show_int_def dest!: dec_digits_inj split: if_splits)
qed simp


section \<open>Decimal numbers\<close>

text \<open>
  \<open>JInt i\<close> is an integer, \<open>JDec m k\<close> the fraction \<open>m / 10 ^ (k + 1)\<close>, in lowest
  decimal terms when \<open>m\<close> is not a multiple of ten.
\<close>

datatype jsnum = JInt int | JDec int nat

fun num_wf :: "jsnum \<Rightarrow> bool" where
  "num_wf (JInt i) \<longleftrightarrow> True"
| "num_wf (JDec m k) \<longleftrightarrow> m mod 10 \<noteq> 0"

fun norm_dec :: "int \<Rightarrow> nat \<Rightarrow> jsnum" where
  "norm_dec m 0 = JInt m"
| "norm_dec m (Suc k) = (if m mod 10 = 0 then norm_dec (m div 10) k else JDec m k)"

text \<open>The number \<open>m * 10 ^ e\<close>.\<close>

definition dec_num :: "int \<Rightarrow> int \<Rightarrow> jsnum" where
  "dec_num m e = (if 0 \<le> e then JInt (m * 10 ^ nat e) else norm_dec m (nat (- e)))"

fun num_neg :: "jsnum \<Rightarrow> jsnum" where
  "num_neg (JInt i) = JInt (- i)"
| "num_neg (JDec m k) = JDec (- m) k"

text \<open>Numerator and denominator, for comparisons.\<close>

fun num_frac :: "jsnum \<Rightarrow> int \<times> int" where
  "num_frac (JInt i) = (i, 1)"
| "num_frac (JDec m k) = (m, 10 ^ Suc k)"

lemma num_wf_norm_dec: "num_wf (norm_dec m k)"
  by (induction m k rule: norm_dec.induct) auto

lemma num_wf_dec_num: "num_wf (dec_num m e)"
  by (simp add: dec_num_def num_wf_norm_dec)

lemma norm_dec_wf: "m mod 10 \<noteq> 0 \<Longrightarrow> norm_dec m (Suc k) = JDec m k"
  by simp

text \<open>
  \<open>Number::toString\<close> in base ten: with \<open>ds\<close> the significant digits and \<open>n\<close> the
  position of the decimal point relative to them.
\<close>

definition strip_zeros :: "jsstr \<Rightarrow> jsstr" where
  "strip_zeros s = rev (dropWhile (\<lambda>c. c = 48) (rev s))"

definition exp_form :: "jsstr \<Rightarrow> int \<Rightarrow> jsstr" where
  "exp_form ds n =
     (case ds of
        [] \<Rightarrow> []
      | d # [] \<Rightarrow> [d]
      | d # rest \<Rightarrow> d # 46 # rest)
     @ js ''e'' @ (if 0 \<le> n - 1 then js ''+'' else js ''-'') @ dec_digits (nat \<bar>n - 1\<bar>)"

fun num_abs_string :: "jsnum \<Rightarrow> jsstr" where
  "num_abs_string (JInt i) =
     (let ds = dec_digits (nat \<bar>i\<bar>)
      in if \<bar>i\<bar> < 10 ^ 21 then ds else exp_form (strip_zeros ds) (int (length ds)))"
| "num_abs_string (JDec m k) =
     (let ds = dec_digits (nat \<bar>m\<bar>); n = int (length ds) - int (Suc k)
      in if 0 < n \<and> n \<le> 21 then take (nat n) ds @ 46 # drop (nat n) ds
         else if - 6 < n \<and> n \<le> 0 then js ''0.'' @ replicate (nat (- n)) 48 @ ds
         else exp_form ds n)"

fun num_is_neg :: "jsnum \<Rightarrow> bool" where
  "num_is_neg (JInt i) \<longleftrightarrow> i < 0"
| "num_is_neg (JDec m k) \<longleftrightarrow> m < 0"

definition num_to_string :: "jsnum \<Rightarrow> jsstr" where
  "num_to_string x = (if num_is_neg x then 45 # num_abs_string x else num_abs_string x)"

lemma num_to_string_int: "\<bar>i\<bar> < 10 ^ 21 \<Longrightarrow> num_to_string (JInt i) = show_int i"
  by (cases "i < 0") (simp_all add: num_to_string_def show_int_def Let_def)


section \<open>Quotients in double precision\<close>

text \<open>
  \<open>quot_scale a b\<close> is the least \<open>s\<close> for which \<open>a * 2 ^ s / b\<close> has 53 significant
  bits; the double nearest to \<open>a / b\<close> is \<open>round (a * 2 ^ s / b) / 2 ^ s\<close>. This is the
  quotient of the language for \<open>a / b < 2 ^ 53\<close>.
\<close>

function quot_scale :: "nat \<Rightarrow> nat \<Rightarrow> nat" where
  "quot_scale a b = (if a = 0 \<or> 2 ^ 52 * b \<le> a then 0 else Suc (quot_scale (2 * a) b))"
  by pat_completeness auto
termination
  by (relation "measure (\<lambda>(a, b). 2 ^ 52 * b - a)") auto

declare quot_scale.simps [simp del]

definition round_half_even :: "nat \<Rightarrow> nat \<Rightarrow> nat" where
  "round_half_even n d =
     (let q = n div d; r = n mod d
      in if 2 * r < d \<or> (2 * r = d \<and> even q) then q else q + 1)"

definition js_quot :: "nat \<Rightarrow> nat \<Rightarrow> nat \<times> nat" where
  "js_quot a b = (let s = quot_scale a b in (round_half_even (a * 2 ^ s) b, s))"

definition floor_quot :: "nat \<Rightarrow> nat \<Rightarrow> nat" where
  "floor_quot a b = (case js_quot a b of (m, s) \<Rightarrow> m div 2 ^ s)"

definition ceil_quot :: "nat \<Rightarrow> nat \<Rightarrow> nat" where
  "ceil_quot a b = (case js_quot a b of (m, s) \<Rightarrow> (m + 2 ^ s - 1) div 2 ^ s)"

text \<open>
  \<open>(a / b).toFixed(1)\<close>: the integer \<open>n\<close> for which \<open>n / 10\<close> is closest to the double,
  the larger one when two are equally close; \<open>fixed1\<close> writes it with one decimal.
\<close>

definition tenths :: "nat \<Rightarrow> nat \<Rightarrow> nat" where
  "tenths a b = (case js_quot a b of (m, s) \<Rightarrow> (20 * m + 2 ^ s) div 2 ^ Suc s)"

definition fixed1 :: "nat \<Rightarrow> jsstr" where
  "fixed1 n = dec_digits (n div 10) @ 46 # dec_digits (n mod 10)"

definition toFixed1 :: "int \<Rightarrow> nat \<Rightarrow> jsstr" where
  "toFixed1 a b =
     (if a < 0 then 45 # fixed1 (tenths (nat (- a)) b) else fixed1 (tenths (nat a) b))"

lemma quot_scale_lower: "0 < a \<Longrightarrow> 0 < b \<Longrightarrow> 2 ^ 52 * b \<le> a * 2 ^ quot_scale a b"
proof (induction a b rule: quot_scale.induct)
  case (1 a b)
  show ?case
  proof (cases "2 ^ 52 * b \<le> a")
    case True
    then show ?thesis by (simp add: quot_scale.simps [of a b])
  next
    case False
    have "2 ^ 52 * b \<le> 2 * a * 2 ^ quot_scale (2 * a) b"
      using 1 False by simp
    with False "1.prems" show ?thesis
      by (simp add: quot_scale.simps [of a b] mult.commute mult.left_commute)
  qed
qed

lemma round_half_even_bounds:
  assumes "0 < d"
  shows "2 * n \<le> 2 * round_half_even n d * d + d" and "2 * round_half_even n d * d \<le> 2 * n + d"
proof -
  define q r where "q = n div d" and "r = n mod d"
  have n: "n = q * d + r" and r: "r < d" using assms by (simp_all add: q_def r_def)
  have "round_half_even n d = (if 2 * r < d \<or> (2 * r = d \<and> even q) then q else q + 1)"
    by (simp add: round_half_even_def q_def r_def Let_def)
  then show "2 * n \<le> 2 * round_half_even n d * d + d"
    and "2 * round_half_even n d * d \<le> 2 * n + d"
    using r by (auto simp: n algebra_simps)
qed

text \<open>The scale is large enough to tell neighbouring multiples of \<open>1 / b\<close> apart.\<close>

lemma quot_scale_resolution:
  assumes "0 < a" and "a < 2 ^ 53" and "0 < b"
  shows "b < 2 * 2 ^ quot_scale a b"
proof -
  let ?p = "2 ^ quot_scale a b :: nat"
  have "2 ^ 52 * b \<le> a * ?p" using assms(1,3) by (rule quot_scale_lower)
  also have "a * ?p < 2 ^ 53 * ?p" using assms(2) by (intro mult_strict_right_mono) simp_all
  finally have "2 ^ 52 * b < 2 ^ 52 * (2 * ?p)" by simp
  then show ?thesis by (simp only: mult_less_cancel1)
qed

lemma js_quot_bounds:
  assumes "0 < b" and "js_quot a b = (m, s)"
  shows "2 * a * 2 ^ s \<le> 2 * m * b + b" and "2 * m * b \<le> 2 * a * 2 ^ s + b"
  using round_half_even_bounds [OF assms(1), of "a * 2 ^ quot_scale a b"] assms(2)
  by (auto simp: js_quot_def Let_def mult.assoc)

lemma js_quot_0: "js_quot 0 b = (0, 0)"
  by (cases "b = 0") (simp_all add: js_quot_def quot_scale.simps round_half_even_def Let_def)

lemma round_half_even_mono_mult:
  assumes "0 < d" and "q * d \<le> n"
  shows "q \<le> round_half_even n d"
proof -
  have "q \<le> n div d" using assms by (simp add: less_eq_div_iff_mult_less_eq)
  then show ?thesis by (simp add: round_half_even_def Let_def)
qed

lemma floor_quot_exact:
  assumes "a < 2 ^ 53" and b: "0 < b"
  shows "floor_quot a b = a div b"
proof (cases "a = 0")
  case True
  then show ?thesis by (simp add: floor_quot_def js_quot_0)
next
  case False
  define s p m q where "s = quot_scale a b" and "p = (2 ^ s :: nat)"
    and "m = round_half_even (a * p) b" and "q = a div b"
  have quot: "js_quot a b = (m, s)" by (simp add: js_quot_def m_def p_def s_def Let_def)
  have res: "b < 2 * p"
    using quot_scale_resolution [of a b] False assms by (simp add: p_def s_def)
  have "q * b \<le> a" by (simp add: q_def)
  then have "q * b * p \<le> a * p" by (rule mult_right_mono) simp
  then have "q * p * b \<le> a * p" by (simp add: algebra_simps)
  then have lo: "q * p \<le> m" unfolding m_def by (rule round_half_even_mono_mult [OF b])
  have "a < (q + 1) * b" unfolding q_def using b
    by (metis Suc_eq_plus1 dividend_less_div_times mult.commute mult_Suc_right add.commute mult_Suc)
  then have "a + 1 \<le> (q + 1) * b" by simp
  then have "(a + 1) * p \<le> (q + 1) * b * p" by (rule mult_right_mono) simp
  then have "2 * a * p + 2 * p \<le> 2 * ((q + 1) * p) * b" by (simp add: algebra_simps)
  moreover have "2 * m * b \<le> 2 * a * p + b"
    using js_quot_bounds(2) [OF b quot] by (simp add: p_def)
  ultimately have "2 * m * b < 2 * ((q + 1) * p) * b" using res by linarith
  then have hi: "m < (q + 1) * p" by simp
  have "m div p = q"
    using lo hi by (simp add: div_nat_eqI mult.commute)
  then show ?thesis by (simp add: floor_quot_def quot p_def q_def)
qed


lemma ceil_quot_exact:
  assumes "a < 2 ^ 53" and b: "0 < b"
  shows "ceil_quot a b = (a + b - 1) div b"
proof (cases "a = 0")
  case True
  with b show ?thesis by (simp add: ceil_quot_def js_quot_0)
next
  case False
  define s p m c where "s = quot_scale a b" and "p = (2 ^ s :: nat)"
    and "m = round_half_even (a * p) b" and "c = (a + b - 1) div b"
  have quot: "js_quot a b = (m, s)" by (simp add: js_quot_def m_def p_def s_def Let_def)
  have res: "b < 2 * p"
    using quot_scale_resolution [of a b] False assms by (simp add: p_def s_def)
  have p: "0 < p" by (simp add: p_def)
  have c_hi: "a \<le> c * b" and c_lo: "c * b < a + b"
    using b div_mult_mod_eq [of "a + b - 1" b] mod_less_divisor [OF b, of "a + b - 1"] False
    unfolding c_def by linarith+
  have up: "2 * m * b \<le> 2 * a * p + b" and lo: "2 * a * p \<le> 2 * m * b + b"
    using js_quot_bounds [OF b quot] by (simp_all add: p_def)
  have "a * p \<le> c * b * p" using c_hi by (rule mult_right_mono) simp
  moreover have "2 * (c * p + 1) * b = 2 * (c * b * p) + 2 * b" by (simp add: algebra_simps)
  moreover have "2 * a * p = 2 * (a * p)" by simp
  ultimately have "2 * m * b < 2 * (c * p + 1) * b" using up b by linarith
  then have "2 * m < 2 * (c * p + 1)" by (simp only: mult_less_cancel2)
  then have hi: "m \<le> c * p" by simp
  have "c * b * p + p \<le> (a + b) * p"
    using mult_right_mono [of "c * b + 1" "a + b" p] c_lo by (simp add: algebra_simps)
  then have "2 * (c * p) * b + 2 * p \<le> 2 * a * p + 2 * p * b" by (simp add: algebra_simps)
  with lo res have "2 * (c * p) * b < 2 * (m + p) * b" by (simp add: algebra_simps)
  then have "2 * (c * p) < 2 * (m + p)" by (simp only: mult_less_cancel2)
  then have lo': "c * p < m + p" by simp
  have "(m + p - 1) div p = c"
    using hi lo' p by (intro div_nat_eqI) (simp_all add: mult.commute)
  then show ?thesis by (simp add: ceil_quot_def quot p_def c_def)
qed

text \<open>The printed tenth is a nearest one: half a tenth away at most.\<close>

lemma tenths_1000:
  assumes "a < 2 ^ 53"
  shows "\<bar>100 * int (tenths a 1000) - int a\<bar> \<le> 50"
proof (cases "a = 0")
  case True
  then show ?thesis by (simp add: tenths_def js_quot_0)
next
  case False
  define s p m n where "s = quot_scale a 1000" and "p = (2 ^ s :: nat)"
    and "m = round_half_even (a * p) 1000" and "n = (20 * m + p) div (2 * p)"
  have quot: "js_quot a 1000 = (m, s)" by (simp add: js_quot_def m_def p_def s_def Let_def)
  have res: "1000 < 2 * p"
    using quot_scale_resolution [of a 1000] False assms by (simp add: p_def s_def)
  have p: "0 < 2 * p" by (simp add: p_def)
  have t: "tenths a 1000 = n" by (simp add: tenths_def quot n_def p_def)
  have up: "2 * m * 1000 \<le> 2 * a * p + 1000" and lo: "2 * a * p \<le> 2 * m * 1000 + 1000"
    using js_quot_bounds [OF _ quot] by (simp_all add: p_def)
  have n1: "n * (2 * p) \<le> 20 * m + p" and n2: "20 * m + p < n * (2 * p) + 2 * p"
    using div_mult_mod_eq [of "20 * m + p" "2 * p"] mod_less_divisor [OF p, of "20 * m + p"]
    unfolding n_def by linarith+
  have "100 * n * p < (a + 51) * p"
    using n1 up res by (simp add: algebra_simps)
  then have a1: "100 * n < a + 51" by simp
  have "a * p < (100 * n + 51) * p"
    using n2 lo res by (simp add: algebra_simps)
  then have "a < 100 * n + 51" by simp
  with a1 show ?thesis by (simp add: t)
qed

end
