(* ===== verification/JsValue.thy ===== *)
theory JsValue
  imports JsNumber
begin

text \<open>
  Dynamic values: what \<open>JSON.parse\<close> returns, what the recorder puts in an event's
  \<open>data\<close> and what \<open>JSON.stringify\<close> consumes. Property access, truthiness, the
  conversions \<open>String(v)\<close> and \<open>Number(v)\<close>, and \<open>JSON.stringify\<close>.
\<close>

datatype jsval =
    JUndef
  | JNull
  | JBool bool
  | JNum jsnum
  | JStr jsstr
  | JArr "jsval list"
  | JObj "(jsstr \<times> jsval) list"

abbreviation jint :: "int \<Rightarrow> jsval" where
  "jint i \<equiv> JNum (JInt i)"

abbreviation jstr :: "string \<Rightarrow> jsval" where
  "jstr s \<equiv> JStr (js s)"


section \<open>Property access and tests\<close>

text \<open>
  \<open>v.k\<close>: reading a property of \<open>null\<close> or \<open>undefined\<close> throws; a missing property is
  \<open>undefined\<close>. None of the keys the sources read is a property that numbers,
  booleans, strings or arrays have.
\<close>

definition js_get :: "jsval \<Rightarrow> jsstr \<Rightarrow> jsval res" where
  "js_get v k = (case v of
       JUndef \<Rightarrow> Inl TypeError
     | JNull \<Rightarrow> Inl TypeError
     | JObj kvs \<Rightarrow> Inr (case map_of kvs k of None \<Rightarrow> JUndef | Some x \<Rightarrow> x)
     | _ \<Rightarrow> Inr JUndef)"

definition nullish :: "jsval \<Rightarrow> bool" where
  "nullish v \<longleftrightarrow> v = JUndef \<or> v = JNull"

text \<open>\<open>v?.k\<close>\<close>

definition js_opt_get :: "jsval \<Rightarrow> jsstr \<Rightarrow> jsval" where
  "js_opt_get v k = (case js_get v k of Inl _ \<Rightarrow> JUndef | Inr x \<Rightarrow> x)"

text \<open>\<open>v ?? d\<close>\<close>

definition js_or_else :: "jsval \<Rightarrow> jsval \<Rightarrow> jsval" where
  "js_or_else v d = (if nullish v then d else v)"

fun num_is_zero :: "jsnum \<Rightarrow> bool" where
  "num_is_zero (JInt i) \<longleftrightarrow> i = 0"
| "num_is_zero (JDec m k) \<longleftrightarrow> m = 0"

fun truthy :: "jsval \<Rightarrow> bool" where
  "truthy JUndef \<longleftrightarrow> False"
| "truthy JNull \<longleftrightarrow> False"
| "truthy (JBool b) \<longleftrightarrow> b"
| "truthy (JNum n) \<longleftrightarrow> \<not> num_is_zero n"
| "truthy (JStr s) \<longleftrightarrow> s \<noteq> []"
| "truthy (JArr vs) \<longleftrightarrow> True"
| "truthy (JObj kvs) \<longleftrightarrow> True"

fun is_num :: "jsval \<Rightarrow> bool" where
  "is_num (JNum _) \<longleftrightarrow> True"
| "is_num _ \<longleftrightarrow> False"

fun is_str :: "jsval \<Rightarrow> bool" where
  "is_str (JStr _) \<longleftrightarrow> True"
| "is_str _ \<longleftrightarrow> False"

lemma js_get_simps [simp]:
  "js_get JUndef k = Inl TypeError"
  "js_get JNull k = Inl TypeError"
  "js_get (JBool b) k = Inr JUndef"
  "js_get (JNum n) k = Inr JUndef"
  "js_get (JStr s) k = Inr JUndef"
  "js_get (JArr vs) k = Inr JUndef"
  "js_get (JObj kvs) k = Inr (case map_of kvs k of None \<Rightarrow> JUndef | Some x \<Rightarrow> x)"
  by (simp_all add: js_get_def)

lemma js_get_Inr: "\<not> nullish v \<Longrightarrow> \<exists>x. js_get v k = Inr x"
  by (cases v) (auto simp: nullish_def)

lemma js_get_nullish: "nullish v \<Longrightarrow> js_get v k = Inl TypeError"
  by (auto simp: nullish_def)

lemma js_get_truthy: "truthy v \<Longrightarrow> \<exists>x. js_get v k = Inr x"
  by (rule js_get_Inr) (auto simp: nullish_def)

lemma js_opt_get_nullish [simp]: "js_opt_get JUndef k = JUndef" "js_opt_get JNull k = JUndef"
  by (simp_all add: js_opt_get_def)

lemma js_or_else_simps [simp]:
  "js_or_else JUndef d = d"
  "js_or_else JNull d = d"
  "\<not> nullish v \<Longrightarrow> js_or_else v d = v"
  by (simp_all add: js_or_else_def nullish_def)

lemma nullish_simps [simp]:
  "nullish JUndef" "nullish JNull" "\<not> nullish (JBool b)" "\<not> nullish (JNum n)"
  "\<not> nullish (JStr s)" "\<not> nullish (JArr vs)" "\<not> nullish (JObj kvs)"
  by (simp_all add: nullish_def)


section \<open>String(v)\<close>

text \<open>
  Arrays join their elements with commas, \<open>null\<close> and \<open>undefined\<close> elements giving
  nothing. An object gives \<open>[object Object]\<close>, unless data has shadowed \<open>toString\<close>:
  a data property is never callable, so the conversion then throws.
\<close>

fun js_String :: "jsval \<Rightarrow> jsstr res" where
  "js_String JUndef = Inr (js ''undefined'')"
| "js_String JNull = Inr (js ''null'')"
| "js_String (JBool b) = Inr (if b then js ''true'' else js ''false'')"
| "js_String (JNum n) = Inr (num_to_string n)"
| "js_String (JStr s) = Inr s"
| "js_String (JArr vs) =
     bindR (mapR (\<lambda>v. if nullish v then Inr [] else js_String v) vs)
       (\<lambda>ss. Inr (join (js '','') ss))"
| "js_String (JObj kvs) =
     (if map_of kvs (js ''toString'') = None then Inr (js ''[object Object]'')
      else Inl TypeError)"

text \<open>Values whose conversion to a string cannot throw.\<close>

fun printable :: "jsval \<Rightarrow> bool" where
  "printable (JArr vs) \<longleftrightarrow> (\<forall>v\<in>set vs. printable v)"
| "printable (JObj kvs) \<longleftrightarrow> map_of kvs (js ''toString'') = None"
| "printable _ \<longleftrightarrow> True"

lemma mapR_total: "(\<And>x. x \<in> set xs \<Longrightarrow> \<exists>y. f x = Inr y) \<Longrightarrow> \<exists>ys. mapR f xs = Inr ys"
proof (induction xs)
  case (Cons x xs)
  obtain y where "f x = Inr y" using Cons.prems [of x] by auto
  moreover obtain ys where "mapR f xs = Inr ys" using Cons by auto
  ultimately show ?case by simp
qed simp

lemma js_String_printable: "printable v \<Longrightarrow> \<exists>s. js_String v = Inr s"
proof (induction v rule: js_String.induct)
  case (6 vs)
  have "\<exists>ys. mapR (\<lambda>v. if nullish v then Inr [] else js_String v) vs = Inr ys"
    by (rule mapR_total) (use 6 in auto)
  then show ?case by auto
qed auto


section \<open>Number(v)\<close>

datatype js_double = NaN | Infinity bool | Fin jsnum

text \<open>An exponent part, which must use up the rest of the string.\<close>

definition exp_part :: "jsstr \<Rightarrow> int option" where
  "exp_part s = (case s of
       [] \<Rightarrow> Some 0
     | c # r \<Rightarrow>
         if c = 0x65 \<or> c = 0x45 then
           (let neg = (r \<noteq> [] \<and> hd r = 0x2D);
                ds = (if r \<noteq> [] \<and> (hd r = 0x2D \<or> hd r = 0x2B) then tl r else r)
            in if ds \<noteq> [] \<and> list_all is_digit ds
               then Some (if neg then - int (digits_val ds) else int (digits_val ds))
               else None)
         else None)"

definition dec_literal :: "bool \<Rightarrow> jsstr \<Rightarrow> js_double" where
  "dec_literal neg s =
     (let ip = takeWhile is_digit s; r = dropWhile is_digit s;
          fp = (if r \<noteq> [] \<and> hd r = 0x2E then takeWhile is_digit (tl r) else []);
          r' = (if r \<noteq> [] \<and> hd r = 0x2E then dropWhile is_digit (tl r) else r)
      in if ip = [] \<and> fp = [] then NaN
         else (case exp_part r' of
                 None \<Rightarrow> NaN
               | Some e \<Rightarrow>
                   let m = int (digits_val (ip @ fp))
                   in Fin (dec_num (if neg then - m else m) (e - int (length fp)))))"

definition radix_digit :: "nat \<Rightarrow> 16 word \<Rightarrow> nat option" where
  "radix_digit b c =
     (let d = (if is_digit c then unat c - 48
               else if 0x61 \<le> c \<and> c \<le> 0x66 then unat c - 0x57
               else if 0x41 \<le> c \<and> c \<le> 0x46 then unat c - 0x37
               else b)
      in if d < b then Some d else None)"

definition radix_literal :: "nat \<Rightarrow> jsstr \<Rightarrow> js_double" where
  "radix_literal b s =
     (if s \<noteq> [] \<and> list_all (\<lambda>c. radix_digit b c \<noteq> None) s
      then Fin (JInt (int (foldl (\<lambda>n c. b * n + (case radix_digit b c of None \<Rightarrow> 0 | Some d \<Rightarrow> d)) 0 s)))
      else NaN)"

definition string_to_number :: "jsstr \<Rightarrow> js_double" where
  "string_to_number s0 =
     (let s = trim s0 in
      if s = [] then Fin (JInt 0)
      else if s = js ''Infinity'' \<or> s = js ''+Infinity'' then Infinity True
      else if s = js ''-Infinity'' then Infinity False
      else if startsWith s (js ''0x'') \<or> startsWith s (js ''0X'') then radix_literal 16 (drop 2 s)
      else if startsWith s (js ''0o'') \<or> startsWith s (js ''0O'') then radix_literal 8 (drop 2 s)
      else if startsWith s (js ''0b'') \<or> startsWith s (js ''0B'') then radix_literal 2 (drop 2 s)
      else if hd s = 0x2D then dec_literal True (tl s)
      else if hd s = 0x2B then dec_literal False (tl s)
      else dec_literal False s)"

definition to_number :: "jsval \<Rightarrow> js_double res" where
  "to_number v = (case v of
       JUndef \<Rightarrow> Inr NaN
     | JNull \<Rightarrow> Inr (Fin (JInt 0))
     | JBool b \<Rightarrow> Inr (Fin (JInt (if b then 1 else 0)))
     | JNum n \<Rightarrow> Inr (Fin n)
     | JStr s \<Rightarrow> Inr (string_to_number s)
     | _ \<Rightarrow> bindR (js_String v) (\<lambda>s. Inr (string_to_number s)))"

lemma to_number_simps [simp]:
  "to_number JUndef = Inr NaN"
  "to_number JNull = Inr (Fin (JInt 0))"
  "to_number (JNum n) = Inr (Fin n)"
  by (simp_all add: to_number_def)

text \<open>\<open>i < x\<close> and \<open>x * c < i\<close> for integers \<open>i\<close> and \<open>c > 0\<close>; every comparison with NaN is false.\<close>

fun int_less_double :: "int \<Rightarrow> js_double \<Rightarrow> bool" where
  "int_less_double i NaN \<longleftrightarrow> False"
| "int_less_double i (Infinity pos) \<longleftrightarrow> pos"
| "int_less_double i (Fin x) \<longleftrightarrow> (case num_frac x of (n, d) \<Rightarrow> i * d < n)"

fun times_less_int :: "js_double \<Rightarrow> int \<Rightarrow> int \<Rightarrow> bool" where
  "times_less_int NaN c i \<longleftrightarrow> False"
| "times_less_int (Infinity pos) c i \<longleftrightarrow> \<not> pos"
| "times_less_int (Fin x) c i \<longleftrightarrow> (case num_frac x of (n, d) \<Rightarrow> n * c < i * d)"


section \<open>JSON.stringify\<close>

definition hex_digit :: "nat \<Rightarrow> 16 word" where
  "hex_digit d = (if d < 10 then of_nat (48 + d) else of_nat (87 + d))"

text \<open>\<open>\uXXXX\<close> with lower-case hexadecimal digits.\<close>

definition unicode_escape :: "16 word \<Rightarrow> jsstr" where
  "unicode_escape c =
     (let n = unat c in
      [0x5C, 0x75, hex_digit (n div 4096), hex_digit (n div 256 mod 16),
       hex_digit (n div 16 mod 16), hex_digit (n mod 16)])"

definition quote_unit :: "16 word \<Rightarrow> jsstr" where
  "quote_unit c =
     (if c = 8 then [0x5C, 0x62]
      else if c = 9 then [0x5C, 0x74]
      else if c = 10 then [0x5C, 0x6E]
      else if c = 12 then [0x5C, 0x66]
      else if c = 13 then [0x5C, 0x72]
      else if c = 0x22 then [0x5C, 0x22]
      else if c = 0x5C then [0x5C, 0x5C]
      else if c < 0x20 \<or> is_high c \<or> is_low c then unicode_escape c
      else [c])"

text \<open>A surrogate pair is copied; a surrogate on its own is escaped.\<close>

fun quote_body :: "jsstr \<Rightarrow> jsstr" where
  "quote_body [] = []"
| "quote_body [c] = quote_unit c"
| "quote_body (c # d # cs) =
     (if is_high c \<and> is_low d then c # d # quote_body cs
      else quote_unit c @ quote_body (d # cs))"

definition quote :: "jsstr \<Rightarrow> jsstr" where
  "quote s = 0x22 # quote_body s @ [0x22]"

lemma size_snd_member [termination_simp]:
  "kv \<in> set kvs \<Longrightarrow> size (snd kv) < Suc (size_list (size_prod (\<lambda>_. 0) size) kvs)"
  by (induction kvs) auto

text \<open>
  An array writes \<open>null\<close> for \<open>undefined\<close>, an object leaves an \<open>undefined\<close> property
  out. (No source calls \<open>JSON.stringify\<close> on \<open>undefined\<close> itself.)
\<close>

fun stringify :: "jsval \<Rightarrow> jsstr" where
  "stringify JUndef = js ''null''"
| "stringify JNull = js ''null''"
| "stringify (JBool b) = (if b then js ''true'' else js ''false'')"
| "stringify (JNum n) = num_to_string n"
| "stringify (JStr s) = quote s"
| "stringify (JArr vs) = 0x5B # join [0x2C] (map stringify vs) @ [0x5D]"
| "stringify (JObj kvs) =
     0x7B # join [0x2C] (map (\<lambda>kv. quote (fst kv) @ 0x3A # stringify (snd kv))
                           (filter (\<lambda>kv. snd kv \<noteq> JUndef) kvs)) @ [0x7D]"

text \<open>What is left of a value once it has been through JSON.\<close>

fun clean :: "jsval \<Rightarrow> jsval" where
  "clean JUndef = JNull"
| "clean (JArr vs) = JArr (map clean vs)"
| "clean (JObj kvs) =
     JObj (map (\<lambda>kv. (fst kv, clean (snd kv))) (filter (\<lambda>kv. snd kv \<noteq> JUndef) kvs))"
| "clean v = v"

lemma clean_not_undef [simp]: "clean v \<noteq> JUndef"
  by (cases v) simp_all

end
