(* ===== verification/JsonParse.thy ===== *)
theory JsonParse
  imports JsValue "HOL-Library.AList"
begin

text \<open>
  \<open>JSON.parse\<close> as a recursive descent over code units, and the round trip: parsing
  what \<open>JSON.stringify\<close> wrote gives the value back, \<open>undefined\<close> properties aside.
  The recursion is bounded by a fuel argument that \<open>json_parse\<close> sets from the
  length of the text; \<open>json_parse_fuel\<close> shows that the bound is never met.
\<close>

section \<open>Tokens\<close>

definition is_json_ws :: "16 word \<Rightarrow> bool" where
  "is_json_ws c \<longleftrightarrow> c = 32 \<or> c = 9 \<or> c = 10 \<or> c = 13"

definition skip_ws :: "jsstr \<Rightarrow> jsstr" where
  "skip_ws s = dropWhile is_json_ws s"

definition hex_val :: "16 word \<Rightarrow> nat option" where
  "hex_val c = radix_digit 16 c"

definition hex4 :: "16 word \<Rightarrow> 16 word \<Rightarrow> 16 word \<Rightarrow> 16 word \<Rightarrow> (16 word) option" where
  "hex4 a b c d = (case (hex_val a, hex_val b, hex_val c, hex_val d) of
       (Some w, Some x, Some y, Some z) \<Rightarrow> Some (of_nat (((w * 16 + x) * 16 + y) * 16 + z))
     | _ \<Rightarrow> None)"

definition unescape :: "16 word \<Rightarrow> (16 word) option" where
  "unescape e =
     (if e = 0x22 then Some 0x22 else if e = 0x5C then Some 0x5C else if e = 0x2F then Some 0x2F
      else if e = 0x62 then Some 8 else if e = 0x66 then Some 12 else if e = 0x6E then Some 10
      else if e = 0x72 then Some 13 else if e = 0x74 then Some 9 else None)"

definition push_unit :: "16 word \<Rightarrow> (jsstr \<times> jsstr) res \<Rightarrow> (jsstr \<times> jsstr) res" where
  "push_unit c r = bindR r (\<lambda>(s, rest). Inr (c # s, rest))"

text \<open>What follows a backslash: one code unit and the rest of the text.\<close>

definition pescape :: "jsstr \<Rightarrow> (16 word \<times> jsstr) res" where
  "pescape s = (case s of
       [] \<Rightarrow> Inl SyntaxError
     | e # es \<Rightarrow>
         if e = 0x75 then
           (case es of
              h1 # h2 # h3 # h4 # rest \<Rightarrow>
                (case hex4 h1 h2 h3 h4 of None \<Rightarrow> Inl SyntaxError | Some u \<Rightarrow> Inr (u, rest))
            | _ \<Rightarrow> Inl SyntaxError)
         else (case unescape e of None \<Rightarrow> Inl SyntaxError | Some u \<Rightarrow> Inr (u, es)))"

lemma pescape_length: "pescape s = Inr (u, r) \<Longrightarrow> length r < length s"
  by (auto simp: pescape_def split: list.splits if_splits option.splits)

text \<open>The rest of a string literal, after its opening quote.\<close>

function pstr :: "jsstr \<Rightarrow> (jsstr \<times> jsstr) res" where
  "pstr [] = Inl SyntaxError"
| "pstr (c # cs) =
     (if c = 0x22 then Inr ([], cs)
      else if c = 0x5C then bindR (pescape cs) (\<lambda>ur. push_unit (fst ur) (pstr (snd ur)))
      else if c < 0x20 then Inl SyntaxError
      else push_unit c (pstr cs))"
  by pat_completeness auto
termination
  by (relation "measure length") (auto dest: pescape_length)

text \<open>The optional fraction and exponent of a number.\<close>

definition pfrac :: "jsstr \<Rightarrow> (jsstr \<times> jsstr) res" where
  "pfrac s = (case s of
       [] \<Rightarrow> Inr ([], s)
     | c # r \<Rightarrow>
         if c = 0x2E then
           (let fp = takeWhile is_digit r
            in if fp = [] then Inl SyntaxError else Inr (fp, dropWhile is_digit r))
         else Inr ([], s))"

definition pexp :: "jsstr \<Rightarrow> (int \<times> jsstr) res" where
  "pexp s = (case s of
       [] \<Rightarrow> Inr (0, s)
     | c # r \<Rightarrow>
         if c = 0x65 \<or> c = 0x45 then
           (let neg = (r \<noteq> [] \<and> hd r = 0x2D);
                r' = (if r \<noteq> [] \<and> (hd r = 0x2D \<or> hd r = 0x2B) then tl r else r);
                ds = takeWhile is_digit r'
            in if ds = [] then Inl SyntaxError
               else Inr (if neg then - int (digits_val ds) else int (digits_val ds),
                         dropWhile is_digit r'))
         else Inr (0, s))"

text \<open>The integer part: a single zero, or digits.\<close>

definition pint :: "jsstr \<Rightarrow> jsstr \<times> jsstr" where
  "pint t =
     (if t \<noteq> [] \<and> hd t = 48 then ([48], tl t) else (takeWhile is_digit t, dropWhile is_digit t))"

definition pnum :: "jsstr \<Rightarrow> (jsval \<times> jsstr) res" where
  "pnum s =
     (let neg = (s \<noteq> [] \<and> hd s = 0x2D);
          (ip, r) = pint (if neg then tl s else s)
      in if ip = [] then Inl SyntaxError
         else bindR (pfrac r) (\<lambda>(fp, r1). bindR (pexp r1) (\<lambda>(e, r2).
           let m = int (digits_val (ip @ fp))
           in Inr (JNum (dec_num (if neg then - m else m) (e - int (length fp))), r2))))"

definition pword :: "jsstr \<Rightarrow> (jsval \<times> jsstr) res" where
  "pword s =
     (if startsWith s (js ''true'') then Inr (JBool True, drop 4 s)
      else if startsWith s (js ''false'') then Inr (JBool False, drop 5 s)
      else if startsWith s (js ''null'') then Inr (JNull, drop 4 s)
      else Inl SyntaxError)"


section \<open>Values\<close>

text \<open>A repeated key keeps its first position and takes its last value.\<close>

definition mk_obj :: "(jsstr \<times> jsval) list \<Rightarrow> jsval" where
  "mk_obj kvs = JObj (foldl (\<lambda>acc kv. AList.update (fst kv) (snd kv) acc) [] kvs)"

fun pval :: "nat \<Rightarrow> jsstr \<Rightarrow> (jsval \<times> jsstr) res"
  and parr :: "nat \<Rightarrow> jsstr \<Rightarrow> (jsval list \<times> jsstr) res"
  and pmembers :: "nat \<Rightarrow> jsstr \<Rightarrow> ((jsstr \<times> jsval) list \<times> jsstr) res"
where
  "pval 0 s = Inl OutOfFuel"
| "pval (Suc f) s =
     (case skip_ws s of
        [] \<Rightarrow> Inl SyntaxError
      | c # cs \<Rightarrow>
          if c = 0x7B then
            (case skip_ws cs of
               [] \<Rightarrow> Inl SyntaxError
             | d # ds \<Rightarrow>
                 if d = 0x7D then Inr (JObj [], ds)
                 else bindR (pmembers f (d # ds)) (\<lambda>(kvs, r). Inr (mk_obj kvs, r)))
          else if c = 0x5B then
            (case skip_ws cs of
               [] \<Rightarrow> Inl SyntaxError
             | d # ds \<Rightarrow>
                 if d = 0x5D then Inr (JArr [], ds)
                 else bindR (parr f (d # ds)) (\<lambda>(vs, r). Inr (JArr vs, r)))
          else if c = 0x22 then bindR (pstr cs) (\<lambda>(t, r). Inr (JStr t, r))
          else if c = 0x2D \<or> is_digit c then pnum (c # cs)
          else pword (c # cs))"
| "parr 0 s = Inl OutOfFuel"
| "parr (Suc f) s =
     bindR (pval f s) (\<lambda>(v, r).
       case skip_ws r of
         [] \<Rightarrow> Inl SyntaxError
       | c # cs \<Rightarrow>
           if c = 0x5D then Inr ([v], cs)
           else if c = 0x2C then bindR (parr f cs) (\<lambda>(vs, r'). Inr (v # vs, r'))
           else Inl SyntaxError)"
| "pmembers 0 s = Inl OutOfFuel"
| "pmembers (Suc f) s =
     (case skip_ws s of
        [] \<Rightarrow> Inl SyntaxError
      | q # qs \<Rightarrow>
          if q \<noteq> 0x22 then Inl SyntaxError
          else bindR (pstr qs) (\<lambda>(k, r).
            case skip_ws r of
              [] \<Rightarrow> Inl SyntaxError
            | c # cs \<Rightarrow>
                if c \<noteq> 0x3A then Inl SyntaxError
                else bindR (pval f cs) (\<lambda>(v, r1).
                  case skip_ws r1 of
                    [] \<Rightarrow> Inl SyntaxError
                  | e # es \<Rightarrow>
                      if e = 0x7D then Inr ([(k, v)], es)
                      else if e = 0x2C then
                        bindR (pmembers f es) (\<lambda>(kvs, r'). Inr ((k, v) # kvs, r'))
                      else Inl SyntaxError)))"

definition json_parse :: "jsstr \<Rightarrow> jsval res" where
  "json_parse s =
     bindR (pval (2 * length s + 2) s)
       (\<lambda>(v, r). if skip_ws r = [] then Inr v else Inl SyntaxError)"


section \<open>The fuel is enough\<close>

lemma skip_ws_length: "length (skip_ws s) \<le> length s"
  by (simp add: skip_ws_def length_dropWhile_le)

lemma skip_ws_Cons_length: "skip_ws s = c # cs \<Longrightarrow> length cs < length s"
  using skip_ws_length [of s] by simp

lemma pescape_no_fuel: "pescape s \<noteq> Inl OutOfFuel"
  by (auto simp: pescape_def split: list.splits option.splits)

lemma pstr_length: "pstr s = Inr (t, r) \<Longrightarrow> length r < length s"
proof (induction s arbitrary: t rule: pstr.induct)
  case (2 c cs)
  then show ?case
    by (fastforce simp: push_unit_def bindR_eq_Inr dest: pescape_length split: if_splits)
qed simp

lemma pstr_no_fuel: "pstr s \<noteq> Inl OutOfFuel"
proof (induction s rule: pstr.induct)
  case (2 c cs)
  then show ?case by (auto simp: push_unit_def bindR_eq_Inl pescape_no_fuel)
qed simp

lemma dropWhile_shorter: "takeWhile P x \<noteq> [] \<Longrightarrow> length (dropWhile P x) < length x"
  by (metis add_less_cancel_right add_0 length_append length_greater_0_conv takeWhile_dropWhile_id)

lemma pint_length: "pint t = (ip, r) \<Longrightarrow> ip \<noteq> [] \<Longrightarrow> length r < length t"
  by (auto simp: pint_def intro: dropWhile_shorter split: if_splits)

lemma pfrac_length: "pfrac x = Inr (fp, y) \<Longrightarrow> length y \<le> length x"
  using length_dropWhile_le [of is_digit "tl x"]
  by (cases x) (auto simp: pfrac_def Let_def split: if_splits)

lemma pexp_length: "pexp x = Inr (e, y) \<Longrightarrow> length y \<le> length x"
  using length_dropWhile_le [of is_digit "tl x"] length_dropWhile_le [of is_digit "tl (tl x)"]
  by (cases x) (auto simp: pexp_def Let_def split: if_splits)

lemma pnum_length:
  assumes "pnum s = Inr (v, r)"
  shows "length r < length s"
proof -
  let ?t = "if s \<noteq> [] \<and> hd s = 0x2D then tl s else s"
  obtain ip r0 where i: "pint ?t = (ip, r0)" by fastforce
  from assms i obtain fp r1 e where "ip \<noteq> []" and f: "pfrac r0 = Inr (fp, r1)"
    and e: "pexp r1 = Inr (e, r)"
    by (auto simp: pnum_def Let_def bindR_eq_Inr split: if_splits)
  have "length r \<le> length r1" using e by (rule pexp_length)
  also have "length r1 \<le> length r0" using f by (rule pfrac_length)
  also have "length r0 < length ?t" using i \<open>ip \<noteq> []\<close> by (rule pint_length)
  finally show ?thesis by (auto split: if_splits)
qed

lemma pnum_no_fuel: "pnum s \<noteq> Inl OutOfFuel"
proof -
  have "pfrac x \<noteq> Inl OutOfFuel" for x
    by (auto simp: pfrac_def Let_def split: list.splits)
  moreover have "pexp x \<noteq> Inl OutOfFuel" for x
    by (auto simp: pexp_def Let_def split: list.splits)
  ultimately show ?thesis
    by (auto simp: pnum_def Let_def bindR_eq_Inl split: prod.splits)
qed

lemma pword_length: "pword s = Inr (v, r) \<Longrightarrow> length r < length s"
proof -
  assume p: "pword s = Inr (v, r)"
  have "startsWith s w \<Longrightarrow> length w \<le> length s" for w
    by (simp add: startsWith_iff prefix_length_le)
  from this [of "js ''true''"] this [of "js ''false''"] this [of "js ''null''"] p
  show ?thesis by (auto simp: pword_def split: if_splits)
qed

lemma pword_no_fuel: "pword s \<noteq> Inl OutOfFuel"
  by (simp add: pword_def)

definition shrinks :: "(jsstr \<Rightarrow> ('a \<times> jsstr) res) \<Rightarrow> bool" where
  "shrinks p \<longleftrightarrow> (\<forall>s v r. p s = Inr (v, r) \<longrightarrow> length r < length s)"

lemma shrinksD: "shrinks p \<Longrightarrow> p s = Inr (v, r) \<Longrightarrow> length r < length s"
  by (auto simp: shrinks_def)

lemma pval_Suc_shrinks:
  assumes arr: "shrinks (parr f)" and mem: "shrinks (pmembers f)"
  shows "shrinks (pval (Suc f))"
  unfolding shrinks_def
proof (intro allI impI)
  fix s v r
  assume p: "pval (Suc f) s = Inr (v, r)"
  then obtain c cs where sk: "skip_ws s = c # cs" by (auto split: list.splits)
  note l = skip_ws_Cons_length [OF sk]
  have inner: "length (d # ds) \<le> length cs" if "skip_ws cs = d # ds" for d ds
    using skip_ws_length [of cs] that by simp
  consider "c = 0x7B" | "c = 0x5B" | "c = 0x22" | "c \<noteq> 0x7B" "c \<noteq> 0x5B" "c \<noteq> 0x22" by blast
  then show "length r < length s"
  proof cases
    case 1
    with p sk l inner show ?thesis
      by (fastforce simp: bindR_eq_Inr split: list.splits if_splits dest: shrinksD [OF mem])
  next
    case 2
    with p sk l inner show ?thesis
      by (fastforce simp: bindR_eq_Inr split: list.splits if_splits dest: shrinksD [OF arr])
  next
    case 3
    with p sk l show ?thesis by (auto simp: bindR_eq_Inr dest: pstr_length)
  next
    case 4
    with p sk have "length r < length (c # cs)"
      by (auto simp: dest!: pnum_length pword_length split: if_splits)
    then show ?thesis using sk skip_ws_length [of s] by simp
  qed
qed

lemma parr_Suc_shrinks:
  assumes val: "shrinks (pval f)" and arr: "shrinks (parr f)"
  shows "shrinks (parr (Suc f))"
  unfolding shrinks_def
proof (intro allI impI)
  fix s vs r
  assume p: "parr (Suc f) s = Inr (vs, r)"
  then obtain v r0 where v: "pval f s = Inr (v, r0)" by (auto simp: bindR_eq_Inr)
  with p obtain c cs where sk: "skip_ws r0 = c # cs" by (cases "skip_ws r0") simp_all
  have "length cs < length s"
    using skip_ws_Cons_length [OF sk] shrinksD [OF val v] by simp
  with p v sk show "length r < length s"
    by (fastforce simp: bindR_eq_Inr split: if_splits dest: shrinksD [OF arr])
qed

lemma pmembers_Suc_shrinks:
  assumes val: "shrinks (pval f)" and mem: "shrinks (pmembers f)"
  shows "shrinks (pmembers (Suc f))"
  unfolding shrinks_def
proof (intro allI impI)
  fix s kvs r
  assume p: "pmembers (Suc f) s = Inr (kvs, r)"
  then obtain q qs where s1: "skip_ws s = q # qs" and q: "q = 0x22"
    by (auto split: list.splits if_splits)
  with p obtain k r0 where k: "pstr qs = Inr (k, r0)" by (auto simp: bindR_eq_Inr)
  with p s1 q obtain c cs where s2: "skip_ws r0 = c # cs" and c: "c = 0x3A"
    by (auto split: list.splits if_splits)
  with p s1 q k obtain v r1 where v: "pval f cs = Inr (v, r1)" by (auto simp: bindR_eq_Inr)
  with p s1 q k s2 c obtain e es where s3: "skip_ws r1 = e # es"
    by (auto split: list.splits if_splits)
  have "length es < length s"
    using skip_ws_Cons_length [OF s1] pstr_length [OF k] skip_ws_Cons_length [OF s2]
      shrinksD [OF val v] skip_ws_Cons_length [OF s3] by linarith
  with p s1 q k s2 c v s3 show "length r < length s"
    by (fastforce simp: bindR_eq_Inr split: if_splits dest: shrinksD [OF mem])
qed

lemma parse_shrinks: "shrinks (pval f) \<and> shrinks (parr f) \<and> shrinks (pmembers f)"
proof (induction f)
  case 0
  then show ?case by (simp add: shrinks_def)
next
  case (Suc f)
  then show ?case
    by (simp only: pval_Suc_shrinks parr_Suc_shrinks pmembers_Suc_shrinks)
qed

lemmas pval_length = parse_shrinks [THEN conjunct1, THEN shrinksD]

text \<open>With twice as much fuel as there are code units, the bound is never met.\<close>

definition fuelled :: "nat \<Rightarrow> bool" where
  "fuelled f \<longleftrightarrow>
     (\<forall>s. 2 * length s + 1 \<le> f \<longrightarrow> pval f s \<noteq> Inl OutOfFuel) \<and>
     (\<forall>s. 2 * length s + 2 \<le> f \<longrightarrow> parr f s \<noteq> Inl OutOfFuel) \<and>
     (\<forall>s. 2 * length s + 1 \<le> f \<longrightarrow> pmembers f s \<noteq> Inl OutOfFuel)"

lemma pval_Suc_fuel:
  assumes "fuelled f" and "2 * length s + 1 \<le> Suc f"
  shows "pval (Suc f) s \<noteq> Inl OutOfFuel"
proof (cases "skip_ws s")
  case (Cons c cs)
  have lc: "length cs < length s" by (rule skip_ws_Cons_length [OF Cons])
  have d: "2 * length (d # ds) + 2 \<le> f" if "skip_ws cs = d # ds" for d ds
    using that skip_ws_length [of cs] lc assms(2) by simp
  have "parr f (d # ds) \<noteq> Inl OutOfFuel" "pmembers f (d # ds) \<noteq> Inl OutOfFuel"
    if "skip_ws cs = d # ds" for d ds
    using assms(1) d [OF that] by (simp_all add: fuelled_def)
  then show ?thesis
    by (auto simp: Cons bindR_eq_Inl pstr_no_fuel pnum_no_fuel pword_no_fuel split: list.splits)
qed simp

lemma parr_Suc_fuel:
  assumes "fuelled f" and "2 * length s + 2 \<le> Suc f"
  shows "parr (Suc f) s \<noteq> Inl OutOfFuel"
proof -
  have "parr f cs \<noteq> Inl OutOfFuel" if "pval f s = Inr (v, r)" "skip_ws r = c # cs" for v r c cs
  proof -
    have "length cs < length s" using that skip_ws_Cons_length pval_length by fastforce
    with assms show ?thesis by (simp add: fuelled_def)
  qed
  moreover have "pval f s \<noteq> Inl OutOfFuel" using assms by (simp add: fuelled_def)
  ultimately show ?thesis
    by (auto simp: bindR_eq_Inl split: list.splits)
qed

lemma pmembers_Suc_fuel:
  assumes "fuelled f" and "2 * length s + 1 \<le> Suc f"
  shows "pmembers (Suc f) s \<noteq> Inl OutOfFuel"
proof (cases "skip_ws s")
  case (Cons q qs)
  have lq: "length qs < length s" by (rule skip_ws_Cons_length [OF Cons])
  have v: "pval f cs \<noteq> Inl OutOfFuel" and l: "length cs < length qs"
    if "pstr qs = Inr (k, r)" "skip_ws r = c # cs" for k r c cs
  proof -
    show "length cs < length qs" using that pstr_length skip_ws_Cons_length by fastforce
    with assms lq show "pval f cs \<noteq> Inl OutOfFuel" by (simp add: fuelled_def)
  qed
  have "pmembers f es \<noteq> Inl OutOfFuel"
    if "pstr qs = Inr (k, r)" "skip_ws r = c # cs" "pval f cs = Inr (w, r1)" "skip_ws r1 = e # es"
    for k r c cs w r1 e es
  proof -
    have "length es < length qs"
      using l [OF that(1,2)] pval_length [OF that(3)] skip_ws_Cons_length [OF that(4)] by simp
    with assms lq show ?thesis by (simp add: fuelled_def)
  qed
  with v show ?thesis
    by (auto simp: Cons bindR_eq_Inl pstr_no_fuel split: list.splits)
qed simp

lemma fuel_enough: "fuelled f"
proof (induction f)
  case 0
  then show ?case by (simp add: fuelled_def)
next
  case (Suc f)
  show ?case
    unfolding fuelled_def
    using pval_Suc_fuel [OF Suc] parr_Suc_fuel [OF Suc] pmembers_Suc_fuel [OF Suc] by blast
qed

lemma json_parse_fuel: "json_parse s \<noteq> Inl OutOfFuel"
proof -
  have "pval (2 * length s + 2) s \<noteq> Inl OutOfFuel"
    using fuel_enough [of "2 * length s + 2"] by (simp add: fuelled_def)
  then show ?thesis by (auto simp: json_parse_def bindR_eq_Inl)
qed


section \<open>Round trip: strings\<close>

lemma hex_val_hex_digit: "d < 16 \<Longrightarrow> hex_val (hex_digit d) = Some d"
proof -
  assume d: "d < 16"
  show ?thesis
  proof (cases "d < 10")
    case True
    then have "hex_digit d = digit d" by (simp add: hex_digit_def digit_def)
    with True show ?thesis by (simp add: hex_val_def radix_digit_def unat_digit)
  next
    case False
    then have u: "unat (hex_digit d) = 87 + d"
      using d by (simp add: hex_digit_def unat_of_nat del: of_nat_add)
    then have "\<not> is_digit (hex_digit d)" "0x61 \<le> hex_digit d" "hex_digit d \<le> 0x66"
      using False d by (simp_all add: is_digit_def word_le_nat_alt)
    with u d show ?thesis by (simp add: hex_val_def radix_digit_def)
  qed
qed

lemma nibbles:
  "((n div 4096 * 16 + n div 256 mod 16) * 16 + n div 16 mod 16) * 16 + n mod 16 = (n::nat)"
proof -
  have "n div 4096 = n div 256 div 16" and "n div 256 = n div 16 div 16"
    by (simp_all add: div_mult2_eq [symmetric])
  then show ?thesis by (simp only: div_mult_mod_eq)
qed

lemma pescape_unicode: "pescape (tl (unicode_escape c) @ t) = Inr (c, t)"
proof -
  let ?n = "unat c"
  have "?n < 2 ^ LENGTH(16)" by (rule unsigned_less)
  then have "?n div 4096 < 16" by simp
  then have "hex4 (hex_digit (?n div 4096)) (hex_digit (?n div 256 mod 16))
       (hex_digit (?n div 16 mod 16)) (hex_digit (?n mod 16)) = Some c"
    by (simp only: hex4_def hex_val_hex_digit mod_less_divisor zero_less_numeral
        prod.case option.case nibbles) simp
  then show ?thesis by (simp add: pescape_def unicode_escape_def Let_def)
qed

lemma pstr_raw: "c \<noteq> 0x22 \<Longrightarrow> c \<noteq> 0x5C \<Longrightarrow> \<not> c < 0x20 \<Longrightarrow> pstr (c # t) = push_unit c (pstr t)"
  by simp

lemma pstr_quote_unit: "pstr (quote_unit c @ t) = push_unit c (pstr t)"
proof (cases "c < 0x20 \<or> is_high c \<or> is_low c")
  case True
  have "pstr (unicode_escape c @ t) = push_unit c (pstr t)"
    using pescape_unicode [of c t] by (simp add: unicode_escape_def Let_def)
  with True show ?thesis by (auto simp: quote_unit_def pescape_def unescape_def)
next
  case False
  then show ?thesis by (auto simp: quote_unit_def pescape_def unescape_def)
qed

lemma surrogate_raw: "is_high c \<or> is_low c \<Longrightarrow> c \<noteq> 0x22 \<and> c \<noteq> 0x5C \<and> \<not> c < 0x20"
  by (auto simp: is_high_def is_low_def word_le_nat_alt word_less_nat_alt)

lemma pstr_quote_body: "pstr (quote_body s @ 0x22 # rest) = Inr (s, rest)"
proof (induction s rule: quote_body.induct)
  case 1
  then show ?case by simp
next
  case (2 c)
  then show ?case by (simp add: pstr_quote_unit push_unit_def)
next
  case (3 c d cs)
  show ?case
  proof (cases "is_high c \<and> is_low d")
    case True
    with 3 surrogate_raw [of c] surrogate_raw [of d] show ?thesis by (simp add: push_unit_def)
  next
    case False
    with 3 show ?thesis by (auto simp: pstr_quote_unit push_unit_def)
  qed
qed


section \<open>Round trip: numbers\<close>

text \<open>Numbers that are written without an exponent.\<close>

fun num_plain :: "jsnum \<Rightarrow> bool" where
  "num_plain (JInt i) \<longleftrightarrow> \<bar>i\<bar> < 10 ^ 21"
| "num_plain (JDec m k) \<longleftrightarrow> m mod 10 \<noteq> 0
     \<and> - 6 < int (length (dec_digits (nat \<bar>m\<bar>))) - int (Suc k)
     \<and> int (length (dec_digits (nat \<bar>m\<bar>))) - int (Suc k) \<le> 21"

text \<open>A text that does not go on with a number.\<close>

definition num_end :: "jsstr \<Rightarrow> bool" where
  "num_end s \<longleftrightarrow> (case s of [] \<Rightarrow> True
     | c # _ \<Rightarrow> \<not> is_digit c \<and> c \<noteq> 0x2E \<and> c \<noteq> 0x65 \<and> c \<noteq> 0x45)"

lemma num_end_simps [simp]: "num_end []" "num_end (0x2C # s)" "num_end (0x5D # s)" "num_end (0x7D # s)"
  by (simp_all add: num_end_def is_digit_def word_le_nat_alt)

lemma digits_split:
  assumes "\<And>c. c \<in> set ds \<Longrightarrow> is_digit c" and "num_end rest"
  shows "takeWhile is_digit (ds @ rest) = ds" and "dropWhile is_digit (ds @ rest) = rest"
  using assms(2) assms(1) by (induction ds) (auto simp: num_end_def split: list.splits)

lemma pfrac_end: "num_end s \<Longrightarrow> pfrac s = Inr ([], s)"
  by (auto simp: pfrac_def num_end_def split: list.splits)

lemma pexp_end: "num_end s \<Longrightarrow> pexp s = Inr (0, s)"
  by (auto simp: pexp_def num_end_def split: list.splits)

lemma num_end_dot: "takeWhile is_digit (0x2E # s) = []"
  by (simp add: is_digit_def word_le_nat_alt)

lemma digits_val_zero: "digits_val (48 # s) = digits_val s"
  by (simp add: digits_val_def digit_val_def)

lemma digits_val_zeros: "digits_val (replicate n 48 @ s) = digits_val s"
  by (induction n) (simp_all add: digits_val_zero)

text \<open>The core of \<open>pnum\<close>, once the sign is gone.\<close>

lemma pnum_core:
  assumes "pint t = (ip, r)" and "ip \<noteq> []" and "is_digit (hd t)" "t \<noteq> []"
    and "pfrac r = Inr (fp, r1)" and "num_end r1"
    and "digits_val (ip @ fp) = nat \<bar>m\<bar>"
  shows "pnum (if m < 0 then 45 # t else t) = Inr (JNum (dec_num m (- int (length fp))), r1)"
proof -
  have "hd t \<noteq> 45" using assms(3) by (rule digit_not_minus)
  then show ?thesis
    using assms by (auto simp: pnum_def pexp_end Let_def)
qed

lemma pnum_int:
  assumes "num_end rest" and "\<bar>i\<bar> < 10 ^ 21"
  shows "pnum (num_to_string (JInt i) @ rest) = Inr (JNum (JInt i), rest)"
proof -
  let ?ds = "dec_digits (nat \<bar>i\<bar>)"
  have pi: "pint (?ds @ rest) = (?ds, rest)"
  proof (cases "i = 0")
    case True
    then show ?thesis by (simp add: pint_def)
  next
    case False
    then have "hd ?ds \<noteq> 48" by (intro dec_digits_hd) simp
    then show ?thesis
      using digits_split [of ?ds rest] assms(1) dec_digits_all by (simp add: pint_def)
  qed
  have "pnum (if i < 0 then 45 # ?ds @ rest else ?ds @ rest)
      = Inr (JNum (dec_num i (- int (length ([] :: jsstr)))), rest)"
    by (rule pnum_core [OF pi]) (simp_all add: assms(1) pfrac_end dec_digits_all)
  moreover have "num_to_string (JInt i) @ rest = (if i < 0 then 45 # ?ds @ rest else ?ds @ rest)"
    using assms(2) by (cases "i < 0") (simp_all add: num_to_string_def Let_def)
  ultimately show ?thesis by (simp add: dec_num_def)
qed

lemma pnum_dec:
  assumes "num_end rest" and "num_plain (JDec m k)"
  shows "pnum (num_to_string (JDec m k) @ rest) = Inr (JNum (JDec m k), rest)"
proof -
  let ?ds = "dec_digits (nat \<bar>m\<bar>)"
  define n where "n = int (length ?ds) - int (Suc k)"
  from assms(2) have wf: "m mod 10 \<noteq> 0" and n: "- 6 < n" "n \<le> 21" by (simp_all add: n_def)
  then have m: "m \<noteq> 0" by auto
  have res: "dec_num m (- int (Suc k)) = JDec m k"
    using norm_dec_wf [OF wf] by (simp add: dec_num_def nat_add_distrib)
  define ip fp where "ip = (if 0 < n then take (nat n) ?ds else [48])"
    and "fp = (if 0 < n then drop (nat n) ?ds else replicate (nat (- n)) 48 @ ?ds)"
  let ?t = "ip @ 0x2E # fp @ rest"
  have digs: "\<And>c. c \<in> set ip \<union> set fp \<Longrightarrow> is_digit c"
    using dec_digits_all [of _ "nat \<bar>m\<bar>"] is_digit_digit [of 0]
    by (auto simp: ip_def fp_def digit_def split: if_splits dest: in_set_takeD in_set_dropD)
  have ip: "ip \<noteq> []" by (simp add: ip_def)
  have lfp: "length fp = Suc k" and fp: "fp \<noteq> []"
    using n_def unfolding fp_def by (cases "0 < n"; simp; arith)+
  have pi: "pint ?t = (ip, 0x2E # fp @ rest)"
  proof (cases "0 < n")
    case True
    then have "hd ip = hd ?ds" by (simp add: ip_def hd_take)
    then have "hd ip \<noteq> 48" using m dec_digits_hd [of "nat \<bar>m\<bar>"] by simp
    with ip digs show ?thesis
      by (simp add: pint_def takeWhile_append2 dropWhile_append2 num_end_dot)
         (simp add: is_digit_def word_le_nat_alt)
  next
    case False
    then show ?thesis by (simp add: pint_def ip_def)
  qed
  have pf: "pfrac (0x2E # fp @ rest) = Inr (fp, rest)"
    using digits_split [OF _ assms(1), of fp] digs fp by (simp add: pfrac_def)
  have val: "digits_val (ip @ fp) = nat \<bar>m\<bar>"
    by (simp add: ip_def fp_def digits_val_zero digits_val_zeros)
  have "pnum (if m < 0 then 45 # ?t else ?t) = Inr (JNum (dec_num m (- int (length fp))), rest)"
    by (rule pnum_core [OF pi ip _ _ pf assms(1) val]) (use ip digs in \<open>auto simp: hd_append\<close>)
  moreover have "num_to_string (JDec m k) @ rest = (if m < 0 then 45 # ?t else ?t)"
  proof -
    have "num_abs_string (JDec m k) @ rest = ?t"
      using n unfolding num_abs_string.simps Let_def n_def [symmetric] ip_def fp_def
      by (cases "0 < n") (simp_all add: js_eval)
    then show ?thesis by (simp only: num_to_string_def num_is_neg.simps append_Cons split: if_split) simp
  qed
  ultimately show ?thesis using res lfp by simp
qed

lemma pnum_round:
  "num_end rest \<Longrightarrow> num_plain n \<Longrightarrow> pnum (num_to_string n @ rest) = Inr (JNum n, rest)"
  by (cases n) (metis num_plain.simps(1) pnum_int, metis pnum_dec)


section \<open>Round trip: values\<close>

text \<open>Values that JSON can carry unchanged.\<close>

fun json_ok :: "jsval \<Rightarrow> bool" where
  "json_ok JUndef \<longleftrightarrow> False"
| "json_ok (JNum n) \<longleftrightarrow> num_plain n"
| "json_ok (JArr vs) \<longleftrightarrow> (\<forall>v\<in>set vs. json_ok v)"
| "json_ok (JObj kvs) \<longleftrightarrow> distinct (map fst kvs) \<and> (\<forall>kv\<in>set kvs. json_ok (snd kv))"
| "json_ok _ \<longleftrightarrow> True"

lemma update_fresh: "k \<notin> fst ` set al \<Longrightarrow> AList.update k v al = al @ [(k, v)]"
  by (induction al) auto

lemma foldl_update_distinct:
  "distinct (map fst (acc @ kvs)) \<Longrightarrow>
   foldl (\<lambda>acc kv. AList.update (fst kv) (snd kv) acc) acc kvs = acc @ kvs"
proof (induction kvs arbitrary: acc)
  case (Cons kv kvs)
  from Cons.prems have "fst kv \<notin> fst ` set acc" by auto
  then have "AList.update (fst kv) (snd kv) acc = acc @ [kv]" by (simp add: update_fresh)
  with Cons show ?case by simp
qed simp

lemma mk_obj_distinct: "distinct (map fst kvs) \<Longrightarrow> mk_obj kvs = JObj kvs"
  using foldl_update_distinct [of "[]" kvs] by (simp add: mk_obj_def)

lemma num_to_string_hd:
  "num_plain n \<Longrightarrow> num_to_string n \<noteq> [] \<and>
     (hd (num_to_string n) = 0x2D \<or> is_digit (hd (num_to_string n)))"
proof (cases n)
  case (JInt i)
  assume "num_plain n"
  with JInt show ?thesis by (simp add: num_to_string_int) (simp add: show_int_def)
next
  case (JDec m k)
  let ?ds = "dec_digits (nat \<bar>m\<bar>)"
  assume "num_plain n"
  with JDec have "num_abs_string n \<noteq> [] \<and> is_digit (hd (num_abs_string n))"
    using is_digit_digit [of 0]
    by (auto simp: Let_def hd_append hd_take js_eval digit_def)
  then show ?thesis by (simp add: num_to_string_def)
qed

text \<open>The first code unit of a serialized value tells the parser what follows.\<close>

definition value_start :: "16 word \<Rightarrow> bool" where
  "value_start c \<longleftrightarrow> \<not> is_json_ws c \<and> c \<noteq> 0x5D \<and> c \<noteq> 0x7D"

lemma digit_value_start: "is_digit c \<Longrightarrow>
    value_start c \<and> c \<noteq> 0x7B \<and> c \<noteq> 0x5B \<and> c \<noteq> 0x22"
  by (auto simp: is_digit_def value_start_def is_json_ws_def word_le_nat_alt)

text \<open>
  The text of a value, over the way strings are quoted. Browsers and the server quote differently; the
  proof that a text is read back asks of the quoting only that it opens with a quotation
  mark and is read back itself.
\<close>

fun write_with :: "(jsstr \<Rightarrow> jsstr) \<Rightarrow> jsval \<Rightarrow> jsstr" where
  "write_with q JUndef = js ''null''"
| "write_with q JNull = js ''null''"
| "write_with q (JBool b) = (if b then js ''true'' else js ''false'')"
| "write_with q (JNum n) = num_to_string n"
| "write_with q (JStr s) = q s"
| "write_with q (JArr vs) = 0x5B # join [0x2C] (map (write_with q) vs) @ [0x5D]"
| "write_with q (JObj kvs) =
     0x7B # join [0x2C] (map (\<lambda>kv. q (fst kv) @ 0x3A # write_with q (snd kv))
                           (filter (\<lambda>kv. snd kv \<noteq> JUndef) kvs)) @ [0x7D]"

lemma stringify_write: "stringify v = write_with quote v"
proof (induction v rule: stringify.induct)
  case (6 vs)
  then have "map stringify vs = map (write_with quote) vs" by simp
  then show ?case by (simp only: stringify.simps write_with.simps)
next
  case (7 kvs)
  then have "map (\<lambda>kv. quote (fst kv) @ 0x3A # stringify (snd kv)) (filter (\<lambda>kv. snd kv \<noteq> JUndef) kvs)
      = map (\<lambda>kv. quote (fst kv) @ 0x3A # write_with quote (snd kv)) (filter (\<lambda>kv. snd kv \<noteq> JUndef) kvs)"
    by simp
  then show ?case by (simp only: stringify.simps write_with.simps)
qed simp_all

lemma write_clean: "write_with q (clean v) = write_with q v"
proof (induction v rule: clean.induct)
  case (2 vs)
  then have "map (write_with q \<circ> clean) vs = map (write_with q) vs" by simp
  then show ?case by (simp only: clean.simps write_with.simps map_map)
next
  case (3 kvs)
  let ?f = "filter (\<lambda>kv. snd kv \<noteq> JUndef) kvs"
  have "map (\<lambda>kv. q (fst kv) @ 0x3A # write_with q (snd kv))
          (filter (\<lambda>kv. snd kv \<noteq> JUndef) (map (\<lambda>kv. (fst kv, clean (snd kv))) ?f))
      = map (\<lambda>kv. q (fst kv) @ 0x3A # write_with q (snd kv)) ?f"
    using 3 by (auto simp: filter_map o_def)
  then show ?case by (simp only: clean.simps write_with.simps)
qed simp_all

abbreviation json_member :: "(jsstr \<Rightarrow> jsstr) \<Rightarrow> jsstr \<times> jsval \<Rightarrow> jsstr" where
  "json_member q kv \<equiv> q (fst kv) @ 0x3A # write_with q (snd kv)"

lemma skip_ws_stop [simp]:
  "skip_ws (0x2C # s) = 0x2C # s" "skip_ws (0x5D # s) = 0x5D # s" "skip_ws (0x7D # s) = 0x7D # s"
  "skip_ws (0x3A # s) = 0x3A # s" "skip_ws (0x22 # s) = 0x22 # s" "skip_ws [] = []"
  by (simp_all add: skip_ws_def is_json_ws_def)

lemma pword_literal:
  "pword (js ''true'' @ s) = Inr (JBool True, s)"
  "pword (js ''false'' @ s) = Inr (JBool False, s)"
  "pword (js ''null'' @ s) = Inr (JNull, s)"
  by (simp_all add: pword_def startsWith_def js_eval)

text \<open>The three statements that are proved together by induction on the fuel.\<close>

definition reads_val :: "(jsstr \<Rightarrow> jsstr) \<Rightarrow> nat \<Rightarrow> bool" where
  "reads_val q f \<longleftrightarrow> (\<forall>v rest. json_ok v \<longrightarrow> num_end rest \<longrightarrow> 2 * length (write_with q v) \<le> f \<longrightarrow>
     pval f (write_with q v @ rest) = Inr (v, rest))"

definition reads_arr :: "(jsstr \<Rightarrow> jsstr) \<Rightarrow> nat \<Rightarrow> bool" where
  "reads_arr q f \<longleftrightarrow> (\<forall>vs rest. vs \<noteq> [] \<longrightarrow> (\<forall>v\<in>set vs. json_ok v) \<longrightarrow>
     2 * length (join [0x2C] (map (write_with q) vs)) + 1 \<le> f \<longrightarrow>
     parr f (join [0x2C] (map (write_with q) vs) @ 0x5D # rest) = Inr (vs, rest))"

definition reads_obj :: "(jsstr \<Rightarrow> jsstr) \<Rightarrow> nat \<Rightarrow> bool" where
  "reads_obj q f \<longleftrightarrow> (\<forall>kvs rest. kvs \<noteq> [] \<longrightarrow> (\<forall>kv\<in>set kvs. json_ok (snd kv)) \<longrightarrow>
     2 * length (join [0x2C] (map (json_member q) kvs)) + 1 \<le> f \<longrightarrow>
     pmembers f (join [0x2C] (map (json_member q) kvs) @ 0x7D # rest) = Inr (kvs, rest))"

locale json_writer =
  fixes q :: "jsstr \<Rightarrow> jsstr"
  assumes opens: "\<exists>b. q s = 0x22 # b"
    and reads_back: "pstr (tl (q s) @ rest) = Inr (s, rest)"
begin

lemma q_append: "q s @ t = 0x22 # tl (q s) @ t"
  using opens [of s] by auto

lemma write_start:
  assumes "json_ok v"
  shows "\<exists>c cs. write_with q v = c # cs \<and> value_start c"
proof (cases v)
  case (JNum n)
  with assms num_to_string_hd [of n] show ?thesis
    by (cases "num_to_string n") (auto dest: digit_value_start simp: value_start_def is_json_ws_def)
next
  case (JStr s)
  with opens [of s] show ?thesis by (auto simp: value_start_def is_json_ws_def)
qed (use assms in \<open>auto simp: js_eval value_start_def is_json_ws_def\<close>)

lemma skip_ws_write: "json_ok v \<Longrightarrow> skip_ws (write_with q v @ rest) = write_with q v @ rest"
  using write_start [of v] by (auto simp: skip_ws_def value_start_def)

lemma write_length: "json_ok v \<Longrightarrow> 0 < length (write_with q v)"
  using write_start [of v] by auto

lemma reads_arr_Suc:
  assumes val: "reads_val q f" and arr: "reads_arr q f"
  shows "reads_arr q (Suc f)"
  unfolding reads_arr_def
proof (intro allI impI)
  fix vs :: "jsval list" and rest
  assume ne: "vs \<noteq> []" and ok: "\<forall>v\<in>set vs. json_ok v"
    and len: "2 * length (join [0x2C] (map (write_with q) vs)) + 1 \<le> Suc f"
  then obtain v ws where vs: "vs = v # ws" by (cases vs) auto
  let ?tail = "(if ws = [] then [] else 0x2C # join [0x2C] (map (write_with q) ws)) @ 0x5D # rest"
  have layout: "join [0x2C] (map (write_with q) vs) @ 0x5D # rest = write_with q v @ ?tail"
    by (cases ws) (simp_all add: vs)
  have l: "length (join [0x2C] (map (write_with q) vs)) =
      length (write_with q v) + (if ws = [] then 0 else 1 + length (join [0x2C] (map (write_with q) ws)))"
    by (cases ws) (simp_all add: vs)
  have p: "pval f (write_with q v @ ?tail) = Inr (v, ?tail)"
    using val ok len l unfolding reads_val_def vs by simp
  show "parr (Suc f) (join [0x2C] (map (write_with q) vs) @ 0x5D # rest) = Inr (vs, rest)"
  proof (cases "ws = []")
    case True
    with p layout show ?thesis by (simp add: vs)
  next
    case False
    have "parr f (join [0x2C] (map (write_with q) ws) @ 0x5D # rest) = Inr (ws, rest)"
      using arr ok len l False write_length [of v] unfolding reads_arr_def vs by simp
    with p layout False show ?thesis by (simp add: vs)
  qed
qed

lemma reads_obj_Suc:
  assumes val: "reads_val q f" and obj: "reads_obj q f"
  shows "reads_obj q (Suc f)"
  unfolding reads_obj_def
proof (intro allI impI)
  fix kvs :: "(jsstr \<times> jsval) list" and rest
  assume ne: "kvs \<noteq> []" and ok: "\<forall>kv\<in>set kvs. json_ok (snd kv)"
    and len: "2 * length (join [0x2C] (map (json_member q) kvs)) + 1 \<le> Suc f"
  then obtain k v ws where kvs: "kvs = (k, v) # ws" by (cases kvs) auto
  let ?tail = "(if ws = [] then [] else 0x2C # join [0x2C] (map (json_member q) ws)) @ 0x7D # rest"
  have layout: "join [0x2C] (map (json_member q) kvs) @ 0x7D # rest
      = 0x22 # tl (q k) @ 0x3A # write_with q v @ ?tail"
    by (cases ws) (simp_all add: kvs q_append)
  have l: "length (join [0x2C] (map (json_member q) kvs)) = length (q k) + 1 +
      length (write_with q v) + (if ws = [] then 0 else 1 + length (join [0x2C] (map (json_member q) ws)))"
    by (cases ws) (simp_all add: kvs)
  have p: "pval f (write_with q v @ ?tail) = Inr (v, ?tail)"
    using val ok len l unfolding reads_val_def kvs by simp
  show "pmembers (Suc f) (join [0x2C] (map (json_member q) kvs) @ 0x7D # rest) = Inr (kvs, rest)"
  proof (cases "ws = []")
    case True
    with p show ?thesis unfolding layout by (simp add: kvs reads_back)
  next
    case False
    have "pmembers f (join [0x2C] (map (json_member q) ws) @ 0x7D # rest) = Inr (ws, rest)"
      using obj ok len l False unfolding reads_obj_def kvs by simp
    with p False show ?thesis unfolding layout by (simp add: kvs reads_back)
  qed
qed

lemma reads_val_Suc:
  assumes arr: "reads_arr q f" and obj: "reads_obj q f"
  shows "reads_val q (Suc f)"
  unfolding reads_val_def
proof (intro allI impI)
  fix v rest
  assume ok: "json_ok v" and "end": "num_end rest" and len: "2 * length (write_with q v) \<le> Suc f"
  note skip = skip_ws_write [OF ok, of rest]
  show "pval (Suc f) (write_with q v @ rest) = Inr (v, rest)"
  proof (cases v)
    case JUndef
    with ok show ?thesis by simp
  next
    case JNull
    with skip pword_literal(3) [of rest] show ?thesis by (simp add: js_eval is_digit_def word_le_nat_alt)
  next
    case (JBool b)
    with skip pword_literal(1,2) [of rest] show ?thesis
      by (cases b) (simp_all add: js_eval is_digit_def word_le_nat_alt)
  next
    case (JNum n)
    with ok have plain: "num_plain n" by simp
    obtain c cs where s: "num_to_string n = c # cs" and c: "c = 0x2D \<or> is_digit c"
      using num_to_string_hd [OF plain] by (cases "num_to_string n") auto
    have "pnum (c # cs @ rest) = Inr (JNum n, rest)"
      using pnum_round [OF "end" plain] by (simp add: s)
    then show ?thesis
      using skip c by (auto simp: JNum s dest: digit_value_start)
  next
    case (JStr s)
    with skip show ?thesis by (simp add: q_append reads_back)
  next
    case (JArr vs)
    show ?thesis
    proof (cases "vs = []")
      case True
      with skip JArr show ?thesis by simp
    next
      case False
      have "parr f (join [0x2C] (map (write_with q) vs) @ 0x5D # rest) = Inr (vs, rest)"
        using arr ok len False unfolding JArr reads_arr_def by simp
      moreover obtain c cs where "join [0x2C] (map (write_with q) vs) = c # cs" and "value_start c"
        using False ok write_start [of "hd vs"] unfolding JArr
        by (cases vs; cases "tl vs") auto
      ultimately show ?thesis
        using skip JArr by (auto simp: skip_ws_def value_start_def)
    qed
  next
    case (JObj kvs)
    from ok JObj have defd: "filter (\<lambda>kv. snd kv \<noteq> JUndef) kvs = kvs"
      by (intro filter_True) auto
    show ?thesis
    proof (cases "kvs = []")
      case True
      with skip JObj show ?thesis by simp
    next
      case False
      have "pmembers f (join [0x2C] (map (json_member q) kvs) @ 0x7D # rest) = Inr (kvs, rest)"
        using obj ok len False unfolding JObj reads_obj_def by (simp add: defd)
      moreover obtain cs where "join [0x2C] (map (json_member q) kvs) = 0x22 # cs"
        using False by (cases kvs; cases "tl kvs") (auto simp: q_append)
      ultimately show ?thesis
        using skip JObj ok by (simp add: defd mk_obj_distinct)
    qed
  qed
qed

lemma reads_all: "reads_val q f \<and> reads_arr q f \<and> reads_obj q f"
proof (induction f)
  case 0
  have "reads_val q 0"
    using write_length by (auto simp: reads_val_def)
  then show ?case by (simp add: reads_arr_def reads_obj_def)
next
  case (Suc f)
  then show ?case by (simp only: reads_val_Suc reads_arr_Suc reads_obj_Suc)
qed

lemma written_read: "json_ok v \<Longrightarrow> json_parse (write_with q v) = Inr v"
proof -
  assume ok: "json_ok v"
  have "pval (2 * length (write_with q v) + 2) (write_with q v @ []) = Inr (v, [])"
    using reads_all [THEN conjunct1] ok unfolding reads_val_def
    by (metis le_add1 num_end_simps(1))
  then show ?thesis by (simp add: json_parse_def)
qed

lemma written_read_clean: "json_ok (clean v) \<Longrightarrow> json_parse (write_with q v) = Inr (clean v)"
  using written_read [of "clean v"] by (simp add: write_clean)

end

interpretation js_writer: json_writer quote
  by unfold_locales (simp_all add: quote_def pstr_quote_body)

theorem json_round_trip: "json_ok v \<Longrightarrow> json_parse (stringify v) = Inr v"
  unfolding stringify_write by (rule js_writer.written_read)

corollary json_round_trip_clean: "json_ok (clean v) \<Longrightarrow> json_parse (stringify v) = Inr (clean v)"
  unfolding stringify_write by (rule js_writer.written_read_clean)

lemma json_parse_Nil: "json_parse [] = Inl SyntaxError"
  by code_simp

end
