(* ===== verification/SdkTypes.thy ===== *)
theory SdkTypes
  imports JsonParse
begin

text \<open>
  The types of the browser SDK (\<open>packages/browser/src/types.ts\<close>). An optional
  property is an \<open>option\<close>, \<open>None\<close> being \<open>undefined\<close>; a union of string literals is a
  datatype with a function to the string it stands for on the wire. Session
  identifiers and share tokens are dynamic values: the SDK reads them back from
  \<open>sessionStorage\<close> without checking their type.
\<close>

section \<open>Configuration\<close>

datatype ConsoleLevel = LLog | LInfo | LWarn | LError | LDebug

datatype capture_console = CaptureAll bool | CaptureLevels "ConsoleLevel list"

datatype capture_mode = Buffered | Always

datatype position = BottomRight | BottomLeft | TopRight | TopLeft

record BatRewindConfig =
  endpoint :: jsstr
  apiKey :: jsstr
  serviceName :: "jsstr option"
  service :: "jsstr option"
  environment :: "jsstr option"
  cfg_identifier :: "jsstr option"
  batSessionId :: "jsstr option"
  shareBaseUrl :: "jsstr option"
  showWidget :: "bool option"
  widgetPosition :: "position option"
  widgetColor :: "jsstr option"
  widgetLabel :: "jsstr option"
  maskInputs :: "bool option"
  captureClientMetadata :: "bool option"
  captureConsole :: "capture_console option"
  maskTextClass :: "jsstr option"
  maskTextSelector :: "jsstr option"
  blockClass :: "jsstr option"
  blockSelector :: "jsstr option"
  ignoreClass :: "jsstr option"
  cfg_mode :: "capture_mode option"
  bufferMs :: "int option"
  checkoutEveryNms :: "int option"
  captureOnError :: "bool option"
  flushIntervalMs :: "int option"
  flushMaxBytes :: "int option"

text \<open>\<open>x ?? d\<close> for an optional property.\<close>

definition or_default :: "'a option \<Rightarrow> 'a \<Rightarrow> 'a" where
  "or_default x d = (case x of None \<Rightarrow> d | Some y \<Rightarrow> y)"

lemma or_default_simps [simp]: "or_default None d = d" "or_default (Some y) d = y"
  by (simp_all add: or_default_def)

definition opt_str :: "jsstr option \<Rightarrow> jsval" where
  "opt_str x = (case x of None \<Rightarrow> JUndef | Some s \<Rightarrow> JStr s)"

lemma opt_str_simps [simp]: "opt_str None = JUndef" "opt_str (Some s) = JStr s"
  by (simp_all add: opt_str_def)


section \<open>Events and payloads\<close>

record RawEvent =
  ev_type :: int
  ev_data :: jsval
  ev_timestamp :: int

record ClientMeta =
  screen_width :: int
  screen_height :: int
  viewport_width :: int
  viewport_height :: int
  device_pixel_ratio :: jsnum
  cm_language :: jsstr
  cm_timezone :: jsstr
  user_agent :: jsstr

datatype trigger = Manual | ErrorTrigger | Stream

fun trigger_str :: "trigger \<Rightarrow> jsstr" where
  "trigger_str Manual = js ''manual''"
| "trigger_str ErrorTrigger = js ''error''"
| "trigger_str Stream = js ''stream''"

record BatchPayload =
  pl_session_id :: jsval
  pl_identifier :: jsval
  pl_service_name :: jsstr
  pl_environment :: jsstr
  pl_bat_session_id :: "jsstr option"
  pl_trigger :: trigger
  pl_share_token :: jsval
  pl_client :: "ClientMeta option"
  pl_events :: "RawEvent list"

record ReportResult =
  rr_sessionId :: jsval
  rr_shareToken :: jsval
  rr_shareUrl :: jsstr

text \<open>The objects \<open>JSON.stringify\<close> is given for them, properties in source order.\<close>

definition event_json :: "RawEvent \<Rightarrow> jsval" where
  "event_json e = JObj [(js ''type'', jint (ev_type e)), (js ''data'', ev_data e),
     (js ''timestamp'', jint (ev_timestamp e))]"

definition client_json :: "ClientMeta \<Rightarrow> jsval" where
  "client_json m = JObj
     [(js ''screen_width'', jint (screen_width m)),
      (js ''screen_height'', jint (screen_height m)),
      (js ''viewport_width'', jint (viewport_width m)),
      (js ''viewport_height'', jint (viewport_height m)),
      (js ''device_pixel_ratio'', JNum (device_pixel_ratio m)),
      (js ''language'', JStr (cm_language m)),
      (js ''timezone'', JStr (cm_timezone m)),
      (js ''user_agent'', JStr (user_agent m))]"

definition payload_json :: "BatchPayload \<Rightarrow> jsval" where
  "payload_json p = JObj
     [(js ''session_id'', pl_session_id p),
      (js ''identifier'', pl_identifier p),
      (js ''service_name'', JStr (pl_service_name p)),
      (js ''environment'', JStr (pl_environment p)),
      (js ''bat_session_id'', opt_str (pl_bat_session_id p)),
      (js ''trigger'', JStr (trigger_str (pl_trigger p))),
      (js ''share_token'', pl_share_token p),
      (js ''client'', case pl_client p of None \<Rightarrow> JUndef | Some m \<Rightarrow> client_json m),
      (js ''events'', JArr (map event_json (pl_events p)))]"

text \<open>Events whose data JSON carries unchanged, within the safe integers.\<close>

definition event_ok :: "RawEvent \<Rightarrow> bool" where
  "event_ok e \<longleftrightarrow> \<bar>ev_type e\<bar> < 10 ^ 21 \<and> \<bar>ev_timestamp e\<bar> < 10 ^ 21 \<and> json_ok (ev_data e)"

definition client_ok :: "ClientMeta \<Rightarrow> bool" where
  "client_ok m \<longleftrightarrow> \<bar>screen_width m\<bar> < 10 ^ 21 \<and> \<bar>screen_height m\<bar> < 10 ^ 21
     \<and> \<bar>viewport_width m\<bar> < 10 ^ 21 \<and> \<bar>viewport_height m\<bar> < 10 ^ 21
     \<and> num_plain (device_pixel_ratio m)"

lemma json_ok_event: "event_ok e \<Longrightarrow> json_ok (event_json e)"
  by (simp add: event_ok_def event_json_def)

lemma json_ok_client: "client_ok m \<Longrightarrow> json_ok (client_json m)"
  by (simp add: client_ok_def client_json_def)

lemma json_ok_clean: "json_ok v \<Longrightarrow> clean v = v"
proof (induction v rule: clean.induct)
  case (2 vs)
  then show ?case by (simp add: map_idI)
next
  case (3 kvs)
  then have f: "filter (\<lambda>kv. snd kv \<noteq> JUndef) kvs = kvs"
    by (intro filter_True) auto
  have "map (\<lambda>kv. (fst kv, clean (snd kv))) kvs = kvs"
    by (rule map_idI) (use 3 f in auto)
  then show ?case by (simp only: clean.simps f)
qed simp_all


lemma json_ok_clean_obj:
  assumes "distinct (map fst kvs)"
    and "\<And>kv. kv \<in> set kvs \<Longrightarrow> snd kv \<noteq> JUndef \<Longrightarrow> json_ok (clean (snd kv))"
  shows "json_ok (clean (JObj kvs))"
proof -
  have "distinct (map fst (filter (\<lambda>kv. snd kv \<noteq> JUndef) kvs))"
    using assms(1) by (rule distinct_map_filter)
  with assms(2) show ?thesis by (simp add: o_def)
qed

lemma js_get_clean_obj:
  assumes "distinct (map fst kvs)"
  shows "js_get (clean (JObj kvs)) k =
    Inr (case map_of kvs k of None \<Rightarrow> JUndef | Some v \<Rightarrow> if v = JUndef then JUndef else clean v)"
  using assms
proof (induction kvs)
  case (Cons kv kvs)
  have "map_of kvs (fst kv) = None" using Cons.prems by (simp add: map_of_eq_None_iff)
  with Cons show ?case by (cases kv) (auto split: option.splits)
qed simp

end
