(* ===== verification/WebStorage.thy ===== *)
theory WebStorage
  imports JsonParse
begin

text \<open>
  \<open>sessionStorage\<close> and \<open>localStorage\<close>: a string-to-string map that may be blocked
  altogether (every call throws) or full (\<open>setItem\<close> throws). The SDK's session, the
  dashboard's login state and its theme are kept there, the first two as JSON text.

  The interfaces are locales: \<open>codec\<close> (a writer and a reader that undo each other),
  \<open>kv_store\<close> (what a read sees after a write or a removal) and \<open>coded_store\<close>, which
  joins them. They are interpreted on \<open>JSON.stringify\<close> and \<open>JSON.parse\<close> and on the
  storage operations below.
\<close>

record storage =
  st_available :: bool
  st_quota :: bool
  st_items :: "jsstr \<rightharpoonup> jsstr"

definition getItem :: "storage \<Rightarrow> jsstr \<Rightarrow> jsstr option res" where
  "getItem s k = (if st_available s then Inr (st_items s k) else Inl DOMError)"

definition setItem :: "storage \<Rightarrow> jsstr \<Rightarrow> jsstr \<Rightarrow> storage res" where
  "setItem s k v =
     (if st_available s \<and> st_quota s then Inr (s\<lparr>st_items := (st_items s)(k \<mapsto> v)\<rparr>)
      else Inl DOMError)"

definition removeItem :: "storage \<Rightarrow> jsstr \<Rightarrow> storage res" where
  "removeItem s k =
     (if st_available s then Inr (s\<lparr>st_items := (st_items s)(k := None)\<rparr>) else Inl DOMError)"

definition empty_storage :: storage where
  "empty_storage = \<lparr>st_available = True, st_quota = True, st_items = Map.empty\<rparr>"


section \<open>Writers and readers\<close>

locale codec =
  fixes enc :: "'a \<Rightarrow> jsstr"
    and dec :: "jsstr \<Rightarrow> 'a res"
    and ok :: "'a \<Rightarrow> bool"
  assumes dec_enc: "ok x \<Longrightarrow> dec (enc x) = Inr x"
begin

lemma enc_inj: "ok x \<Longrightarrow> ok y \<Longrightarrow> enc x = enc y \<Longrightarrow> x = y"
  by (metis dec_enc sum.inject(2))

end

interpretation json: codec stringify json_parse json_ok
  by unfold_locales (rule json_round_trip)

locale kv_store =
  fixes get :: "'s \<Rightarrow> jsstr \<Rightarrow> jsstr option res"
    and put :: "'s \<Rightarrow> jsstr \<Rightarrow> jsstr \<Rightarrow> 's res"
    and remove :: "'s \<Rightarrow> jsstr \<Rightarrow> 's res"
  assumes get_put: "put s k v = Inr s' \<Longrightarrow> get s' k' = (if k' = k then Inr (Some v) else get s k')"
    and get_remove: "remove s k = Inr s' \<Longrightarrow> get s' k' = (if k' = k then Inr None else get s k')"
begin

lemma get_put_same: "put s k v = Inr s' \<Longrightarrow> get s' k = Inr (Some v)"
  by (simp add: get_put)

lemma get_put_other: "put s k v = Inr s' \<Longrightarrow> k' \<noteq> k \<Longrightarrow> get s' k' = get s k'"
  by (simp add: get_put)

lemma put_put: "put s k v = Inr s1 \<Longrightarrow> put s1 k w = Inr s2 \<Longrightarrow> get s2 k = Inr (Some w)"
  by (rule get_put_same)

lemma remove_two:
  "remove s a = Inr s1 \<Longrightarrow> remove s1 b = Inr s2 \<Longrightarrow> k = a \<or> k = b \<Longrightarrow> get s2 k = Inr None"
  by (auto simp: get_remove)

end

interpretation web: kv_store getItem setItem removeItem
  by unfold_locales (auto simp: getItem_def setItem_def removeItem_def split: if_splits)

locale coded_store = kv_store get put remove + codec enc dec ok
  for get :: "'s \<Rightarrow> jsstr \<Rightarrow> jsstr option res"
    and put :: "'s \<Rightarrow> jsstr \<Rightarrow> jsstr \<Rightarrow> 's res"
    and remove :: "'s \<Rightarrow> jsstr \<Rightarrow> 's res"
    and enc :: "'a \<Rightarrow> jsstr"
    and dec :: "jsstr \<Rightarrow> 'a res"
    and ok :: "'a \<Rightarrow> bool"
begin

lemma load_saved:
  assumes "put s k (enc x) = Inr s'" and "ok x"
  shows "bindR (get s' k) (\<lambda>r. case r of None \<Rightarrow> Inl SyntaxError | Some t \<Rightarrow> dec t) = Inr x"
  using get_put_same [OF assms(1)] dec_enc [OF assms(2)] by simp

lemma load_saved_other:
  assumes "put s k (enc x) = Inr s1" and "put s1 k' v = Inr s2" and "k' \<noteq> k" and "ok x"
  shows "bindR (get s2 k) (\<lambda>r. case r of None \<Rightarrow> Inl SyntaxError | Some t \<Rightarrow> dec t) = Inr x"
  using get_put_other [OF assms(2), of k] assms(3) load_saved [OF assms(1,4)] by auto

end

interpretation web_json: coded_store getItem setItem removeItem stringify json_parse json_ok
  by unfold_locales

text \<open>When the operations succeed, and what a blocked or full storage does.\<close>

lemma setItem_ok: "st_available s \<Longrightarrow> st_quota s \<Longrightarrow>
    setItem s k v = Inr (s\<lparr>st_items := (st_items s)(k \<mapsto> v)\<rparr>)"
  by (simp add: setItem_def)

lemma setItem_flags:
  "setItem s k v = Inr s' \<Longrightarrow> st_available s' \<and> st_quota s' \<and> st_available s \<and> st_quota s"
  by (auto simp: setItem_def split: if_splits)

lemma setItem_err: "setItem s k v = Inl e \<longleftrightarrow> \<not> (st_available s \<and> st_quota s) \<and> e = DOMError"
  by (auto simp: setItem_def)

end
