(* ===== verification/SdkSession.thy ===== *)
theory SdkSession
  imports SdkTypes WebStorage
begin

text \<open>
  The recorder's session (\<open>packages/browser/src/session.ts\<close>): an identifier and a share
  token kept in \<open>sessionStorage\<close> for thirty minutes after their last use.

  The browser is a record: the clock read by \<open>Date.now()\<close>, \<open>sessionStorage\<close>, whether
  \<open>crypto.randomUUID\<close> exists (it does in secure contexts only), and how many
  identifiers it has handed out. \<open>crypto.randomUUID\<close> itself is a parameter, \<open>uuid n\<close>
  being the \<open>n\<close>-th identifier; that identifiers are new is the hypothesis \<open>inj uuid\<close>
  where it is needed. A function that may throw after changing the browser returns
  the changed browser with the exception.
\<close>

record browser =
  clock :: int
  session_store :: storage
  has_uuid :: bool
  uuids_used :: nat

record SessionHandle =
  h_id :: jsval
  h_shareToken :: jsval

definition SESSION_KEY :: jsstr where
  "SESSION_KEY = js ''__batrewind_session__''"

definition SESSION_TTL_MS :: int where
  "SESSION_TTL_MS = 30 * 60 * 1000"

definition generateId :: "(nat \<Rightarrow> jsstr) \<Rightarrow> 'z browser_scheme \<Rightarrow> 'z browser_scheme \<times> jsstr res" where
  "generateId uuid b =
     (if has_uuid b then (b\<lparr>uuids_used := Suc (uuids_used b)\<rparr>, Inr (uuid (uuids_used b)))
      else (b, Inl TypeError))"

text \<open>\<open>JSON.stringify({ id, shareToken, expiresAt: Date.now() + SESSION_TTL_MS })\<close>\<close>

definition session_json :: "jsval \<Rightarrow> jsval \<Rightarrow> int \<Rightarrow> jsval" where
  "session_json i t expires =
     JObj [(js ''id'', i), (js ''shareToken'', t), (js ''expiresAt'', jint expires)]"

definition save_session :: "jsval \<Rightarrow> jsval \<Rightarrow> 'z browser_scheme \<Rightarrow> 'z browser_scheme \<times> unit res" where
  "save_session i t b =
     (case setItem (session_store b) SESSION_KEY
             (stringify (session_json i t (clock b + SESSION_TTL_MS))) of
        Inl e \<Rightarrow> (b, Inl e)
      | Inr s \<Rightarrow> (b\<lparr>session_store := s\<rparr>, Inr ()))"

text \<open>
  \<open>JSON.parse(raw)\<close> and the test \<open>Date.now() < stored.expiresAt && stored.id\<close>: the
  stored object when it is still valid.
\<close>

definition read_stored :: "int \<Rightarrow> jsstr \<Rightarrow> jsval option res" where
  "read_stored now raw =
     bindR (json_parse raw) (\<lambda>stored.
       bindR (js_get stored (js ''expiresAt'')) (\<lambda>e.
         bindR (to_number e) (\<lambda>x.
           if \<not> int_less_double now x then Inr None
           else bindR (js_get stored (js ''id'')) (\<lambda>i.
             Inr (if truthy i then Some stored else None)))))"

text \<open>\<open>stored.shareToken || generateId()\<close>\<close>

definition pick_token ::
    "(nat \<Rightarrow> jsstr) \<Rightarrow> jsval \<Rightarrow> 'z browser_scheme \<Rightarrow> 'z browser_scheme \<times> jsval res"
where
  "pick_token uuid stored b =
     (let t = js_opt_get stored (js ''shareToken'')
      in if truthy t then (b, Inr t)
         else (case generateId uuid b of (b', r) \<Rightarrow> (b', bindR r (\<lambda>s. Inr (JStr s)))))"

text \<open>
  The body of the first \<open>try\<close>: \<open>Inr (Some h)\<close> when it returns, \<open>Inr None\<close> when control
  falls out of it, \<open>Inl e\<close> when it throws.
\<close>

definition resume_stored ::
    "(nat \<Rightarrow> jsstr) \<Rightarrow> jsval \<Rightarrow> 'z browser_scheme \<Rightarrow> 'z browser_scheme \<times> SessionHandle option res"
where
  "resume_stored uuid stored b =
     (case pick_token uuid stored b of
        (b1, Inl e) \<Rightarrow> (b1, Inl e)
      | (b1, Inr tok) \<Rightarrow>
          (let i = js_opt_get stored (js ''id'')
           in case save_session i tok b1 of
                (b2, Inl e) \<Rightarrow> (b2, Inl e)
              | (b2, Inr _) \<Rightarrow> (b2, Inr (Some \<lparr>h_id = i, h_shareToken = tok\<rparr>))))"

definition try_resume ::
    "(nat \<Rightarrow> jsstr) \<Rightarrow> 'z browser_scheme \<Rightarrow> 'z browser_scheme \<times> SessionHandle option res"
where
  "try_resume uuid b =
     (case getItem (session_store b) SESSION_KEY of
        Inl e \<Rightarrow> (b, Inl e)
      | Inr None \<Rightarrow> (b, Inr None)
      | Inr (Some raw) \<Rightarrow>
          if raw = [] then (b, Inr None)
          else (case read_stored (clock b) raw of
                  Inl e \<Rightarrow> (b, Inl e)
                | Inr None \<Rightarrow> (b, Inr None)
                | Inr (Some stored) \<Rightarrow> resume_stored uuid stored b))"

text \<open>After the \<open>try\<close>: a fresh handle, saved if the storage lets it.\<close>

definition fresh_session ::
    "(nat \<Rightarrow> jsstr) \<Rightarrow> 'z browser_scheme \<Rightarrow> 'z browser_scheme \<times> SessionHandle res"
where
  "fresh_session uuid b =
     (case generateId uuid b of
        (b1, Inl e) \<Rightarrow> (b1, Inl e)
      | (b1, Inr i) \<Rightarrow>
          (case generateId uuid b1 of
             (b2, Inl e) \<Rightarrow> (b2, Inl e)
           | (b2, Inr t) \<Rightarrow>
               (fst (save_session (JStr i) (JStr t) b2),
                Inr \<lparr>h_id = JStr i, h_shareToken = JStr t\<rparr>)))"

definition getOrCreateSession ::
    "(nat \<Rightarrow> jsstr) \<Rightarrow> 'z browser_scheme \<Rightarrow> 'z browser_scheme \<times> SessionHandle res"
where
  "getOrCreateSession uuid b =
     (case try_resume uuid b of
        (b1, Inr (Some h)) \<Rightarrow> (b1, Inr h)
      | (b1, _) \<Rightarrow> fresh_session uuid b1)"

definition getOrCreateSessionId ::
    "(nat \<Rightarrow> jsstr) \<Rightarrow> 'z browser_scheme \<Rightarrow> 'z browser_scheme \<times> jsval res"
where
  "getOrCreateSessionId uuid b =
     (case getOrCreateSession uuid b of (b', r) \<Rightarrow> (b', bindR r (\<lambda>h. Inr (h_id h))))"


section \<open>What is stored can be read back\<close>

definition str_handle :: "SessionHandle \<Rightarrow> bool" where
  "str_handle h \<longleftrightarrow> (\<exists>i t. h = \<lparr>h_id = JStr i, h_shareToken = JStr t\<rparr> \<and> i \<noteq> [] \<and> t \<noteq> [])"

lemma json_ok_session:
  "\<bar>e\<bar> < 10 ^ 21 \<Longrightarrow> json_ok (session_json (JStr i) (JStr t) e)"
  by (simp add: session_json_def)

lemma read_stored_own:
  assumes "\<bar>e\<bar> < 10 ^ 21" and "i \<noteq> []"
  shows "read_stored now (stringify (session_json (JStr i) (JStr t) e)) =
    Inr (if now < e then Some (session_json (JStr i) (JStr t) e) else None)"
  using json_round_trip [OF json_ok_session [OF assms(1), of i t]] assms(2)
  by (simp add: read_stored_def session_json_def)

lemma stringify_obj_not_Nil: "stringify (JObj kvs) \<noteq> []"
  by simp

lemma try_resume_own:
  assumes "st_available (session_store b)" and "st_quota (session_store b)"
    and "st_items (session_store b) SESSION_KEY =
           Some (stringify (session_json (JStr i) (JStr t) e))"
    and "\<bar>e\<bar> < 10 ^ 21" and "i \<noteq> []" and "t \<noteq> []" and "clock b < e"
  shows "try_resume uuid b =
    (b\<lparr>session_store := (session_store b)\<lparr>st_items := (st_items (session_store b))
        (SESSION_KEY \<mapsto> stringify (session_json (JStr i) (JStr t) (clock b + SESSION_TTL_MS)))\<rparr>\<rparr>,
     Inr (Some \<lparr>h_id = JStr i, h_shareToken = JStr t\<rparr>))"
proof -
  have "read_stored (clock b) (stringify (session_json (JStr i) (JStr t) e))
      = Inr (Some (session_json (JStr i) (JStr t) e))"
    using read_stored_own [OF assms(4,5), of "clock b" t] assms(7) by simp
  moreover have "stringify (session_json (JStr i) (JStr t) e) \<noteq> []"
    by (simp add: session_json_def)
  ultimately show ?thesis
    using assms
    by (simp add: try_resume_def getItem_def resume_stored_def pick_token_def save_session_def setItem_ok
        session_json_def [of _ _ e] js_opt_get_def Let_def)
qed


section \<open>Where a session comes from\<close>

definition storage_ok :: "'z browser_scheme \<Rightarrow> bool" where
  "storage_ok b \<longleftrightarrow> st_available (session_store b) \<and> st_quota (session_store b)"

definition stored_as :: "jsval \<Rightarrow> jsval \<Rightarrow> int \<Rightarrow> 'z browser_scheme \<Rightarrow> bool" where
  "stored_as i t e b \<longleftrightarrow> storage_ok b
     \<and> st_items (session_store b) SESSION_KEY = Some (stringify (session_json i t e))"

lemma save_session_ok:
  assumes "storage_ok b"
  shows "\<exists>b'. save_session i t b = (b', Inr ()) \<and> stored_as i t (clock b + SESSION_TTL_MS) b'
    \<and> clock b' = clock b \<and> has_uuid b' = has_uuid b \<and> uuids_used b' = uuids_used b"
  using assms by (simp add: save_session_def setItem_def storage_ok_def stored_as_def)

lemma save_session_blocked:
  "\<not> storage_ok b \<Longrightarrow> save_session i t b = (b, Inl DOMError)"
  by (auto simp: save_session_def setItem_def storage_ok_def)

lemma generateId_frame:
  "generateId uuid b = (b', r) \<Longrightarrow> session_store b' = session_store b \<and> clock b' = clock b
     \<and> has_uuid b' = has_uuid b"
  by (auto simp: generateId_def split: if_splits)

lemma fresh_session_spec:
  assumes "has_uuid b"
  obtains b' where
    "fresh_session uuid b = (b', Inr \<lparr>h_id = JStr (uuid (uuids_used b)),
        h_shareToken = JStr (uuid (Suc (uuids_used b)))\<rparr>)"
    and "storage_ok b \<Longrightarrow> stored_as (JStr (uuid (uuids_used b)))
        (JStr (uuid (Suc (uuids_used b)))) (clock b + SESSION_TTL_MS) b'"
    and "clock b' = clock b"
proof -
  define b2 where "b2 = b\<lparr>uuids_used := Suc (Suc (uuids_used b))\<rparr>"
  let ?i = "JStr (uuid (uuids_used b))" and ?t = "JStr (uuid (Suc (uuids_used b)))"
  have run: "fresh_session uuid b = (fst (save_session ?i ?t b2), Inr \<lparr>h_id = ?i, h_shareToken = ?t\<rparr>)"
    using assms by (simp add: fresh_session_def generateId_def b2_def)
  have b2: "storage_ok b2 = storage_ok b" "clock b2 = clock b"
    by (simp_all add: b2_def storage_ok_def)
  have "clock (fst (save_session ?i ?t b2)) = clock b"
    by (simp add: save_session_def b2 split: sum.splits)
  moreover have "storage_ok b \<Longrightarrow> stored_as ?i ?t (clock b + SESSION_TTL_MS) (fst (save_session ?i ?t b2))"
    using save_session_ok [of b2 ?i ?t] b2 by auto
  ultimately show ?thesis using that run by blast
qed

lemma pick_token_frame:
  "pick_token uuid stored b = (b', r) \<Longrightarrow> session_store b' = session_store b \<and> clock b' = clock b
     \<and> has_uuid b' = has_uuid b"
  by (auto simp: pick_token_def Let_def generateId_def split: if_splits)

lemma resume_stored_cases:
  assumes "resume_stored uuid stored b = (b1, r)"
  shows "(\<exists>e. r = Inl e \<and> session_store b1 = session_store b \<and> clock b1 = clock b
            \<and> has_uuid b1 = has_uuid b)
       \<or> (\<exists>h. r = Inr (Some h) \<and> clock b1 = clock b
            \<and> stored_as (h_id h) (h_shareToken h) (clock b + SESSION_TTL_MS) b1)"
proof -
  obtain c t where c: "pick_token uuid stored b = (c, t)" by fastforce
  note fr = pick_token_frame [OF c]
  show ?thesis
  proof (cases t)
    case (Inl e)
    with assms c fr show ?thesis by (auto simp: resume_stored_def)
  next
    case (Inr tok)
    let ?i = "js_opt_get stored (js ''id'')"
    show ?thesis
    proof (cases "storage_ok c")
      case True
      with save_session_ok [of c ?i tok] assms c Inr fr show ?thesis
        by (auto simp: resume_stored_def Let_def)
    next
      case False
      with save_session_blocked [of c ?i tok] assms c Inr fr show ?thesis
        by (auto simp: resume_stored_def Let_def)
    qed
  qed
qed

lemma try_resume_frame:
  assumes "try_resume uuid b = (b1, r)" and "\<And>h. r \<noteq> Inr (Some h)"
  shows "session_store b1 = session_store b \<and> clock b1 = clock b \<and> has_uuid b1 = has_uuid b"
proof -
  consider "b1 = b" | stored where "resume_stored uuid stored b = (b1, r)"
    using assms(1) by (auto simp: try_resume_def split: sum.splits option.splits if_splits)
  then show ?thesis
  proof cases
    case 1
    then show ?thesis by simp
  next
    case 2
    from resume_stored_cases [OF 2] assms(2) show ?thesis by auto
  qed
qed

lemma try_resume_saves:
  assumes "try_resume uuid b = (b1, Inr (Some h))"
  shows "stored_as (h_id h) (h_shareToken h) (clock b + SESSION_TTL_MS) b1 \<and> clock b1 = clock b"
proof -
  from assms obtain stored where "resume_stored uuid stored b = (b1, Inr (Some h))"
    by (auto simp: try_resume_def split: sum.splits option.splits if_splits)
  from resume_stored_cases [OF this] show ?thesis by auto
qed

lemma getOrCreateSession_saves:
  assumes "getOrCreateSession uuid b = (b1, Inr h)" and "storage_ok b"
  shows "stored_as (h_id h) (h_shareToken h) (clock b + SESSION_TTL_MS) b1 \<and> clock b1 = clock b"
proof (cases "\<exists>b' h'. try_resume uuid b = (b', Inr (Some h'))")
  case True
  then show ?thesis
    using assms(1) try_resume_saves by (fastforce simp: getOrCreateSession_def)
next
  case False
  obtain b0 r where r: "try_resume uuid b = (b0, r)" by fastforce
  with False have no: "\<And>h. r \<noteq> Inr (Some h)" by auto
  note fr = try_resume_frame [OF r no]
  have run: "fresh_session uuid b0 = (b1, Inr h)"
    using assms(1) r no by (auto simp: getOrCreateSession_def split: sum.splits option.splits)
  then have "has_uuid b0"
    by (auto simp: fresh_session_def generateId_def split: if_splits)
  then obtain b' where "fresh_session uuid b0 = (b', Inr \<lparr>h_id = JStr (uuid (uuids_used b0)),
        h_shareToken = JStr (uuid (Suc (uuids_used b0)))\<rparr>)"
    and "storage_ok b0 \<Longrightarrow> stored_as (JStr (uuid (uuids_used b0)))
        (JStr (uuid (Suc (uuids_used b0)))) (clock b0 + SESSION_TTL_MS) b'"
    and "clock b' = clock b0"
    using fresh_session_spec by blast
  then show ?thesis using run fr assms(2) by (auto simp: storage_ok_def)
qed

lemma stored_string_resumes:
  assumes "stored_as (JStr i) (JStr t) e b" and "\<bar>e\<bar> < 10 ^ 21" and "i \<noteq> []" and "t \<noteq> []"
    and "clock b < e"
  shows "\<exists>b'. getOrCreateSession uuid b = (b', Inr \<lparr>h_id = JStr i, h_shareToken = JStr t\<rparr>)
    \<and> stored_as (JStr i) (JStr t) (clock b + SESSION_TTL_MS) b' \<and> uuids_used b' = uuids_used b"
  using assms try_resume_own [of b i t e uuid]
  by (simp add: stored_as_def storage_ok_def getOrCreateSession_def)


lemma getOrCreateSession_fresh:
  assumes "try_resume uuid b = (b, r)" and "\<And>h. r \<noteq> Inr (Some h)"
  shows "getOrCreateSession uuid b = fresh_session uuid b"
  using assms by (auto simp: getOrCreateSession_def split: sum.splits option.splits)

lemma read_stored_id:
  "read_stored now raw = Inr (Some stored) \<Longrightarrow> truthy (js_opt_get stored (js ''id''))"
  by (auto simp: read_stored_def bindR_eq_Inr js_opt_get_def split: if_splits)

lemma try_resume_truthy:
  assumes "try_resume uuid b = (b1, Inr (Some h))" and "\<And>n. uuid n \<noteq> []"
  shows "truthy (h_id h) \<and> truthy (h_shareToken h)"
proof -
  from assms(1) obtain raw stored where r: "read_stored (clock b) raw = Inr (Some stored)"
    and s: "resume_stored uuid stored b = (b1, Inr (Some h))"
    by (auto simp: try_resume_def split: sum.splits option.splits if_splits)
  obtain c t where c: "pick_token uuid stored b = (c, t)" by fastforce
  with s obtain tok where t: "t = Inr tok" and h: "h = \<lparr>h_id = js_opt_get stored (js ''id''), h_shareToken = tok\<rparr>"
    by (auto simp: resume_stored_def Let_def split: sum.splits prod.splits)
  have "truthy tok"
    using c t assms(2) by (auto simp: pick_token_def Let_def generateId_def split: if_splits)
  with read_stored_id [OF r] h show ?thesis by simp
qed

lemma getOrCreateSession_returns:
  assumes "has_uuid b"
  shows "\<exists>b' h. getOrCreateSession uuid b = (b', Inr h)"
proof (cases "\<exists>b1 h. try_resume uuid b = (b1, Inr (Some h))")
  case True
  then show ?thesis by (auto simp: getOrCreateSession_def)
next
  case False
  obtain b0 r where r: "try_resume uuid b = (b0, r)" by fastforce
  with False have no: "\<And>h. r \<noteq> Inr (Some h)" by auto
  have "has_uuid b0" using try_resume_frame [OF r no] assms by simp
  then have "\<exists>b' h. fresh_session uuid b0 = (b', Inr h)"
    using fresh_session_spec by blast
  moreover have "getOrCreateSession uuid b = fresh_session uuid b0"
    using r no by (auto simp: getOrCreateSession_def split: sum.splits option.splits)
  ultimately show ?thesis by simp
qed

lemma getOrCreateSession_truthy:
  assumes "getOrCreateSession uuid b = (b1, Inr h)" and "\<And>n. uuid n \<noteq> []"
  shows "truthy (h_id h) \<and> truthy (h_shareToken h)"
proof (cases "\<exists>b1 h. try_resume uuid b = (b1, Inr (Some h))")
  case True
  then show ?thesis
    using try_resume_truthy [of uuid b] assms by (fastforce simp: getOrCreateSession_def)
next
  case False
  obtain b0 r where r: "try_resume uuid b = (b0, r)" by fastforce
  with False have "\<And>h. r \<noteq> Inr (Some h)" by auto
  with r assms show ?thesis
    by (cases "has_uuid b0")
       (auto simp: getOrCreateSession_def fresh_session_def generateId_def
         split: sum.splits option.splits)
qed

text \<open>Obtaining a session touches only the browser's own fields.\<close>

lemma save_session_more: "save_session i t b = (b', r) \<Longrightarrow> browser.more b' = browser.more b"
  by (auto simp: save_session_def split: sum.splits)

lemma generateId_more: "generateId uuid b = (b', r) \<Longrightarrow> browser.more b' = browser.more b"
  by (auto simp: generateId_def split: if_splits)

lemma pick_token_more: "pick_token uuid stored b = (b', r) \<Longrightarrow> browser.more b' = browser.more b"
  by (auto simp: pick_token_def Let_def dest: generateId_more split: if_splits prod.splits)

lemma resume_stored_more: "resume_stored uuid stored b = (b', r) \<Longrightarrow> browser.more b' = browser.more b"
  by (auto simp: resume_stored_def Let_def dest!: pick_token_more save_session_more
      split: prod.splits sum.splits)

lemma fresh_session_more: "fresh_session uuid b = (b', r) \<Longrightarrow> browser.more b' = browser.more b"
  by (cases "has_uuid b")
     (auto simp: fresh_session_def generateId_def save_session_def split: sum.splits)

lemma getOrCreateSession_more:
  assumes "getOrCreateSession uuid b = (b', r)"
  shows "browser.more b' = browser.more b"
proof -
  obtain c q where q: "try_resume uuid b = (c, q)" by fastforce
  have "browser.more c = browser.more b"
    using q by (auto simp: try_resume_def dest!: resume_stored_more
        split: sum.splits option.splits if_splits)
  then show ?thesis
    using assms q
    by (auto simp: getOrCreateSession_def dest!: fresh_session_more split: sum.splits option.splits)
qed


lemma fresh_session_clock: "fresh_session uuid b = (b', r) \<Longrightarrow> clock b' = clock b"
  by (cases "has_uuid b")
     (auto simp: fresh_session_def generateId_def save_session_def split: sum.splits)

lemma getOrCreateSession_clock:
  assumes "getOrCreateSession uuid b = (b', r)"
  shows "clock b' = clock b"
proof -
  obtain c q where q: "try_resume uuid b = (c, q)" by fastforce
  have "clock c = clock b"
    using try_resume_frame [OF q] try_resume_saves [of uuid b c] q by (cases "\<exists>h. q = Inr (Some h)") auto
  then show ?thesis
    using assms q
    by (auto simp: getOrCreateSession_def dest!: fresh_session_clock split: sum.splits option.splits)
qed


section \<open>Properties of the session\<close>

text \<open>A concrete browser for the witnesses: numbered identifiers, an empty storage.\<close>

definition demo_uuid :: "nat \<Rightarrow> jsstr" where
  "demo_uuid n = js ''uuid-'' @ dec_digits n"

definition demo_browser :: browser where
  "demo_browser = \<lparr>clock = 1000, session_store = empty_storage, has_uuid = True, uuids_used = 0\<rparr>"

lemma demo_uuid_not_Nil [simp]: "demo_uuid n \<noteq> []"
  by (simp add: demo_uuid_def)

lemma demo_storage_ok: "storage_ok demo_browser"
  by (simp add: storage_ok_def demo_browser_def empty_storage_def)

lemma demo_fresh:
  obtains b1 where "getOrCreateSession demo_uuid demo_browser =
      (b1, Inr \<lparr>h_id = JStr (demo_uuid 0), h_shareToken = JStr (demo_uuid 1)\<rparr>)"
    and "stored_as (JStr (demo_uuid 0)) (JStr (demo_uuid 1)) (1000 + SESSION_TTL_MS) b1"
    and "has_uuid b1" and "uuids_used b1 = 2"
proof -
  have "try_resume demo_uuid demo_browser = (demo_browser, Inr None)"
    by (simp add: try_resume_def getItem_def demo_browser_def empty_storage_def)
  then have "getOrCreateSession demo_uuid demo_browser = fresh_session demo_uuid demo_browser"
    by (rule getOrCreateSession_fresh) simp
  then show ?thesis
    using that
    by (simp add: fresh_session_def generateId_def save_session_def setItem_def stored_as_def
        storage_ok_def demo_browser_def empty_storage_def)
qed

lemma stored_string_expires:
  assumes "stored_as (JStr i) (JStr t) e b" and "\<bar>e\<bar> < 10 ^ 21" and "i \<noteq> []" and "e \<le> clock b" and "has_uuid b"
  shows "\<exists>b'. getOrCreateSession uuid b = (b', Inr \<lparr>h_id = JStr (uuid (uuids_used b)),
      h_shareToken = JStr (uuid (Suc (uuids_used b)))\<rparr>)"
proof -
  have "read_stored (clock b) (stringify (session_json (JStr i) (JStr t) e)) = Inr None"
    using read_stored_own [OF assms(2,3), of "clock b" t] assms(4) by simp
  then have "try_resume uuid b = (b, Inr None)"
    using assms(1) by (simp add: stored_as_def storage_ok_def try_resume_def getItem_def)
  then have "getOrCreateSession uuid b = fresh_session uuid b"
    by (rule getOrCreateSession_fresh) simp
  then show ?thesis using fresh_session_spec [OF assms(5), of uuid] by metis
qed

text \<open>
  Property C9 (session survives). Whatever the storage held before, once the SDK has obtained a
  session whose identifier and share token are strings, every later call within
  thirty minutes returns the same identifier and the same share token, and restarts
  the thirty minutes: the handle survives the round trip through
  \<open>JSON.stringify\<close>, \<open>sessionStorage\<close> and \<open>JSON.parse\<close>. Once the thirty minutes are over it is
  not resumed: the next call draws the next two identifiers of \<open>crypto.randomUUID\<close>.
\<close>

theorem session_survives:
  assumes "getOrCreateSession uuid b = (b1, Inr h)" and "storage_ok b" and "str_handle h"
    and "\<bar>clock b + SESSION_TTL_MS\<bar> < 10 ^ 21"
  shows "if c < clock b + SESSION_TTL_MS
    then \<exists>b2. getOrCreateSession uuid (b1\<lparr>clock := c\<rparr>) = (b2, Inr h)
      \<and> stored_as (h_id h) (h_shareToken h) (c + SESSION_TTL_MS) b2
    else has_uuid b1 \<longrightarrow> (\<exists>b2. getOrCreateSession uuid (b1\<lparr>clock := c\<rparr>)
      = (b2, Inr \<lparr>h_id = JStr (uuid (uuids_used b1)), h_shareToken = JStr (uuid (Suc (uuids_used b1)))\<rparr>))"
proof -
  from assms(3) obtain i t where h: "h = \<lparr>h_id = JStr i, h_shareToken = JStr t\<rparr>"
    and ne: "i \<noteq> []" "t \<noteq> []"
    by (auto simp: str_handle_def)
  have "stored_as (JStr i) (JStr t) (clock b + SESSION_TTL_MS) (b1\<lparr>clock := c\<rparr>)"
    using getOrCreateSession_saves [OF assms(1,2)] h by (simp add: stored_as_def storage_ok_def)
  from stored_string_resumes [OF this assms(4) ne, of uuid] stored_string_expires [OF this assms(4) ne(1), of uuid] h
  show ?thesis by auto
qed

theorem session_survives_witness:
  "\<exists>b1 b2 b3 h h'. getOrCreateSession demo_uuid demo_browser = (b1, Inr h)
     \<and> getOrCreateSession demo_uuid (b1\<lparr>clock := 1800000\<rparr>) = (b2, Inr h)
     \<and> stored_as (h_id h) (h_shareToken h) (1800000 + SESSION_TTL_MS) b2
     \<and> getOrCreateSession demo_uuid (b1\<lparr>clock := 1801000\<rparr>) = (b3, Inr h')
     \<and> h_id h = JStr (demo_uuid 0) \<and> h_id h' = JStr (demo_uuid 2)"
proof -
  obtain b1 where b1: "getOrCreateSession demo_uuid demo_browser =
      (b1, Inr \<lparr>h_id = JStr (demo_uuid 0), h_shareToken = JStr (demo_uuid 1)\<rparr>)"
    and u: "has_uuid b1" "uuids_used b1 = 2"
    using demo_fresh by blast
  note survives = session_survives [OF b1 demo_storage_ok]
  show ?thesis
    using survives [of 1800000] survives [of 1801000] b1 u
    by (auto simp: str_handle_def SESSION_TTL_MS_def demo_browser_def)
qed

lemma full_storage_drops:
  assumes "st_available (session_store b)" and "\<not> st_quota (session_store b)"
    and "st_items (session_store b) SESSION_KEY = Some (stringify (session_json (JStr i) (JStr t) e))"
    and "\<bar>e\<bar> < 10 ^ 21" and "i \<noteq> []" and "t \<noteq> []" and "clock b < e" and "has_uuid b"
  shows "\<exists>b'. getOrCreateSession uuid b = (b', Inr \<lparr>h_id = JStr (uuid (uuids_used b)),
        h_shareToken = JStr (uuid (Suc (uuids_used b)))\<rparr>) \<and> session_store b' = session_store b"
proof -
  have "read_stored (clock b) (stringify (session_json (JStr i) (JStr t) e))
      = Inr (Some (session_json (JStr i) (JStr t) e))"
    using read_stored_own [OF assms(4,5), of "clock b" t] assms(7) by simp
  moreover have blocked: "\<not> storage_ok b" using assms(2) by (simp add: storage_ok_def)
  ultimately have "try_resume uuid b = (b, Inl DOMError)"
    using assms(1,3,6) save_session_blocked [OF blocked]
    by (simp add: try_resume_def getItem_def resume_stored_def pick_token_def session_json_def
        js_opt_get_def Let_def)
  then have "getOrCreateSession uuid b = fresh_session uuid b"
    by (rule getOrCreateSession_fresh) simp
  then show ?thesis
    using assms(2,8)
    by (simp add: fresh_session_def generateId_def save_session_def setItem_def)
qed

text \<open>
  Property C27 (a session is always available). Wherever \<open>crypto.randomUUID\<close> exists, obtaining a session never throws, whatever
  the storage does or holds, and gives an identifier and a token that are truthy. But when the
  storage can be read and not written, a stored session that has not expired is discarded: writing
  its new expiry throws, the exception is caught as if the storage were unavailable, and
  fresh identifiers are returned.
\<close>

theorem session_always_available:
  assumes "has_uuid b" and "\<And>n. uuid n \<noteq> []"
  shows "\<exists>b' h. getOrCreateSession uuid b = (b', Inr h) \<and> truthy (h_id h) \<and> truthy (h_shareToken h)
    \<and> (\<forall>i t e. st_available (session_store b) \<and> \<not> st_quota (session_store b)
          \<and> st_items (session_store b) SESSION_KEY = Some (stringify (session_json (JStr i) (JStr t) e))
          \<and> \<bar>e\<bar> < 10 ^ 21 \<and> i \<noteq> [] \<and> t \<noteq> [] \<and> clock b < e
        \<longrightarrow> session_store b' = session_store b
          \<and> h = \<lparr>h_id = JStr (uuid (uuids_used b)), h_shareToken = JStr (uuid (Suc (uuids_used b)))\<rparr>)"
proof -
  obtain b' h where r: "getOrCreateSession uuid b = (b', Inr h)"
    using getOrCreateSession_returns [OF assms(1)] by blast
  have "session_store b' = session_store b
      \<and> h = \<lparr>h_id = JStr (uuid (uuids_used b)), h_shareToken = JStr (uuid (Suc (uuids_used b)))\<rparr>"
    if "st_available (session_store b)" "\<not> st_quota (session_store b)"
      "st_items (session_store b) SESSION_KEY = Some (stringify (session_json (JStr i) (JStr t) e))"
      "\<bar>e\<bar> < 10 ^ 21" "i \<noteq> []" "t \<noteq> []" "clock b < e" for i t e
    using full_storage_drops [OF that assms(1), of uuid] r by auto
  with r getOrCreateSession_truthy [OF r] assms(2) show ?thesis by blast
qed

definition full_browser :: browser where
  "full_browser = \<lparr>clock = 1000, session_store = \<lparr>st_available = True, st_quota = False,
      st_items = [SESSION_KEY \<mapsto> stringify (session_json (jstr ''a'') (jstr ''b'') 2000)]\<rparr>,
    has_uuid = True, uuids_used = 7\<rparr>"

theorem session_always_available_witness:
  "(\<exists>b' h. getOrCreateSession demo_uuid
       (demo_browser\<lparr>session_store := empty_storage\<lparr>st_available := False\<rparr>\<rparr>) = (b', Inr h)
     \<and> truthy (h_id h) \<and> truthy (h_shareToken h))
   \<and> (\<exists>b'. getOrCreateSession demo_uuid full_browser
        = (b', Inr \<lparr>h_id = JStr (demo_uuid 7), h_shareToken = JStr (demo_uuid 8)\<rparr>))"
proof
  show "\<exists>b' h. getOrCreateSession demo_uuid (demo_browser\<lparr>session_store := empty_storage\<lparr>st_available := False\<rparr>\<rparr>) = (b', Inr h)
     \<and> truthy (h_id h) \<and> truthy (h_shareToken h)"
    using session_always_available [of "demo_browser\<lparr>session_store := empty_storage\<lparr>st_available := False\<rparr>\<rparr>" demo_uuid]
    by (auto simp: demo_browser_def)
  have "has_uuid full_browser" by (simp add: full_browser_def)
  then obtain b' h where r: "getOrCreateSession demo_uuid full_browser = (b', Inr h)"
    "h = \<lparr>h_id = JStr (demo_uuid 7), h_shareToken = JStr (demo_uuid 8)\<rparr>"
    using session_always_available [of full_browser demo_uuid] by (fastforce simp: full_browser_def)
  then show "\<exists>b'. getOrCreateSession demo_uuid full_browser
        = (b', Inr \<lparr>h_id = JStr (demo_uuid 7), h_shareToken = JStr (demo_uuid 8)\<rparr>)" by blast
qed

end
