(* ===== verification/SdkTransport.thy ===== *)
theory SdkTransport
  imports SdkTypes
begin

text \<open>
  Device metadata (\<open>packages/browser/src/metadata.ts\<close>) and the upload of a batch
  (\<open>packages/browser/src/transport.ts\<close>). \<open>sendBatch\<close> hands one request to \<open>fetch\<close> and
  ignores how it ends, so it is modelled by that request.
\<close>

section \<open>Device metadata\<close>

record navigator =
  nav_language :: "jsstr option"
  nav_userAgent :: "jsstr option"

record screen =
  scr_width :: "int option"
  scr_height :: "int option"

record window =
  win_innerWidth :: int
  win_innerHeight :: int
  win_devicePixelRatio :: "jsnum option"

text \<open>
  The ambient objects; a missing one is \<open>None\<close> (\<open>typeof x === 'undefined'\<close>).
  \<open>time_zone\<close> is \<open>Intl.DateTimeFormat().resolvedOptions().timeZone\<close>, which may throw.
\<close>

record ambient =
  amb_navigator :: "navigator option"
  amb_screen :: "screen option"
  amb_window :: "window option"
  time_zone :: "jsstr option res"

definition collectClientMeta :: "ambient \<Rightarrow> ClientMeta" where
  "collectClientMeta a =
     (let nav = (case amb_navigator a of None \<Rightarrow> \<lparr>nav_language = None, nav_userAgent = None\<rparr> | Some n \<Rightarrow> n);
          scr = (case amb_screen a of None \<Rightarrow> \<lparr>scr_width = None, scr_height = None\<rparr> | Some s \<Rightarrow> s);
          tz = (case time_zone a of Inl _ \<Rightarrow> [] | Inr z \<Rightarrow> or_default z [])
      in \<lparr>screen_width = or_default (scr_width scr) 0,
          screen_height = or_default (scr_height scr) 0,
          viewport_width = (case amb_window a of None \<Rightarrow> 0 | Some w \<Rightarrow> win_innerWidth w),
          viewport_height = (case amb_window a of None \<Rightarrow> 0 | Some w \<Rightarrow> win_innerHeight w),
          device_pixel_ratio =
            (case amb_window a of None \<Rightarrow> JInt 1 | Some w \<Rightarrow> or_default (win_devicePixelRatio w) (JInt 1)),
          cm_language = or_default (nav_language nav) [],
          cm_timezone = tz,
          user_agent = or_default (nav_userAgent nav) []\<rparr>)"


section \<open>Sending a batch\<close>

record http_request =
  rq_url :: jsstr
  rq_method :: jsstr
  rq_headers :: "(jsstr \<times> jsstr) list"
  rq_body :: jsstr
  rq_keepalive :: bool

definition sendBatch :: "jsstr \<Rightarrow> jsstr \<Rightarrow> BatchPayload \<Rightarrow> bool \<Rightarrow> http_request" where
  "sendBatch ep key payload keepalive =
     \<lparr>rq_url = ep @ js ''/v1/record'',
      rq_method = js ''POST'',
      rq_headers = [(js ''Content-Type'', js ''application/json''), (js ''X-API-Key'', key)],
      rq_body = stringify (payload_json payload),
      rq_keepalive = keepalive\<rparr>"

definition payload_ok :: "BatchPayload \<Rightarrow> bool" where
  "payload_ok p \<longleftrightarrow> json_ok (pl_session_id p) \<and> json_ok (pl_identifier p)
     \<and> (pl_share_token p = JUndef \<or> json_ok (pl_share_token p))
     \<and> (case pl_client p of None \<Rightarrow> True | Some m \<Rightarrow> client_ok m)
     \<and> (\<forall>e\<in>set (pl_events p). event_ok e)"

lemma payload_values_ok:
  assumes "payload_ok p" and "payload_json p = JObj kvs" and "kv \<in> set kvs" and "snd kv \<noteq> JUndef"
  shows "json_ok (snd kv)"
proof -
  have "json_ok (JArr (map event_json (pl_events p)))"
    using assms(1) by (auto simp: payload_ok_def json_ok_event)
  moreover have "m = client_json c \<Longrightarrow> pl_client p = Some c \<Longrightarrow> json_ok m" for m c
    using assms(1) by (simp add: payload_ok_def json_ok_client)
  ultimately show ?thesis
    using assms
    by (auto simp: payload_ok_def payload_json_def opt_str_def split: option.splits)
qed

lemma payload_json_obj:
  obtains kvs where "payload_json p = JObj kvs" and "distinct (map fst kvs)"
  by (simp add: payload_json_def)

lemma payload_json_clean:
  assumes "payload_ok p"
  shows "json_ok (clean (payload_json p))"
proof -
  obtain kvs where p: "payload_json p = JObj kvs" "distinct (map fst kvs)"
    by (rule payload_json_obj)
  show ?thesis
    unfolding p(1)
    by (rule json_ok_clean_obj [OF p(2)]) (use payload_values_ok [OF assms p(1)] in \<open>simp add: json_ok_clean\<close>)
qed

lemma payload_field:
  assumes "payload_ok p"
  shows "js_get (clean (payload_json p)) k = js_get (payload_json p) k"
proof -
  obtain kvs where p: "payload_json p = JObj kvs" "distinct (map fst kvs)"
    by (rule payload_json_obj)
  have "clean v = v" if "map_of kvs k = Some v" "v \<noteq> JUndef" for v
    using payload_values_ok [OF assms p(1) map_of_SomeD [OF that(1)]] that(2) by (simp add: json_ok_clean)
  then show ?thesis
    unfolding p(1) js_get_clean_obj [OF p(2)] by (auto split: option.splits)
qed

text \<open>
  Property C18 (what the server receives). The body of the request, once parsed, has the batch's session
  identifier, trigger, share token, device metadata and events, in order; the
  properties that are \<open>undefined\<close> are absent.
\<close>

theorem batch_wire_round_trip:
  assumes "payload_ok p"
  shows "\<exists>v. json_parse (rq_body (sendBatch ep key p ka)) = Inr v
    \<and> js_get v (js ''session_id'') = Inr (pl_session_id p)
    \<and> js_get v (js ''identifier'') = Inr (pl_identifier p)
    \<and> js_get v (js ''trigger'') = Inr (JStr (trigger_str (pl_trigger p)))
    \<and> js_get v (js ''share_token'') = Inr (pl_share_token p)
    \<and> js_get v (js ''client'') = Inr (case pl_client p of None \<Rightarrow> JUndef | Some m \<Rightarrow> client_json m)
    \<and> js_get v (js ''events'') = Inr (JArr (map event_json (pl_events p)))"
proof -
  have "json_parse (rq_body (sendBatch ep key p ka)) = Inr (clean (payload_json p))"
    using json_round_trip_clean [OF payload_json_clean [OF assms]] by (simp add: sendBatch_def)
  then show ?thesis
    by (simp add: payload_field [OF assms]) (simp add: payload_json_def)
qed

definition demo_payload :: BatchPayload where
  "demo_payload = \<lparr>pl_session_id = jstr ''s1'', pl_identifier = jstr ''jane'', pl_service_name = js ''web'',
     pl_environment = js ''test'', pl_bat_session_id = None, pl_trigger = Manual,
     pl_share_token = JUndef, pl_client = None,
     pl_events = [\<lparr>ev_type = 2, ev_data = JObj [], ev_timestamp = 1000\<rparr>]\<rparr>"

theorem batch_wire_round_trip_witness:
  "payload_ok demo_payload \<and>
   (\<exists>v. json_parse (rq_body (sendBatch (js ''http://w'') (js ''rew_x'') demo_payload True)) = Inr v
     \<and> js_get v (js ''share_token'') = Inr JUndef
     \<and> js_get v (js ''events'') = Inr (JArr [event_json \<lparr>ev_type = 2, ev_data = JObj [], ev_timestamp = 1000\<rparr>]))"
proof -
  have ok: "payload_ok demo_payload"
    by (simp add: payload_ok_def demo_payload_def event_ok_def)
  from batch_wire_round_trip [OF ok, of "js ''http://w''" "js ''rew_x''" True] ok show ?thesis
    by (auto simp: demo_payload_def)
qed

end
