(* ===== verification/SdkWidget.thy ===== *)
theory SdkWidget
  imports SdkTypes
begin

text \<open>
  The floating report button (\<open>packages/browser/src/widget.ts\<close>). The state is what the
  closure of \<open>mountWidget\<close> keeps: whether the host element is in the page, the toast
  element, whether the button is hidden, the timeouts that are pending, and the texts
  given to the style element, the button and the toast.
\<close>

record WidgetOptions =
  wo_position :: position
  wo_color :: jsstr
  wo_label :: "jsstr option"

record toast =
  to_url :: jsstr
  to_html :: jsstr
  to_copy :: jsstr

record widget =
  wg_style :: jsstr
  wg_button :: jsstr
  wg_attached :: bool
  wg_toast :: "toast option"
  wg_hidden :: bool
  wg_timers :: "int list"

fun POSITIONS :: "position \<Rightarrow> jsstr" where
  "POSITIONS BottomRight = js ''bottom:24px;right:24px;''"
| "POSITIONS BottomLeft = js ''bottom:24px;left:24px;''"
| "POSITIONS TopRight = js ''top:24px;right:24px;''"
| "POSITIONS TopLeft = js ''top:24px;left:24px;''"

text \<open>The text of the style sheet, of the button and of the toast, line by line.\<close>

definition widget_style :: "jsstr \<Rightarrow> jsstr \<Rightarrow> jsstr" where
  "widget_style anchor color = join [10]
    [[],
     js ''    :host { all: initial; }'',
     js ''    button {'',
     js ''      position: fixed;'',
     js ''      '' @ anchor,
     js ''      z-index: 2147483647;'',
     js ''      display: flex;'',
     js ''      align-items: center;'',
     js ''      gap: 6px;'',
     js ''      padding: 10px 16px;'',
     js ''      background: '' @ color @ js '';'',
     js ''      color: #fff;'',
     js ''      border: none;'',
     js ''      border-radius: 999px;'',
     js ''      font-family: -apple-system, BlinkMacSystemFont, 'Segoe UI', sans-serif;'',
     js ''      font-size: 13px;'',
     js ''      font-weight: 600;'',
     js ''      cursor: pointer;'',
     js ''      box-shadow: 0 4px 14px rgba(0,0,0,0.25);'',
     js ''      transition: opacity 0.2s, transform 0.2s;'',
     js ''      letter-spacing: 0.2px;'',
     js ''    }'',
     js ''    button:hover  { opacity: 0.9; transform: scale(1.04); }'',
     js ''    button:active { opacity: 0.8; transform: scale(0.97); }'',
     js ''    svg { flex-shrink: 0; }'',
     [],
     js ''    .toast {'',
     js ''      position: fixed;'',
     js ''      '' @ anchor,
     js ''      z-index: 2147483647;'',
     js ''      width: 300px;'',
     js ''      padding: 14px;'',
     js ''      background: #1e2130;'',
     js ''      color: #e2e8f0;'',
     js ''      border: 1px solid #2d3350;'',
     js ''      border-radius: 12px;'',
     js ''      font-family: -apple-system, BlinkMacSystemFont, 'Segoe UI', sans-serif;'',
     js ''      box-shadow: 0 8px 28px rgba(0,0,0,0.4);'',
     js ''    }'',
     js ''    .toast__title { font-size: 13px; font-weight: 600; margin-bottom: 8px; }'',
     js ''    .toast__row { display: flex; gap: 6px; }'',
     js ''    .toast__link {'',
     js ''      flex: 1; min-width: 0;'',
     js ''      padding: 7px 9px;'',
     js ''      background: #0f1117;'',
     js ''      border: 1px solid #2d3350;'',
     js ''      border-radius: 7px;'',
     js ''      font-size: 11px; color: #94a3b8;'',
     js ''      white-space: nowrap; overflow: hidden; text-overflow: ellipsis;'',
     js ''    }'',
     js ''    .toast__copy {'',
     js ''      position: static;'',
     js ''      padding: 7px 12px;'',
     js ''      background: '' @ color @ js '';'',
     js ''      border-radius: 7px;'',
     js ''      font-size: 12px; font-weight: 600;'',
     js ''      box-shadow: none;'',
     js ''    }'',
     js ''    .toast__hint { margin-top: 8px; font-size: 11px; color: #64748b; }'',
     js ''  '']"

definition button_html :: "jsstr \<Rightarrow> jsstr" where
  "button_html label = join [10]
    [[],
     js ''    <svg width=\"14\" height=\"14\" viewBox=\"0 0 24 24\" fill=\"none\" stroke=\"currentColor\" stroke-width=\"2.5\" stroke-linecap=\"round\" stroke-linejoin=\"round\">'',
     js ''      <path d=\"M10.29 3.86L1.82 18a2 2 0 001.71 3h16.94a2 2 0 001.71-3L13.71 3.86a2 2 0 00-3.42 0z\"/>'',
     js ''      <line x1=\"12\" y1=\"9\" x2=\"12\" y2=\"13\"/><line x1=\"12\" y1=\"17\" x2=\"12.01\" y2=\"17\"/>'',
     js ''    </svg>'',
     js ''    '' @ label,
     js ''  '']"

definition toast_html :: "jsstr \<Rightarrow> jsstr" where
  "toast_html url = join [10]
    [[],
     js ''      <div class=\"toast__title\">Replay saved '' @ [0x2713] @ js ''</div>'',
     js ''      <div class=\"toast__row\">'',
     js ''        <div class=\"toast__link\" title=\"'' @ url @ js ''\">'' @ url @ js ''</div>'',
     js ''        <button class=\"toast__copy\" type=\"button\">Copy</button>'',
     js ''      </div>'',
     js ''      <div class=\"toast__hint\">Send this link so anyone can watch the replay.</div>'',
     js ''    '']"

definition TOAST_MS :: int where
  "TOAST_MS = 8000"

text \<open>
  \<open>document.body.appendChild(host)\<close> throws when there is no body yet, as in a script
  that runs from the document's head.
\<close>

definition mountWidget :: "bool \<Rightarrow> WidgetOptions \<Rightarrow> widget res" where
  "mountWidget has_body opts =
     (if has_body
      then Inr \<lparr>wg_style = widget_style (POSITIONS (wo_position opts)) (wo_color opts),
                wg_button = button_html (or_default (wo_label opts) (js ''Report issue'')),
                wg_attached = True, wg_toast = None, wg_hidden = False, wg_timers = []\<rparr>
      else Inl TypeError)"

definition showToast :: "int \<Rightarrow> jsstr \<Rightarrow> widget \<Rightarrow> widget" where
  "showToast now url w =
     w\<lparr>wg_toast := Some \<lparr>to_url = url, to_html = toast_html url, to_copy = js ''Copy''\<rparr>,
       wg_hidden := True,
       wg_timers := wg_timers w @ [now + TOAST_MS]\<rparr>"

text \<open>The click handler, given what \<open>onReport()\<close> returned: nothing, or a link.\<close>

definition button_click :: "int \<Rightarrow> jsstr option \<Rightarrow> widget \<Rightarrow> widget" where
  "button_click now result w =
     (case result of
        None \<Rightarrow> w
      | Some url \<Rightarrow> if url \<noteq> [] then showToast now url w else w)"

text \<open>The copy button: the clipboard accepts the text or refuses it, before the toast changes.\<close>

definition copy_click :: "bool \<Rightarrow> widget \<Rightarrow> widget" where
  "copy_click ok w =
     w\<lparr>wg_toast := map_option (\<lambda>t. t\<lparr>to_copy := (if ok then js ''Copied'' else js ''Copy failed'')\<rparr>)
        (wg_toast w)\<rparr>"

text \<open>The callback of a timeout: whichever toast is up by then goes.\<close>

definition toast_timeout :: "int \<Rightarrow> widget \<Rightarrow> widget" where
  "toast_timeout due w =
     w\<lparr>wg_timers := remove1 due (wg_timers w), wg_toast := None, wg_hidden := False\<rparr>"

definition unmount :: "widget \<Rightarrow> widget" where
  "unmount w = w\<lparr>wg_attached := False\<rparr>"


section \<open>Runs of the widget\<close>

inductive widget_step :: "widget \<Rightarrow> widget \<Rightarrow> bool" where
  click: "wg_attached w \<Longrightarrow> widget_step w (button_click now result w)"
| copy: "wg_toast w \<noteq> None \<Longrightarrow> widget_step w (copy_click ok w)"
| timeout: "due \<in> set (wg_timers w) \<Longrightarrow> widget_step w (toast_timeout due w)"
| unmounted: "widget_step w (unmount w)"

definition widget_init :: "widget \<Rightarrow> bool" where
  "widget_init w \<longleftrightarrow> (\<exists>b opts. mountWidget b opts = Inr w)"

text \<open>
  The button is hidden exactly while a toast is up, and a toast that is up has a
  timeout that will take it down.
\<close>

definition widget_inv :: "widget \<Rightarrow> bool" where
  "widget_inv w \<longleftrightarrow> (wg_hidden w \<longleftrightarrow> wg_toast w \<noteq> None) \<and> (wg_toast w \<noteq> None \<longrightarrow> wg_timers w \<noteq> [])"

lemmas widget_ops = button_click_def showToast_def copy_click_def toast_timeout_def unmount_def

interpretation widget: invariant_system widget_init widget_step widget_inv
proof unfold_locales
  fix w
  assume "widget_init w"
  then show "widget_inv w"
    by (auto simp: widget_init_def mountWidget_def widget_inv_def split: if_splits)
next
  fix w w'
  assume i: "widget_inv w" and "widget_step w w'"
  from this(2) i show "widget_inv w'"
    by cases (auto simp: widget_inv_def widget_ops split: option.splits)
qed

text \<open>Letting the pending timeouts fire, oldest first.\<close>

definition fire_timeouts :: "widget \<Rightarrow> widget" where
  "fire_timeouts w = fold toast_timeout (wg_timers w) w"


lemma fold_timeouts:
  "fold toast_timeout ds w =
     (if ds = [] then w
      else w\<lparr>wg_timers := fold remove1 ds (wg_timers w), wg_toast := None, wg_hidden := False\<rparr>)"
  by (induction ds arbitrary: w) (auto simp: toast_timeout_def)

lemma fold_remove1_self: "fold remove1 ds (ds @ es) = es"
  by (induction ds) simp_all

text \<open>
  Property C36 (the button comes back). In every state the widget reaches from mounting, by any sequence of
  clicks, copies, timeouts and unmounting, the button is hidden exactly while a toast
  is up, and once the pending timeouts have fired the toast is gone, the button is
  visible and nothing is pending: the widget cannot get stuck without its button.
\<close>

theorem widget_button_returns:
  assumes "mountWidget b opts = Inr w0" and "widget_step\<^sup>*\<^sup>* w0 w"
  shows "(wg_hidden w \<longleftrightarrow> wg_toast w \<noteq> None)
    \<and> \<not> wg_hidden (fire_timeouts w) \<and> wg_toast (fire_timeouts w) = None
    \<and> wg_timers (fire_timeouts w) = []"
proof -
  have "widget_init w0" using assms(1) by (auto simp: widget_init_def)
  from widget.reachable_inv [OF this assms(2)] have "widget_inv w" .
  then show ?thesis
    using fold_remove1_self [of "wg_timers w" "[]"]
    by (auto simp: widget_inv_def fire_timeouts_def fold_timeouts)
qed

definition demo_options :: WidgetOptions where
  "demo_options = \<lparr>wo_position = TopLeft, wo_color = js ''#818cf8'', wo_label = None\<rparr>"

theorem widget_button_returns_witness:
  "\<exists>w0 w. mountWidget True demo_options = Inr w0 \<and> widget_step\<^sup>*\<^sup>* w0 w \<and> wg_hidden w
     \<and> \<not> wg_hidden (fire_timeouts w)"
proof -
  obtain w0 where m: "mountWidget True demo_options = Inr w0" by (simp add: mountWidget_def)
  let ?w = "button_click 0 (Some (js ''http://d/share/t'')) w0"
  have "wg_attached w0" using m by (auto simp: mountWidget_def)
  then have s: "widget_step\<^sup>*\<^sup>* w0 ?w" by (blast intro: widget_step.click)
  have "wg_hidden ?w" by (simp add: button_click_def showToast_def)
  with widget_button_returns [OF m s] m s show ?thesis by blast
qed

end
