(* ===== verification/Recorder.thy ===== *)
theory Recorder
  imports SdkSession SdkTransport SdkWidget "HOL-Library.While_Combinator"
begin

text \<open>
  The recorder (\<open>packages/browser/src/index.ts\<close>): the module's variables and the part
  of the browser they interact with (active recordings, intervals, listeners, mounted
  widgets, uploads handed to the transport), and one definition per function.

  \<open>rrweb\<close> is outside the sources: \<open>record(...)\<close> registers the callback it is given
  (here: with the options and the variables the callback closes over) and returns a
  function that unregisters it, or nothing (\<open>record_works\<close> is false). Which events it
  emits, and when, is the environment's choice. Handles of recordings, intervals and
  widgets are numbers. One handler reads the clock once.
\<close>

definition FLUSH_INTERVAL_MS :: int where "FLUSH_INTERVAL_MS = 5000"
definition FLUSH_MAX_BYTES :: int where "FLUSH_MAX_BYTES = 500000"
definition BUFFER_MS :: int where "BUFFER_MS = 120000"
definition CHECKOUT_EVERY_NMS :: int where "CHECKOUT_EVERY_NMS = 30000"

section \<open>State\<close>

record privacy =
  pv_maskAllInputs :: bool
  pv_maskTextClass :: "jsstr option"
  pv_maskTextSelector :: "jsstr option"
  pv_blockClass :: "jsstr option"
  pv_blockSelector :: "jsstr option"
  pv_ignoreClass :: "jsstr option"

text \<open>
  An active recording: which of the two callbacks it calls, the configuration and the
  variable \<open>firstSnapshot\<close> that callback closes over, and the options \<open>record\<close> was given
  (a console plugin is the list of levels it captures).
\<close>

record recording =
  rc_buffered :: bool
  rc_config :: BatRewindConfig
  rc_firstSnapshot :: bool
  rc_privacy :: privacy
  rc_checkoutEveryNms :: "int option"
  rc_plugins :: "ConsoleLevel list list"

datatype listener = OnVisibilityChange | OnBeforeUnload | OnErrorEvent | OnUnhandledRejection

text \<open>The arguments of one call of \<open>sendBatch\<close>.\<close>

record sent_upload =
  up_endpoint :: jsstr
  up_apiKey :: jsstr
  up_payload :: BatchPayload
  up_keepalive :: bool

record sdk = browser +
  page_hidden :: bool
  has_body :: bool
  ambient_env :: ambient
  record_works :: bool
  recordings :: "(nat \<times> recording) list"
  intervals :: "(nat \<times> int) list"
  listeners :: "listener set"
  widgets :: "(nat \<times> widget) list"
  next_handle :: nat
  sent :: "sent_upload list"
  m_config :: "BatRewindConfig option"
  m_sessionId :: jsval
  m_shareToken :: jsval
  m_stopRecording :: "nat option"
  m_unmountWidget :: "nat option"
  m_initialized :: bool
  m_clientMeta :: "ClientMeta option"
  m_clientMetaSent :: bool
  m_buffer :: "RawEvent list"
  m_flushTimer :: "nat option"
  m_segments :: "RawEvent list list"

definition bufferSize :: "RawEvent list \<Rightarrow> nat" where
  "bufferSize buf = utf8_len (stringify (JArr (map event_json buf)))"


section \<open>Uploading\<close>

definition isBuffered :: "sdk \<Rightarrow> bool" where
  "isBuffered st \<longleftrightarrow>
     (case m_config st of None \<Rightarrow> True | Some c \<Rightarrow> or_default (cfg_mode c) Buffered = Buffered)"

definition batch_of ::
    "BatRewindConfig \<Rightarrow> jsval \<Rightarrow> jsval \<Rightarrow> ClientMeta option \<Rightarrow> trigger \<Rightarrow> RawEvent list \<Rightarrow> BatchPayload"
where
  "batch_of c sid tok cl trig evs =
     \<lparr>pl_session_id = sid,
      pl_identifier = (case cfg_identifier c of Some i \<Rightarrow> JStr i | None \<Rightarrow> sid),
      pl_service_name = or_default (serviceName c) (or_default (service c) (js ''web'')),
      pl_environment = or_default (environment c) (js ''production''),
      pl_bat_session_id = batSessionId c,
      pl_trigger = trig,
      pl_share_token = js_or_else tok JUndef,
      pl_client = cl,
      pl_events = evs\<rparr>"

definition upload :: "RawEvent list \<Rightarrow> trigger \<Rightarrow> bool \<Rightarrow> sdk \<Rightarrow> sdk" where
  "upload evs trig keepalive st =
     (case m_config st of
        None \<Rightarrow> st
      | Some c \<Rightarrow>
          if \<not> truthy (m_sessionId st) then st
          else
            (let cl = (if m_clientMetaSent st then None else m_clientMeta st);
                 st1 = st\<lparr>sent := sent st @
                   [\<lparr>up_endpoint = endpoint c, up_apiKey = apiKey c,
                     up_payload = batch_of c (m_sessionId st) (m_shareToken st) cl trig evs,
                     up_keepalive = keepalive\<rparr>]\<rparr>
             in if cl \<noteq> None then st1\<lparr>m_clientMetaSent := True\<rparr> else st1))"

definition flush :: "bool \<Rightarrow> bool \<Rightarrow> sdk \<Rightarrow> sdk" where
  "flush force keepalive st =
     (case m_config st of
        None \<Rightarrow> st
      | Some c \<Rightarrow>
          if \<not> truthy (m_sessionId st) \<or> m_buffer st = [] then st
          else if \<not> force \<and> int (bufferSize (m_buffer st)) < or_default (flushMaxBytes c) FLUSH_MAX_BYTES
          then st
          else upload (m_buffer st) Stream keepalive (st\<lparr>m_buffer := []\<rparr>))"

text \<open>The loop of \<open>pruneSegments\<close>, on the segments and the cutoff.\<close>

fun prune :: "int \<Rightarrow> RawEvent list list \<Rightarrow> RawEvent list list" where
  "prune cutoff (s1 # s2 # rest) =
     (case s2 of
        [] \<Rightarrow> s1 # s2 # rest
      | e # _ \<Rightarrow> if ev_timestamp e \<le> cutoff then prune cutoff (s2 # rest) else s1 # s2 # rest)"
| "prune cutoff segs = segs"

text \<open>
  The same loop as it is written: while there are two segments, test the first event of the
  second one, and shift or break.
\<close>

definition prunable :: "int \<Rightarrow> RawEvent list list \<Rightarrow> bool" where
  "prunable cutoff segs \<longleftrightarrow>
     1 < length segs \<and> (case segs ! 1 of [] \<Rightarrow> False | e # _ \<Rightarrow> ev_timestamp e \<le> cutoff)"

definition prune_loop :: "int \<Rightarrow> RawEvent list list \<Rightarrow> RawEvent list list option" where
  "prune_loop cutoff segs = while_option (prunable cutoff) tl segs"

definition buffer_ms :: "sdk \<Rightarrow> int" where
  "buffer_ms st = (case m_config st of None \<Rightarrow> BUFFER_MS | Some c \<Rightarrow> or_default (bufferMs c) BUFFER_MS)"

definition pruneSegments :: "sdk \<Rightarrow> sdk" where
  "pruneSegments st = st\<lparr>m_segments := prune (clock st - buffer_ms st) (m_segments st)\<rparr>"

definition uploadBuffer :: "trigger \<Rightarrow> bool \<Rightarrow> sdk \<Rightarrow> sdk" where
  "uploadBuffer trig keepalive st =
     (if m_config st = None \<or> \<not> truthy (m_sessionId st) then st
      else (let evs = concat (m_segments st)
            in if evs = [] then st else upload evs trig keepalive st))"

definition shareUrl :: "sdk \<Rightarrow> jsstr res" where
  "shareUrl st =
     (let base = strip_slash
            (case m_config st of None \<Rightarrow> [] | Some c \<Rightarrow> or_default (shareBaseUrl c) (endpoint c))
      in bindR (js_String (js_or_else (m_shareToken st) (JStr [])))
           (\<lambda>t. Inr (base @ js ''/share/'' @ t)))"


section \<open>Options for the recording\<close>

definition buildPlugins :: "BatRewindConfig \<Rightarrow> ConsoleLevel list list" where
  "buildPlugins c =
     (case captureConsole c of
        None \<Rightarrow> []
      | Some (CaptureAll False) \<Rightarrow> []
      | Some (CaptureAll True) \<Rightarrow> [[LLog, LInfo, LWarn, LError]]
      | Some (CaptureLevels ls) \<Rightarrow> [ls])"

definition privacyOptions :: "BatRewindConfig \<Rightarrow> privacy" where
  "privacyOptions c =
     \<lparr>pv_maskAllInputs = or_default (maskInputs c) True,
      pv_maskTextClass = maskTextClass c,
      pv_maskTextSelector = maskTextSelector c,
      pv_blockClass = blockClass c,
      pv_blockSelector = blockSelector c,
      pv_ignoreClass = ignoreClass c\<rparr>"


section \<open>Listeners\<close>

definition onVisibilityChange :: "sdk \<Rightarrow> sdk" where
  "onVisibilityChange st = (if page_hidden st \<and> \<not> isBuffered st then flush True True st else st)"

definition onBeforeUnload :: "sdk \<Rightarrow> sdk" where
  "onBeforeUnload st = (if \<not> isBuffered st then flush True True st else st)"

definition onError :: "sdk \<Rightarrow> sdk" where
  "onError st =
     (if (case m_config st of None \<Rightarrow> True | Some c \<Rightarrow> captureOnError c \<noteq> Some False)
      then uploadBuffer ErrorTrigger True st else st)"


section \<open>The callbacks given to the recording\<close>

definition push_last :: "RawEvent \<Rightarrow> RawEvent list list \<Rightarrow> RawEvent list list" where
  "push_last e segs = (if segs = [] then [] else butlast segs @ [last segs @ [e]])"

definition emit_buffered :: "RawEvent \<Rightarrow> bool \<Rightarrow> sdk \<Rightarrow> sdk" where
  "emit_buffered raw isCheckout st =
     (if isCheckout \<or> m_segments st = []
      then pruneSegments (st\<lparr>m_segments := m_segments st @ [[raw]]\<rparr>)
      else st\<lparr>m_segments := push_last raw (m_segments st)\<rparr>)"

definition set_snapshot_seen :: "nat \<Rightarrow> (nat \<times> recording) list \<Rightarrow> (nat \<times> recording) list" where
  "set_snapshot_seen h rs =
     map (\<lambda>hr. if fst hr = h then (fst hr, (snd hr)\<lparr>rc_firstSnapshot := False\<rparr>) else hr) rs"

definition emit_always :: "nat \<Rightarrow> recording \<Rightarrow> RawEvent \<Rightarrow> sdk \<Rightarrow> sdk" where
  "emit_always h rc raw st =
     (if ev_type raw = 2 \<and> rc_firstSnapshot rc
      then upload [raw] Stream False (st\<lparr>recordings := set_snapshot_seen h (recordings st)\<rparr>)
      else
        (let st1 = st\<lparr>m_buffer := m_buffer st @ [raw]\<rparr>
         in if or_default (flushMaxBytes (rc_config rc)) FLUSH_MAX_BYTES \<le> int (bufferSize (m_buffer st1))
            then flush True False st1 else st1))"

definition emit :: "nat \<Rightarrow> RawEvent \<Rightarrow> bool \<Rightarrow> sdk \<Rightarrow> sdk" where
  "emit h raw isCheckout st =
     (case map_of (recordings st) h of
        None \<Rightarrow> st
      | Some rc \<Rightarrow> if rc_buffered rc then emit_buffered raw isCheckout st else emit_always h rc raw st)"


section \<open>The public interface\<close>

text \<open>\<open>record({...})\<close>\<close>

definition start_recording :: "recording \<Rightarrow> sdk \<Rightarrow> sdk" where
  "start_recording rc st =
     (if record_works st
      then st\<lparr>recordings := (next_handle st, rc) # recordings st, m_stopRecording := Some (next_handle st),
              next_handle := Suc (next_handle st)\<rparr>
      else st\<lparr>m_stopRecording := None\<rparr>)"

definition start_buffered :: "BatRewindConfig \<Rightarrow> sdk \<Rightarrow> sdk" where
  "start_buffered c st =
     (let st1 = start_recording
            \<lparr>rc_buffered = True, rc_config = c, rc_firstSnapshot = True, rc_privacy = privacyOptions c,
             rc_checkoutEveryNms = Some (or_default (checkoutEveryNms c) CHECKOUT_EVERY_NMS),
             rc_plugins = buildPlugins c\<rparr> st
      in if captureOnError c \<noteq> Some False
         then st1\<lparr>listeners := listeners st1 \<union> {OnErrorEvent, OnUnhandledRejection}\<rparr>
         else st1)"

definition start_always :: "BatRewindConfig \<Rightarrow> sdk \<Rightarrow> sdk" where
  "start_always c st =
     (let st1 = start_recording
            \<lparr>rc_buffered = False, rc_config = c, rc_firstSnapshot = True, rc_privacy = privacyOptions c,
             rc_checkoutEveryNms = None, rc_plugins = buildPlugins c\<rparr> st
      in st1\<lparr>intervals := (next_handle st1, or_default (flushIntervalMs c) FLUSH_INTERVAL_MS) # intervals st1,
             m_flushTimer := Some (next_handle st1),
             next_handle := Suc (next_handle st1),
             listeners := listeners st1 \<union> {OnVisibilityChange, OnBeforeUnload}\<rparr>)"

definition mount :: "BatRewindConfig \<Rightarrow> sdk \<Rightarrow> sdk \<times> unit res" where
  "mount c st =
     (if showWidget c = Some False then (st, Inr ())
      else (case mountWidget (has_body st)
                   \<lparr>wo_position = or_default (widgetPosition c) BottomRight,
                    wo_color = or_default (widgetColor c) (js ''#818cf8''),
                    wo_label = widgetLabel c\<rparr> of
              Inl e \<Rightarrow> (st, Inl e)
            | Inr w \<Rightarrow>
                (st\<lparr>widgets := (next_handle st, w) # widgets st,
                    m_unmountWidget := Some (next_handle st),
                    next_handle := Suc (next_handle st)\<rparr>, Inr ())))"

definition init :: "(nat \<Rightarrow> jsstr) \<Rightarrow> BatRewindConfig \<Rightarrow> sdk \<Rightarrow> sdk \<times> unit res" where
  "init uuid c st =
     (if m_initialized st then (st, Inr ())
      else
        (case getOrCreateSession uuid (st\<lparr>m_initialized := True, m_config := Some c\<rparr>) of
           (st1, Inl e) \<Rightarrow> (st1, Inl e)
         | (st1, Inr h) \<Rightarrow>
             (let st2 = st1\<lparr>m_sessionId := h_id h, m_shareToken := h_shareToken h,
                    m_clientMeta := (if captureClientMetadata c = Some False then None
                                     else Some (collectClientMeta (ambient_env st1))),
                    m_clientMetaSent := False\<rparr>;
                  st3 = (if isBuffered st2 then start_buffered c st2 else start_always c st2)
              in mount c st3)))"

definition identify :: "jsstr \<Rightarrow> sdk \<Rightarrow> sdk" where
  "identify i st =
     (case m_config st of None \<Rightarrow> st | Some c \<Rightarrow> st\<lparr>m_config := Some (c\<lparr>cfg_identifier := Some i\<rparr>)\<rparr>)"

definition report :: "sdk \<Rightarrow> sdk \<times> ReportResult res" where
  "report st =
     (let st1 = (if isBuffered st then uploadBuffer Manual False st else flush True False st)
      in (st1, bindR (shareUrl st1) (\<lambda>url.
            Inr \<lparr>rr_sessionId = js_or_else (m_sessionId st1) (JStr []),
                 rr_shareToken = js_or_else (m_shareToken st1) (JStr []),
                 rr_shareUrl = url\<rparr>)))"

definition drop_handle :: "nat option \<Rightarrow> (nat \<times> 'a) list \<Rightarrow> (nat \<times> 'a) list" where
  "drop_handle h xs = (case h of None \<Rightarrow> xs | Some n \<Rightarrow> filter (\<lambda>x. fst x \<noteq> n) xs)"

definition stop :: "sdk \<Rightarrow> sdk" where
  "stop st =
     (let st1 = st\<lparr>intervals := drop_handle (m_flushTimer st) (intervals st),
                   recordings := drop_handle (m_stopRecording st) (recordings st),
                   widgets := drop_handle (m_unmountWidget st) (widgets st),
                   listeners := listeners st - {OnVisibilityChange, OnBeforeUnload, OnErrorEvent, OnUnhandledRejection}\<rparr>;
          st2 = (if \<not> isBuffered st1 then flush True False st1 else st1)
      in st2\<lparr>m_initialized := False, m_config := None, m_sessionId := JNull, m_shareToken := JNull,
             m_buffer := [], m_segments := [], m_clientMeta := None, m_clientMetaSent := False\<rparr>)"


section \<open>What the browser and the host application do to the recorder\<close>

datatype sdk_op =
    Init BatRewindConfig
  | Emit nat RawEvent bool
  | IntervalFires nat
  | VisibilityChanges bool
  | BeforeUnload
  | WindowError
  | UnhandledRejection
  | Report
  | WidgetClick nat
  | Identify jsstr
  | Stop
  | ClockTo int

definition on_listener :: "listener \<Rightarrow> (sdk \<Rightarrow> sdk) \<Rightarrow> sdk \<Rightarrow> sdk" where
  "on_listener l f st = (if l \<in> listeners st then f st else st)"

text \<open>A click on the button of a mounted widget: \<open>report()\<close>, then the toast.\<close>

definition widget_click :: "nat \<Rightarrow> sdk \<Rightarrow> sdk" where
  "widget_click h st =
     (if h \<notin> fst ` set (widgets st) then st
      else (case report st of
              (st1, Inl _) \<Rightarrow> st1
            | (st1, Inr r) \<Rightarrow>
                st1\<lparr>widgets := map (\<lambda>hw. if fst hw = h
                      then (fst hw, button_click (clock st1) (Some (rr_shareUrl r)) (snd hw)) else hw)
                      (widgets st1)\<rparr>))"

fun exec :: "(nat \<Rightarrow> jsstr) \<Rightarrow> sdk_op \<Rightarrow> sdk \<Rightarrow> sdk" where
  "exec uuid (Init c) st = fst (init uuid c st)"
| "exec uuid (Emit h e co) st = emit h e co st"
| "exec uuid (IntervalFires h) st = (if h \<in> fst ` set (intervals st) then flush True False st else st)"
| "exec uuid (VisibilityChanges hid) st =
     on_listener OnVisibilityChange onVisibilityChange (st\<lparr>page_hidden := hid\<rparr>)"
| "exec uuid BeforeUnload st = on_listener OnBeforeUnload onBeforeUnload st"
| "exec uuid WindowError st = on_listener OnErrorEvent onError st"
| "exec uuid UnhandledRejection st = on_listener OnUnhandledRejection onError st"
| "exec uuid Report st = fst (report st)"
| "exec uuid (WidgetClick h) st = widget_click h st"
| "exec uuid (Identify i) st = identify i st"
| "exec uuid Stop st = stop st"
| "exec uuid (ClockTo t) st = st\<lparr>clock := t\<rparr>"

definition run :: "(nat \<Rightarrow> jsstr) \<Rightarrow> sdk_op list \<Rightarrow> sdk \<Rightarrow> sdk" where
  "run uuid ops st = fold (exec uuid) ops st"

end
