(* ===== verification/RecorderFrame.thy ===== *)
theory RecorderFrame
  imports Recorder
begin

text \<open>
  What the recorder's operations leave alone, and what uploading and flushing do to the
  list of uploads: the facts shared by the theories on its two modes.
\<close>

section \<open>Frame conditions\<close>

lemma sdk_more_eq:
  fixes s t :: sdk
  assumes "browser.more s = browser.more t"
  shows "sent s = sent t" "recordings s = recordings t" "intervals s = intervals t"
    "listeners s = listeners t" "widgets s = widgets t" "next_handle s = next_handle t"
    "m_config s = m_config t" "m_buffer s = m_buffer t" "m_segments s = m_segments t"
    "m_initialized s = m_initialized t" "m_sessionId s = m_sessionId t"
    "m_stopRecording s = m_stopRecording t" "m_unmountWidget s = m_unmountWidget t"
    "m_flushTimer s = m_flushTimer t" "has_body s = has_body t" "record_works s = record_works t"
    "ambient_env s = ambient_env t"
  using assms by (cases s; cases t; simp)+

lemmas session_frame = sdk_more_eq [OF getOrCreateSession_more]

lemma upload_frame [sdk_frame, simp]:
  "m_config (upload evs tr ka st) = m_config st"
  "m_sessionId (upload evs tr ka st) = m_sessionId st"
  "m_shareToken (upload evs tr ka st) = m_shareToken st"
  "m_buffer (upload evs tr ka st) = m_buffer st"
  "m_segments (upload evs tr ka st) = m_segments st"
  "m_initialized (upload evs tr ka st) = m_initialized st"
  "m_clientMeta (upload evs tr ka st) = m_clientMeta st"
  "m_stopRecording (upload evs tr ka st) = m_stopRecording st"
  "m_unmountWidget (upload evs tr ka st) = m_unmountWidget st"
  "m_flushTimer (upload evs tr ka st) = m_flushTimer st"
  "recordings (upload evs tr ka st) = recordings st"
  "intervals (upload evs tr ka st) = intervals st"
  "listeners (upload evs tr ka st) = listeners st"
  "widgets (upload evs tr ka st) = widgets st"
  "clock (upload evs tr ka st) = clock st"
  by (simp_all add: upload_def Let_def split: option.split)

lemma flush_frame [sdk_frame, simp]:
  "m_config (flush f ka st) = m_config st"
  "m_sessionId (flush f ka st) = m_sessionId st"
  "m_shareToken (flush f ka st) = m_shareToken st"
  "m_segments (flush f ka st) = m_segments st"
  "m_initialized (flush f ka st) = m_initialized st"
  "m_clientMeta (flush f ka st) = m_clientMeta st"
  "m_stopRecording (flush f ka st) = m_stopRecording st"
  "m_unmountWidget (flush f ka st) = m_unmountWidget st"
  "m_flushTimer (flush f ka st) = m_flushTimer st"
  "recordings (flush f ka st) = recordings st"
  "intervals (flush f ka st) = intervals st"
  "listeners (flush f ka st) = listeners st"
  "widgets (flush f ka st) = widgets st"
  "clock (flush f ka st) = clock st"
  by (simp_all add: flush_def split: option.split)

lemma uploadBuffer_frame [sdk_frame, simp]:
  "m_config (uploadBuffer tr ka st) = m_config st"
  "m_sessionId (uploadBuffer tr ka st) = m_sessionId st"
  "m_shareToken (uploadBuffer tr ka st) = m_shareToken st"
  "m_buffer (uploadBuffer tr ka st) = m_buffer st"
  "m_segments (uploadBuffer tr ka st) = m_segments st"
  "m_initialized (uploadBuffer tr ka st) = m_initialized st"
  "m_clientMeta (uploadBuffer tr ka st) = m_clientMeta st"
  "m_stopRecording (uploadBuffer tr ka st) = m_stopRecording st"
  "m_unmountWidget (uploadBuffer tr ka st) = m_unmountWidget st"
  "m_flushTimer (uploadBuffer tr ka st) = m_flushTimer st"
  "recordings (uploadBuffer tr ka st) = recordings st"
  "intervals (uploadBuffer tr ka st) = intervals st"
  "listeners (uploadBuffer tr ka st) = listeners st"
  "widgets (uploadBuffer tr ka st) = widgets st"
  "clock (uploadBuffer tr ka st) = clock st"
  by (simp_all add: uploadBuffer_def Let_def)

text \<open>Events handed to the transport, in the order of the uploads.\<close>

definition events_of :: "sent_upload list \<Rightarrow> RawEvent list" where
  "events_of us = concat (map (\<lambda>u. pl_events (up_payload u)) us)"

lemma events_of_grows: "prefix us vs \<Longrightarrow> prefix (events_of us) (events_of vs)"
  by (auto simp: prefix_def events_of_def)

lemma upload_grows: "prefix (sent st) (sent (upload evs tr ka st))"
  by (simp add: upload_def Let_def split: option.split)

lemma flush_grows: "prefix (sent st) (sent (flush f ka st))"
  using upload_grows [of "st\<lparr>m_buffer := []\<rparr>"] by (auto simp: flush_def split: option.split)

lemma uploadBuffer_grows: "prefix (sent st) (sent (uploadBuffer tr ka st))"
  by (simp add: uploadBuffer_def Let_def upload_grows)

lemma start_sent [simp]:
  "sent (start_recording rc st) = sent st"
  "sent (start_buffered c st) = sent st" "sent (start_always c st) = sent st"
  "sent (fst (mount c st)) = sent st"
  by (simp_all add: start_recording_def start_buffered_def start_always_def mount_def Let_def
      split: sum.split)

lemma init_sent: "sent (fst (init uuid c st)) = sent st"
proof (cases "m_initialized st")
  case True
  then show ?thesis by (simp add: init_def)
next
  case False
  obtain st1 r where r: "getOrCreateSession uuid (st\<lparr>m_initialized := True, m_config := Some c\<rparr>) = (st1, r)"
    by fastforce
  have "sent st1 = sent st" using session_frame(1) [OF r] by simp
  with False r show ?thesis by (cases r) (simp_all add: init_def Let_def)
qed

lemma emit_grows: "prefix (sent st) (sent (emit h e co st))"
  using upload_grows [of "st\<lparr>recordings := set_snapshot_seen h (recordings st)\<rparr>" "[e]" Stream False]
    flush_grows [of "st\<lparr>m_buffer := m_buffer st @ [e]\<rparr>" True False]
  by (auto simp: emit_def emit_buffered_def emit_always_def pruneSegments_def Let_def split: option.splits)

lemma report_grows: "prefix (sent st) (sent (fst (report st)))"
  by (simp add: report_def Let_def uploadBuffer_grows flush_grows)

lemma widget_click_cases:
  obtains "widget_click h st = st" | "widget_click h st = fst (report st)"
  | ws where "widget_click h st = (fst (report st))\<lparr>widgets := ws\<rparr>"
proof (cases "h \<in> fst ` set (widgets st)")
  case False
  then show ?thesis using that(1) by (simp add: widget_click_def)
next
  case True
  obtain st1 r where r: "report st = (st1, r)" by fastforce
  show ?thesis
  proof (cases r)
    case (Inl e)
    with True r show ?thesis using that(2) by (simp add: widget_click_def)
  next
    case (Inr x)
    with True r show ?thesis using that(3) by (simp add: widget_click_def)
  qed
qed

text \<open>No operation takes an upload back.\<close>

lemma exec_grows: "prefix (sent st) (sent (exec uuid op st))"
proof (cases op)
  case (WidgetClick h)
  then show ?thesis
    using report_grows [of st] by (cases rule: widget_click_cases [of h st]) simp_all
next
  case (VisibilityChanges hid)
  then show ?thesis
    using flush_grows [of "st\<lparr>page_hidden := True\<rparr>"]
    by (cases hid) (simp_all add: on_listener_def onVisibilityChange_def)
next
  case Stop
  then show ?thesis
    using flush_grows [of "st\<lparr>intervals := drop_handle (m_flushTimer st) (intervals st),
                   recordings := drop_handle (m_stopRecording st) (recordings st),
                   widgets := drop_handle (m_unmountWidget st) (widgets st),
                   listeners := listeners st - {OnVisibilityChange, OnBeforeUnload, OnErrorEvent, OnUnhandledRejection}\<rparr>"]
    by (simp add: stop_def Let_def)
next
  case (Identify i)
  then show ?thesis by (simp add: identify_def split: option.split)
qed (simp_all add: init_sent emit_grows flush_grows report_grows uploadBuffer_grows on_listener_def
      onBeforeUnload_def onError_def)

lemma events_of_simps [simp]:
  "events_of [] = []" "events_of (us @ vs) = events_of us @ events_of vs"
  "events_of [u] = pl_events (up_payload u)"
  by (simp_all add: events_of_def)

lemma upload_sent:
  assumes "m_config st = Some c" and "truthy (m_sessionId st)"
  shows "sent (upload evs tr ka st) = sent st @
    [\<lparr>up_endpoint = endpoint c, up_apiKey = apiKey c,
      up_payload = batch_of c (m_sessionId st) (m_shareToken st)
        (if m_clientMetaSent st then None else m_clientMeta st) tr evs,
      up_keepalive = ka\<rparr>]"
  using assms by (simp add: upload_def Let_def)

lemma upload_events:
  assumes "m_config st = Some c" and "truthy (m_sessionId st)"
  shows "events_of (sent (upload evs tr ka st)) = events_of (sent st) @ evs"
  by (simp add: upload_sent [OF assms] batch_of_def)

text \<open>A forced flush moves the buffer into the uploads.\<close>

lemma flush_forced:
  assumes "m_config st = Some c" and "truthy (m_sessionId st)"
  shows "m_buffer (flush True ka st) = []"
    and "events_of (sent (flush True ka st)) = events_of (sent st) @ m_buffer st"
proof -
  have c: "m_config (st\<lparr>m_buffer := []\<rparr>) = Some c" "truthy (m_sessionId (st\<lparr>m_buffer := []\<rparr>))"
    using assms by simp_all
  show "m_buffer (flush True ka st) = []"
    and "events_of (sent (flush True ka st)) = events_of (sent st) @ m_buffer st"
    using assms by (simp_all add: flush_def upload_events [OF c])
qed


lemma init_takes_config:
  assumes "\<not> m_initialized st"
  shows "m_config (fst (init uuid d st)) = Some d"
proof -
  obtain st1 r where r: "getOrCreateSession uuid (st\<lparr>m_initialized := True, m_config := Some d\<rparr>) = (st1, r)"
    by fastforce
  have "m_config st1 = Some d" using session_frame(7) [OF r] by simp
  with r assms show ?thesis
    by (cases r) (simp_all add: init_def Let_def mount_def start_buffered_def start_always_def start_recording_def
        split: sum.split)
qed

lemma emit_settings:
  "m_config (emit h e co st) = m_config st" "m_initialized (emit h e co st) = m_initialized st"
  by (simp_all add: emit_def emit_buffered_def emit_always_def pruneSegments_def Let_def split: option.split)

lemma widget_click_settings:
  "m_config (widget_click h st) = m_config st" "m_initialized (widget_click h st) = m_initialized st"
  by (cases rule: widget_click_cases [of h st]; simp add: report_def Let_def)+

lemma run_snoc: "run uuid (ops @ [op]) st = exec uuid op (run uuid ops st)"
  by (simp add: run_def)

lemma run_Nil [simp]: "run uuid [] st = st"
  by (simp add: run_def)

lemma run_Cons: "run uuid (op # ops) st = run uuid ops (exec uuid op st)"
  by (simp add: run_def)

lemma run_append: "run uuid (xs @ ys) st = run uuid ys (run uuid xs st)"
  by (simp add: run_def)



section \<open>Concrete configurations and a concrete page\<close>

definition demo_config :: BatRewindConfig where
  "demo_config = \<lparr>endpoint = js ''http://w/'', apiKey = js ''rew_x'', serviceName = None, service = None,
     environment = None, cfg_identifier = None, batSessionId = None, shareBaseUrl = None,
     showWidget = None, widgetPosition = None, widgetColor = None, widgetLabel = None,
     maskInputs = None, captureClientMetadata = None, captureConsole = None, maskTextClass = None,
     maskTextSelector = None, blockClass = None, blockSelector = None, ignoreClass = None,
     cfg_mode = None, bufferMs = None, checkoutEveryNms = None, captureOnError = None,
     flushIntervalMs = None, flushMaxBytes = None\<rparr>"

definition demo_page :: sdk where
  "demo_page = \<lparr>clock = 1000, session_store = empty_storage, has_uuid = True, uuids_used = 0,
     page_hidden = False, has_body = True,
     ambient_env = \<lparr>amb_navigator = None, amb_screen = None, amb_window = None, time_zone = Inl RangeError\<rparr>,
     record_works = True, recordings = [], intervals = [], listeners = {}, widgets = [],
     next_handle = 0, sent = [], m_config = None, m_sessionId = JNull, m_shareToken = JNull,
     m_stopRecording = None, m_unmountWidget = None, m_initialized = False, m_clientMeta = None,
     m_clientMetaSent = False, m_buffer = [], m_flushTimer = None, m_segments = []\<rparr>"

definition demo_event :: "int \<Rightarrow> int \<Rightarrow> RawEvent" where
  "demo_event ty ts = \<lparr>ev_type = ty, ev_data = JObj [], ev_timestamp = ts\<rparr>"

text \<open>The first \<open>init\<close> in the concrete page, where the storage is empty.\<close>

lemma demo_session:
  "getOrCreateSession demo_uuid (demo_page\<lparr>m_initialized := True, m_config := Some c\<rparr>) =
     (demo_page\<lparr>uuids_used := 2, m_initialized := True, m_config := Some c,
        session_store := empty_storage\<lparr>st_items := [SESSION_KEY \<mapsto> stringify
          (session_json (JStr (demo_uuid 0)) (JStr (demo_uuid 1)) (1000 + SESSION_TTL_MS))]\<rparr>\<rparr>,
      Inr \<lparr>h_id = JStr (demo_uuid 0), h_shareToken = JStr (demo_uuid 1)\<rparr>)"
  by (simp add: getOrCreateSession_def try_resume_def getItem_def fresh_session_def generateId_def
      save_session_def setItem_def demo_page_def empty_storage_def)

end
