(* ===== verification/RecorderInv.thy ===== *)
theory RecorderInv
  imports RecorderFrame
begin

text \<open>
  The states the recorder reaches: what its module variables say about the recordings,
  intervals, listeners and widgets that are active in the page, and that \<open>stop\<close> leaves
  none of them behind.
\<close>

section \<open>The invariant\<close>

text \<open>The handle held in a module variable is the only one that can be active.\<close>

definition owned :: "nat option \<Rightarrow> (nat \<times> 'a) list \<Rightarrow> bool" where
  "owned h xs \<longleftrightarrow> xs = [] \<or> (\<exists>n x. h = Some n \<and> xs = [(n, x)])"

definition same_settings :: "BatRewindConfig \<Rightarrow> BatRewindConfig \<Rightarrow> bool" where
  "same_settings c d \<longleftrightarrow> c\<lparr>cfg_identifier := None\<rparr> = d\<lparr>cfg_identifier := None\<rparr>"

definition idle :: "sdk \<Rightarrow> bool" where
  "idle st \<longleftrightarrow> recordings st = [] \<and> intervals st = [] \<and> listeners st = {} \<and> widgets st = []
     \<and> m_config st = None \<and> m_sessionId st = JNull \<and> m_shareToken st = JNull
     \<and> m_buffer st = [] \<and> m_segments st = [] \<and> m_clientMeta st = None \<and> \<not> m_clientMetaSent st"

definition page_loaded :: "sdk \<Rightarrow> bool" where
  "page_loaded st \<longleftrightarrow> idle st \<and> \<not> m_initialized st \<and> sent st = []"

definition handles_inv :: "sdk \<Rightarrow> bool" where
  "handles_inv st \<longleftrightarrow> owned (m_stopRecording st) (recordings st)
     \<and> owned (m_flushTimer st) (intervals st) \<and> owned (m_unmountWidget st) (widgets st)"

definition settings_inv :: "sdk \<Rightarrow> bool" where
  "settings_inv st \<longleftrightarrow> (if m_initialized st
     then \<exists>c. m_config st = Some c \<and> (\<forall>hr\<in>set (recordings st).
            rc_buffered (snd hr) = isBuffered st \<and> same_settings (rc_config (snd hr)) c)
     else idle st)"

definition mode_inv :: "sdk \<Rightarrow> bool" where
  "mode_inv st \<longleftrightarrow> (if isBuffered st
     then m_buffer st = [] \<and> intervals st = [] \<and> listeners st \<subseteq> {OnErrorEvent, OnUnhandledRejection}
     else m_segments st = [] \<and> listeners st \<subseteq> {OnVisibilityChange, OnBeforeUnload})"

definition sdk_inv :: "sdk \<Rightarrow> bool" where
  "sdk_inv st \<longleftrightarrow> handles_inv st \<and> settings_inv st \<and> mode_inv st"

lemmas sdk_inv_defs = sdk_inv_def handles_inv_def settings_inv_def mode_inv_def

lemma owned_Nil [simp]: "owned h []"
  by (simp add: owned_def)

lemma owned_single [simp]: "owned (Some n) [(n, x)]"
  by (simp add: owned_def)

lemma owned_drop: "owned h xs \<Longrightarrow> drop_handle h xs = []"
  by (auto simp: owned_def drop_handle_def split: option.split)

lemma owned_map: "owned h xs \<Longrightarrow> (\<And>x. fst (f x) = fst x) \<Longrightarrow> owned h (map f xs)"
  by (auto simp: owned_def) (metis prod.exhaust_sel fst_conv)

lemma same_settings_refl [simp]: "same_settings c c"
  by (simp add: same_settings_def)

lemma same_settings_identify: "same_settings c d \<Longrightarrow> same_settings c (d\<lparr>cfg_identifier := i\<rparr>)"
  by (simp add: same_settings_def)

lemma same_settings_limit: "same_settings c d \<Longrightarrow> flushMaxBytes c = flushMaxBytes d"
  by (cases c; cases d; simp add: same_settings_def)

lemma isBuffered_update [simp]:
  "isBuffered (st\<lparr>widgets := ws\<rparr>) = isBuffered st"
  "isBuffered (st\<lparr>recordings := rs\<rparr>) = isBuffered st"
  "isBuffered (st\<lparr>m_segments := segs\<rparr>) = isBuffered st"
  "isBuffered (st\<lparr>m_buffer := buf\<rparr>) = isBuffered st"
  by (simp_all add: isBuffered_def)

text \<open>A change that leaves the fields the invariant reads alone keeps it.\<close>

lemma sdk_inv_cong:
  assumes "sdk_inv st"
    and "recordings st' = recordings st" "intervals st' = intervals st" "listeners st' = listeners st"
      "widgets st' = widgets st" "m_config st' = m_config st" "m_sessionId st' = m_sessionId st"
      "m_shareToken st' = m_shareToken st" "m_segments st' = m_segments st"
      "m_clientMeta st' = m_clientMeta st" "m_initialized st' = m_initialized st"
      "m_stopRecording st' = m_stopRecording st" "m_unmountWidget st' = m_unmountWidget st"
      "m_flushTimer st' = m_flushTimer st"
    and "m_buffer st' = m_buffer st \<or> m_buffer st' = []"
    and "m_initialized st \<or> m_clientMetaSent st' = m_clientMetaSent st"
  shows "sdk_inv st'"
proof -
  have b: "isBuffered st' = isBuffered st" using assms by (simp add: isBuffered_def)
  have "handles_inv st'" using assms by (simp add: sdk_inv_defs)
  moreover have "settings_inv st'"
    using assms b by (cases "m_initialized st") (auto simp: sdk_inv_def settings_inv_def idle_def)
  moreover have "mode_inv st'" using assms b by (auto simp: sdk_inv_def mode_inv_def)
  ultimately show ?thesis by (simp add: sdk_inv_def)
qed

lemma upload_uninit:
  "m_config st = None \<Longrightarrow> upload evs tr ka st = st"
  by (simp add: upload_def)

lemma sdk_inv_upload:
  assumes "sdk_inv st"
  shows "sdk_inv (upload evs tr ka st)"
proof (cases "m_initialized st")
  case True
  then show ?thesis by (intro sdk_inv_cong [OF assms]) simp_all
next
  case False
  with assms have "m_config st = None" by (simp add: sdk_inv_defs idle_def)
  with assms show ?thesis by (simp add: upload_uninit)
qed

lemma sdk_inv_clear_buffer: "sdk_inv st \<Longrightarrow> sdk_inv (st\<lparr>m_buffer := []\<rparr>)"
  by (erule sdk_inv_cong) simp_all

lemma sdk_inv_flush: "sdk_inv st \<Longrightarrow> sdk_inv (flush f ka st)"
  using sdk_inv_upload [OF sdk_inv_clear_buffer] by (auto simp: flush_def split: option.split)

lemma sdk_inv_uploadBuffer: "sdk_inv st \<Longrightarrow> sdk_inv (uploadBuffer tr ka st)"
  by (simp add: uploadBuffer_def Let_def sdk_inv_upload)

lemma sdk_inv_report: "sdk_inv st \<Longrightarrow> sdk_inv (fst (report st))"
  by (simp add: report_def Let_def sdk_inv_flush sdk_inv_uploadBuffer)


lemma sdk_inv_widgets:
  assumes "sdk_inv st" and "\<And>x. fst (f x) = fst x"
  shows "sdk_inv (st\<lparr>widgets := map f (widgets st)\<rparr>)"
  using assms by (cases "m_initialized st") (simp_all add: sdk_inv_defs idle_def owned_map)

lemma sdk_inv_widget_click: "sdk_inv st \<Longrightarrow> sdk_inv (widget_click h st)"
  using sdk_inv_report [of st]
  by (auto simp: widget_click_def intro!: sdk_inv_widgets split: prod.splits sum.splits)

lemma set_snapshot_seen_settings:
  assumes "\<forall>hr\<in>set rs. rc_buffered (snd hr) = b \<and> same_settings (rc_config (snd hr)) c"
  shows "\<forall>hr\<in>set (set_snapshot_seen h rs). rc_buffered (snd hr) = b \<and> same_settings (rc_config (snd hr)) c"
  using assms by (auto simp: set_snapshot_seen_def)

lemma sdk_inv_snapshot_seen:
  assumes "sdk_inv st"
  shows "sdk_inv (st\<lparr>recordings := set_snapshot_seen h (recordings st)\<rparr>)" (is "sdk_inv ?st")
proof -
  have "owned (m_stopRecording st) (set_snapshot_seen h (recordings st))"
    unfolding set_snapshot_seen_def using assms by (intro owned_map) (simp_all add: sdk_inv_defs)
  then have "handles_inv ?st" using assms by (simp add: sdk_inv_defs)
  moreover have "mode_inv ?st" using assms by (simp add: sdk_inv_def mode_inv_def)
  moreover have "settings_inv ?st"
  proof (cases "m_initialized st")
    case True
    with assms obtain c where c: "m_config st = Some c" "\<forall>hr\<in>set (recordings st).
        rc_buffered (snd hr) = isBuffered st \<and> same_settings (rc_config (snd hr)) c"
      by (auto simp: sdk_inv_def settings_inv_def)
    from set_snapshot_seen_settings [OF c(2), of h] c(1) True show ?thesis
      by (simp add: settings_inv_def)
  next
    case False
    with assms show ?thesis
      by (simp add: sdk_inv_def settings_inv_def idle_def set_snapshot_seen_def)
  qed
  ultimately show ?thesis by (simp add: sdk_inv_def)
qed

lemma recording_facts:
  assumes "sdk_inv st" and "map_of (recordings st) h = Some rc"
  shows "m_initialized st" and "rc_buffered rc = isBuffered st"
    and "\<exists>c. m_config st = Some c \<and> same_settings (rc_config rc) c"
proof -
  have m: "(h, rc) \<in> set (recordings st)" using assms(2) by (rule map_of_SomeD)
  then show i: "m_initialized st" using assms(1) by (cases "m_initialized st") (auto simp: sdk_inv_defs idle_def)
  show "rc_buffered rc = isBuffered st" and "\<exists>c. m_config st = Some c \<and> same_settings (rc_config rc) c"
    using assms(1) m i by (auto simp: sdk_inv_def settings_inv_def)
qed

lemma sdk_inv_segments:
  "sdk_inv st \<Longrightarrow> m_initialized st \<Longrightarrow> isBuffered st \<Longrightarrow> sdk_inv (st\<lparr>m_segments := segs\<rparr>)"
  by (simp add: sdk_inv_defs)

lemma sdk_inv_push:
  "sdk_inv st \<Longrightarrow> m_initialized st \<Longrightarrow> \<not> isBuffered st \<Longrightarrow> sdk_inv (st\<lparr>m_buffer := buf\<rparr>)"
  by (simp add: sdk_inv_defs)

lemma sdk_inv_emit:
  assumes "sdk_inv st"
  shows "sdk_inv (emit h e co st)"
proof (cases "map_of (recordings st) h")
  case None
  with assms show ?thesis by (simp add: emit_def)
next
  case (Some rc)
  note facts = recording_facts [OF assms Some]
  show ?thesis
  proof (cases "rc_buffered rc")
    case True
    with facts(1,2) Some show ?thesis
      by (simp add: emit_def emit_buffered_def pruneSegments_def sdk_inv_segments assms)
  next
    case False
    then have "sdk_inv (st\<lparr>m_buffer := m_buffer st @ [e]\<rparr>)"
      using facts(1,2) by (intro sdk_inv_push assms) simp_all
    with False Some show ?thesis
      by (simp add: emit_def emit_always_def Let_def sdk_inv_flush sdk_inv_upload
          sdk_inv_snapshot_seen assms)
  qed
qed


text \<open>\<open>stop\<close> returns the recorder to the state the page was loaded with, whatever was active.\<close>

lemma stop_idle:
  assumes "sdk_inv st"
  shows "idle (stop st)" and "\<not> m_initialized (stop st)"
proof -
  have "listeners st \<subseteq> {OnVisibilityChange, OnBeforeUnload, OnErrorEvent, OnUnhandledRejection}"
    by (auto intro: listener.exhaust)
  then show "idle (stop st)" and "\<not> m_initialized (stop st)"
    using assms by (simp_all add: stop_def Let_def idle_def sdk_inv_def handles_inv_def owned_drop)
qed

lemma sdk_inv_idle: "idle st \<Longrightarrow> \<not> m_initialized st \<Longrightarrow> sdk_inv st"
  by (simp add: sdk_inv_defs idle_def isBuffered_def)

lemma sdk_inv_identify: "sdk_inv st \<Longrightarrow> sdk_inv (identify i st)"
  by (cases "m_initialized st")
     (auto simp: identify_def sdk_inv_defs idle_def isBuffered_def same_settings_identify
       split: option.split)

text \<open>The state in which \<open>init\<close> starts recording: a session and a configuration, nothing active.\<close>

definition ready :: "BatRewindConfig \<Rightarrow> sdk \<Rightarrow> bool" where
  "ready c st \<longleftrightarrow> m_initialized st \<and> m_config st = Some c \<and> recordings st = [] \<and> intervals st = []
     \<and> listeners st = {} \<and> widgets st = [] \<and> m_buffer st = [] \<and> m_segments st = []"

lemma ready_inv: "ready c st \<Longrightarrow> sdk_inv st"
  by (simp add: ready_def sdk_inv_defs)

lemma start_buffered_inv:
  "ready c st \<Longrightarrow> isBuffered st \<Longrightarrow> sdk_inv (start_buffered c st) \<and> widgets (start_buffered c st) = []"
  by (simp add: ready_def start_buffered_def start_recording_def sdk_inv_defs isBuffered_def Let_def)

lemma start_always_inv:
  "ready c st \<Longrightarrow> \<not> isBuffered st \<Longrightarrow> sdk_inv (start_always c st) \<and> widgets (start_always c st) = []"
  by (simp add: ready_def start_always_def start_recording_def sdk_inv_defs isBuffered_def Let_def)

lemma mount_inv:
  assumes "sdk_inv st" and "widgets st = []" and "m_initialized st"
  shows "sdk_inv (fst (mount c st))"
proof (cases "fst (mount c st) = st")
  case True
  with assms show ?thesis by simp
next
  case False
  then obtain w where m: "fst (mount c st) = st\<lparr>widgets := [(next_handle st, w)],
      m_unmountWidget := Some (next_handle st), next_handle := Suc (next_handle st)\<rparr>"
    using assms(2) by (auto simp: mount_def split: if_splits sum.splits)
  have "isBuffered (fst (mount c st)) = isBuffered st" by (simp add: m isBuffered_def)
  with assms show ?thesis by (simp add: m sdk_inv_defs)
qed


lemma init_session_ready:
  assumes "sdk_inv st" and "\<not> m_initialized st"
    and "getOrCreateSession uuid (st\<lparr>m_initialized := True, m_config := Some c\<rparr>) = (st1, r)"
  shows "ready c st1"
  using session_frame [OF assms(3)] assms(1,2) by (simp add: ready_def sdk_inv_defs idle_def)

lemma init_inv:
  assumes "sdk_inv st"
  shows "sdk_inv (fst (init uuid c st))"
proof (cases "m_initialized st")
  case True
  with assms show ?thesis by (simp add: init_def)
next
  case False
  obtain st1 r where r: "getOrCreateSession uuid (st\<lparr>m_initialized := True, m_config := Some c\<rparr>) = (st1, r)"
    by fastforce
  note rd = init_session_ready [OF assms False r]
  show ?thesis
  proof (cases r)
    case (Inl e)
    with rd r False show ?thesis by (simp add: init_def ready_inv)
  next
    case (Inr h)
    define st2 where "st2 = st1\<lparr>m_sessionId := h_id h, m_shareToken := h_shareToken h,
        m_clientMeta := (if captureClientMetadata c = Some False then None
                         else Some (collectClientMeta (ambient_env st1))),
        m_clientMetaSent := False\<rparr>"
    have rd2: "ready c st2" using rd by (simp add: st2_def ready_def)
    have "m_initialized (start_buffered c st2)" "m_initialized (start_always c st2)"
      using rd2 by (simp_all add: ready_def start_buffered_def start_always_def start_recording_def Let_def)
    with start_buffered_inv [OF rd2] start_always_inv [OF rd2] False r Inr show ?thesis
      by (simp add: init_def Let_def st2_def [symmetric] mount_inv)
  qed
qed

lemma sdk_inv_page_hidden: "sdk_inv st \<Longrightarrow> sdk_inv (st\<lparr>page_hidden := hid\<rparr>)"
  by (erule sdk_inv_cong) simp_all

lemma sdk_inv_clock: "sdk_inv st \<Longrightarrow> sdk_inv (st\<lparr>clock := t\<rparr>)"
  by (erule sdk_inv_cong) simp_all

lemma exec_inv: "sdk_inv st \<Longrightarrow> sdk_inv (exec uuid op st)"
  by (cases op)
     (simp_all add: init_inv sdk_inv_emit sdk_inv_flush sdk_inv_report sdk_inv_widget_click
       sdk_inv_identify sdk_inv_idle stop_idle sdk_inv_page_hidden sdk_inv_clock sdk_inv_uploadBuffer
       on_listener_def onVisibilityChange_def onBeforeUnload_def onError_def)

inductive sdk_step :: "(nat \<Rightarrow> jsstr) \<Rightarrow> sdk \<Rightarrow> sdk \<Rightarrow> bool" for uuid where
  "sdk_step uuid st (exec uuid op st)"

inductive_cases sdk_stepE: "sdk_step uuid st st'"

interpretation sdk: invariant_system page_loaded "sdk_step uuid" sdk_inv for uuid
proof unfold_locales
  fix st
  assume "page_loaded st"
  then show "sdk_inv st" by (simp add: page_loaded_def sdk_inv_idle)
next
  fix st st'
  assume "sdk_inv st" and "sdk_step uuid st st'"
  then show "sdk_inv st'" by (auto elim: sdk_stepE intro: exec_inv)
qed

lemma run_steps: "(sdk_step uuid)\<^sup>*\<^sup>* st (run uuid ops st)"
proof (induction ops rule: rev_induct)
  case (snoc op ops)
  then show ?case by (auto simp: run_snoc intro: rtranclp.rtrancl_into_rtrancl sdk_step.intros)
qed simp

lemma run_inv: "page_loaded st \<Longrightarrow> sdk_inv (run uuid ops st)"
  by (rule sdk.reachable_inv [OF _ run_steps])


section \<open>Stopping\<close>

fun is_init :: "sdk_op \<Rightarrow> bool" where
  "is_init (Init c) = True"
| "is_init _ = False"

lemma idle_quiet:
  assumes "idle st" and "\<not> m_initialized st" and "\<not> is_init op"
  shows "idle (exec uuid op st) \<and> \<not> m_initialized (exec uuid op st) \<and> sent (exec uuid op st) = sent st"
  using assms
  by (cases op) (auto simp: idle_def emit_def report_def uploadBuffer_def flush_def widget_click_def
      identify_def stop_def on_listener_def drop_handle_def isBuffered_def Let_def split: option.split)

lemma idle_quiet_run:
  assumes "idle st" and "\<not> m_initialized st" and "\<forall>op\<in>set ops. \<not> is_init op"
  shows "idle (run uuid ops st) \<and> \<not> m_initialized (run uuid ops st) \<and> sent (run uuid ops st) = sent st"
  using assms
proof (induction ops arbitrary: st)
  case (Cons op ops)
  then have "idle (exec uuid op st) \<and> \<not> m_initialized (exec uuid op st) \<and> sent (exec uuid op st) = sent st"
    by (intro idle_quiet) auto
  with Cons show ?case by (simp add: run_Cons)
qed simp

text \<open>
  Property C3 (stop). In every state the recorder reaches from a loaded page, by any sequence of calls of the
  host, events, timers and clicks, \<open>stop\<close> removes the active recording, the flush interval,
  every listener and the widget, and clears the session and both buffers; and from then
  on, until the next \<open>init\<close>, nothing that happens in the page causes another upload.
\<close>

theorem stop_leaves_nothing_running:
  assumes "page_loaded st0" and "st = run uuid history st0" and "\<forall>op\<in>set later. \<not> is_init op"
  shows "recordings (stop st) = [] \<and> intervals (stop st) = [] \<and> listeners (stop st) = {}
    \<and> widgets (stop st) = [] \<and> m_buffer (stop st) = [] \<and> m_segments (stop st) = []
    \<and> m_sessionId (stop st) = JNull \<and> \<not> m_initialized (stop st)
    \<and> sent (run uuid later (stop st)) = sent (stop st)"
proof -
  have i: "sdk_inv st" using run_inv assms(1,2) by simp
  note idle = stop_idle [OF i]
  from idle_quiet_run [OF idle assms(3), of uuid] idle show ?thesis by (auto simp: idle_def)
qed


lemma demo_page_loaded: "page_loaded demo_page"
  by (simp add: page_loaded_def idle_def demo_page_def)

theorem stop_leaves_nothing_running_witness:
  "m_initialized (run demo_uuid [Init demo_config, Emit 0 (demo_event 2 1000) True] demo_page)
   \<and> recordings (stop (run demo_uuid [Init demo_config, Emit 0 (demo_event 2 1000) True] demo_page)) = []
   \<and> sent (run demo_uuid [Report, WindowError]
        (stop (run demo_uuid [Init demo_config, Emit 0 (demo_event 2 1000) True] demo_page)))
     = sent (stop (run demo_uuid [Init demo_config, Emit 0 (demo_event 2 1000) True] demo_page))"
proof -
  have "m_initialized (run demo_uuid [Init demo_config, Emit 0 (demo_event 2 1000) True] demo_page)"
  proof -
    have "m_initialized (fst (init demo_uuid demo_config demo_page))"
      using demo_session [of demo_config]
      by (simp add: init_def demo_page_def isBuffered_def demo_config_def start_buffered_def
          start_recording_def mount_def mountWidget_def Let_def)
    then show ?thesis by (simp add: run_def emit_def emit_buffered_def emit_always_def pruneSegments_def
          Let_def split: option.split)
  qed
  with stop_leaves_nothing_running [OF demo_page_loaded refl, of "[Report, WindowError]" demo_uuid
      "[Init demo_config, Emit 0 (demo_event 2 1000) True]"]
  show ?thesis by simp
qed

end
