(* ===== verification/RecorderStream.thy ===== *)
theory RecorderStream
  imports RecorderInv
begin

text \<open>
  The recorder in \<open>always\<close> mode: every event the recording emits is uploaded or still
  in the buffer, exactly once and in order, except that the first full snapshot
  overtakes the events buffered before it; and the buffer stays below its limit.
\<close>

section \<open>Streaming\<close>

text \<open>One recording in \<open>always\<close> mode is active, with a session to upload to.\<close>

definition streaming :: "nat \<Rightarrow> recording \<Rightarrow> BatRewindConfig \<Rightarrow> sdk \<Rightarrow> bool" where
  "streaming h rc c st \<longleftrightarrow> recordings st = [(h, rc)] \<and> \<not> rc_buffered rc \<and> m_config st = Some c
     \<and> cfg_mode c = Some Always \<and> truthy (m_sessionId st) \<and> m_segments st = [] \<and> m_initialized st"

lemma streaming_not_buffered: "streaming h rc c st \<Longrightarrow> \<not> isBuffered st"
  by (simp add: streaming_def isBuffered_def)

text \<open>The events a sequence of operations makes the recording \<open>h\<close> emit.\<close>

fun emitted :: "nat \<Rightarrow> sdk_op list \<Rightarrow> RawEvent list" where
  "emitted h [] = []"
| "emitted h (Emit g e co # ops) = (if g = h then e # emitted h ops else emitted h ops)"
| "emitted h (_ # ops) = emitted h ops"

lemma emitted_append [simp]: "emitted h (xs @ ys) = emitted h xs @ emitted h ys"
  by (induction h xs rule: emitted.induct) simp_all

text \<open>What has left the recording: uploaded first, then still buffered.\<close>

definition delivered :: "sdk \<Rightarrow> RawEvent list" where
  "delivered st = events_of (sent st) @ m_buffer st"

lemma flush_delivered:
  "m_config st = Some c \<Longrightarrow> truthy (m_sessionId st) \<Longrightarrow> delivered (flush True ka st) = delivered st"
  by (simp add: delivered_def flush_forced)

lemma flush_streaming: "streaming h rc c st \<Longrightarrow> streaming h rc c (flush f ka st)"
  by (simp add: streaming_def)

lemma streaming_flush_delivered: "streaming h rc c st \<Longrightarrow> delivered (flush True ka st) = delivered st"
  by (rule flush_delivered) (simp_all add: streaming_def)

lemma report_always: "\<not> isBuffered st \<Longrightarrow> fst (report st) = flush True False st"
  by (simp add: report_def Let_def)

lemma uploadBuffer_no_segments: "m_segments st = [] \<Longrightarrow> uploadBuffer tr ka st = st"
  by (simp add: uploadBuffer_def)

text \<open>Operations other than an emission of \<open>h\<close> and \<open>stop\<close> deliver nothing and lose nothing.\<close>

lemma exec_streaming_quiet:
  assumes "streaming h rc c st" and "op \<noteq> Stop" and "\<And>e co. op \<noteq> Emit h e co"
  shows "\<exists>c'. streaming h rc c' (exec uuid op st) \<and> delivered (exec uuid op st) = delivered st"
proof -
  note fl = flush_streaming [OF assms(1)] streaming_flush_delivered [OF assms(1)]
  note nb = streaming_not_buffered [OF assms(1)]
  show ?thesis
  proof (cases op)
    case (Init x)
    with assms(1) show ?thesis by (auto simp: init_def streaming_def)
  next
    case (Emit g e co)
    with assms show ?thesis by (auto simp: emit_def streaming_def)
  next
    case (IntervalFires g)
    with assms(1) fl show ?thesis by auto
  next
    case (VisibilityChanges hid)
    let ?st = "st\<lparr>page_hidden := hid\<rparr>"
    have s: "streaming h rc c ?st" "delivered ?st = delivered st"
      using assms(1) by (simp_all add: streaming_def delivered_def)
    then have "streaming h rc c (flush True True ?st)" "delivered (flush True True ?st) = delivered st"
      using flush_streaming streaming_flush_delivered by auto
    with VisibilityChanges s show ?thesis by (auto simp: on_listener_def onVisibilityChange_def)
  next
    case BeforeUnload
    with assms(1) fl nb show ?thesis by (auto simp: on_listener_def onBeforeUnload_def)
  next
    case WindowError
    with assms(1) show ?thesis
      by (auto simp: on_listener_def onError_def uploadBuffer_no_segments streaming_def)
  next
    case UnhandledRejection
    with assms(1) show ?thesis
      by (auto simp: on_listener_def onError_def uploadBuffer_no_segments streaming_def)
  next
    case Report
    with report_always [OF nb] fl show ?thesis by auto
  next
    case (WidgetClick g)
    with report_always [OF nb] fl assms(1) show ?thesis
      by (cases rule: widget_click_cases [of g st]) (auto simp: streaming_def delivered_def)
  next
    case (Identify i)
    with assms(1) show ?thesis by (auto simp: identify_def streaming_def delivered_def)
  next
    case Stop
    with assms(2) show ?thesis by simp
  next
    case (ClockTo t)
    with assms(1) show ?thesis by (auto simp: streaming_def delivered_def)
  qed
qed

lemma exec_streaming_snapshot:
  assumes "streaming h rc c st" and "ev_type e = 2" and "rc_firstSnapshot rc"
  shows "streaming h (rc\<lparr>rc_firstSnapshot := False\<rparr>) c (emit h e co st)"
    and "delivered (emit h e co st) = events_of (sent st) @ e # m_buffer st"
proof -
  let ?st = "st\<lparr>recordings := set_snapshot_seen h (recordings st)\<rparr>"
  have run: "emit h e co st = upload [e] Stream False ?st"
    using assms by (simp add: emit_def streaming_def emit_always_def)
  have c: "m_config ?st = Some c" "truthy (m_sessionId ?st)"
    using assms(1) by (simp_all add: streaming_def)
  show "streaming h (rc\<lparr>rc_firstSnapshot := False\<rparr>) c (emit h e co st)"
    using assms(1) by (simp add: run streaming_def set_snapshot_seen_def)
  show "delivered (emit h e co st) = events_of (sent st) @ e # m_buffer st"
    by (simp add: run delivered_def upload_events [OF c])
qed

lemma exec_streaming_push:
  assumes "streaming h rc c st" and "\<not> (ev_type e = 2 \<and> rc_firstSnapshot rc)"
  shows "streaming h rc c (emit h e co st)"
    and "delivered (emit h e co st) = delivered st @ [e]"
    and "m_buffer (emit h e co st) = [] \<or>
      int (bufferSize (m_buffer (emit h e co st))) < or_default (flushMaxBytes (rc_config rc)) FLUSH_MAX_BYTES"
proof -
  let ?st = "st\<lparr>m_buffer := m_buffer st @ [e]\<rparr>"
  have s: "streaming h rc c ?st" using assms(1) by (simp add: streaming_def)
  have d: "delivered ?st = delivered st @ [e]" by (simp add: delivered_def)
  have run: "emit h e co st =
      (if or_default (flushMaxBytes (rc_config rc)) FLUSH_MAX_BYTES \<le> int (bufferSize (m_buffer ?st))
       then flush True False ?st else ?st)"
    using assms by (auto simp: emit_def streaming_def emit_always_def Let_def)
  have e: "m_buffer (flush True False ?st) = []"
    by (rule flush_forced(1) [of _ c]) (use s in \<open>simp_all add: streaming_def\<close>)
  show "streaming h rc c (emit h e co st)"
    using s flush_streaming [OF s] by (simp add: run)
  show "delivered (emit h e co st) = delivered st @ [e]"
    using d streaming_flush_delivered [OF s] by (simp add: run)
  show "m_buffer (emit h e co st) = [] \<or>
      int (bufferSize (m_buffer (emit h e co st))) < or_default (flushMaxBytes (rc_config rc)) FLUSH_MAX_BYTES"
    using e by (auto simp: run)
qed


section \<open>Nothing is lost, nothing is sent twice\<close>

text \<open>The first full snapshot overtakes the events \<open>b\<close> that were buffered before it.\<close>

definition snapshot_overtakes :: "RawEvent list \<Rightarrow> RawEvent list \<Rightarrow> bool" where
  "snapshot_overtakes es out \<longleftrightarrow> (\<exists>a b snap c. es = a @ b @ snap # c \<and> out = a @ snap # b @ c
     \<and> ev_type snap = 2 \<and> (\<forall>e\<in>set (a @ b). ev_type e \<noteq> 2))"

lemma snapshot_overtakes_mset: "snapshot_overtakes es out \<Longrightarrow> mset out = mset es"
  by (auto simp: snapshot_overtakes_def)

lemma snapshot_overtakes_snoc: "snapshot_overtakes es out \<Longrightarrow> snapshot_overtakes (es @ [e]) (out @ [e])"
  unfolding snapshot_overtakes_def by (elim exE) (metis append_Cons append_assoc)

text \<open>
  How the deliveries \<open>out\<close> since the start relate to the emissions \<open>es\<close>, depending on
  whether a full snapshot has been seen.
\<close>

definition in_stream_order :: "bool \<Rightarrow> RawEvent list \<Rightarrow> RawEvent list \<Rightarrow> bool" where
  "in_stream_order waiting es out \<longleftrightarrow>
     (if waiting then out = es \<and> (\<forall>e\<in>set es. ev_type e \<noteq> 2) else snapshot_overtakes es out)"

definition stream_inv :: "RawEvent list \<Rightarrow> nat \<Rightarrow> BatRewindConfig \<Rightarrow> RawEvent list \<Rightarrow> sdk \<Rightarrow> bool" where
  "stream_inv old h c0 es st \<longleftrightarrow> (\<exists>rc c out. streaming h rc c st \<and> rc_config rc = c0
     \<and> delivered st = old @ out \<and> prefix old (events_of (sent st))
     \<and> in_stream_order (rc_firstSnapshot rc) es out)"

lemma stream_inv_exec:
  assumes "stream_inv old h c0 es st" and "op \<noteq> Stop"
  shows "stream_inv old h c0 (es @ emitted h [op]) (exec uuid op st)"
proof -
  from assms(1) obtain rc c out where s: "streaming h rc c st" and c0: "rc_config rc = c0"
    and d: "delivered st = old @ out" and p: "prefix old (events_of (sent st))"
    and o: "in_stream_order (rc_firstSnapshot rc) es out"
    by (auto simp: stream_inv_def)
  have p': "prefix old (events_of (sent (exec uuid op st)))"
    using p events_of_grows [OF exec_grows] by (rule prefix_order.trans)
  show ?thesis
  proof (cases "\<exists>e co. op = Emit h e co")
    case False
    then have "emitted h [op] = []" by (cases op) auto
    with exec_streaming_quiet [OF s assms(2), of uuid] False p' c0 d o show ?thesis
      unfolding stream_inv_def by fastforce
  next
    case True
    then obtain e co where op: "op = Emit h e co" by blast
    show ?thesis
    proof (cases "ev_type e = 2 \<and> rc_firstSnapshot rc")
      case True
      from p obtain new where new: "events_of (sent st) = old @ new" by (auto simp: prefix_def)
      have out: "out = es" "out = new @ m_buffer st" "\<forall>x\<in>set es. ev_type x \<noteq> 2"
        using o d new True by (simp_all add: in_stream_order_def delivered_def)
      then have "snapshot_overtakes (es @ [e]) (new @ e # m_buffer st)"
        unfolding snapshot_overtakes_def using True
        by (intro exI [of _ new] exI [of _ "m_buffer st"] exI [of _ e] exI [of _ "[]"]) auto
      with exec_streaming_snapshot [OF s, of e co] True p' c0 new op show ?thesis
        unfolding stream_inv_def in_stream_order_def
        by (intro exI [of _ "rc\<lparr>rc_firstSnapshot := False\<rparr>"] exI [of _ c]
            exI [of _ "new @ e # m_buffer st"]) auto
    next
      case False
      have "in_stream_order (rc_firstSnapshot rc) (es @ [e]) (out @ [e])"
        using o False by (auto simp: in_stream_order_def snapshot_overtakes_snoc)
      with exec_streaming_push(1,2) [OF s False, of co] p' c0 d op show ?thesis
        unfolding stream_inv_def by (intro exI [of _ rc] exI [of _ c] exI [of _ "out @ [e]"]) auto
    qed
  qed
qed

lemma stream_inv_run:
  assumes "stream_inv old h c0 [] st" and "Stop \<notin> set ops"
  shows "stream_inv old h c0 (emitted h ops) (run uuid ops st)"
  using assms(2)
proof (induction ops rule: rev_induct)
  case Nil
  with assms(1) show ?case by (simp add: run_def)
next
  case (snoc op ops)
  then have "stream_inv old h c0 (emitted h ops @ emitted h [op]) (exec uuid op (run uuid ops st))"
    by (intro stream_inv_exec) auto
  then show ?case by (simp add: run_snoc)
qed


lemma init_streaming:
  assumes "sdk_inv st" and "\<not> m_initialized st" and "has_uuid st" and "record_works st"
    and "\<And>n. uuid n \<noteq> []" and "cfg_mode c = Some Always"
  shows "\<exists>rc. streaming (next_handle st) rc c (fst (init uuid c st)) \<and> rc_config rc = c
    \<and> rc_firstSnapshot rc \<and> m_buffer (fst (init uuid c st)) = []"
proof -
  let ?st = "st\<lparr>m_initialized := True, m_config := Some c\<rparr>"
  obtain st1 h where r: "getOrCreateSession uuid ?st = (st1, Inr h)"
    using getOrCreateSession_returns [of ?st uuid] assms(3) by auto
  note rd = init_session_ready [OF assms(1,2) r]
  have t: "truthy (h_id h)" using getOrCreateSession_truthy [OF r] assms(5) by blast
  have f: "next_handle st1 = next_handle st" "record_works st1 = record_works st"
    using session_frame [OF r] by simp_all
  show ?thesis
    using r rd t f assms(2,4,6)
    by (simp add: init_def Let_def isBuffered_def ready_def start_always_def start_recording_def
        mount_def streaming_def split: sum.split)
qed

lemma stream_start:
  assumes "streaming h rc c st" and "rc_firstSnapshot rc" and "m_buffer st = []"
  shows "stream_inv (events_of (sent st)) h (rc_config rc) [] st"
  using assms unfolding stream_inv_def
  by (intro exI [of _ rc] exI [of _ c] exI [of _ "[]"]) (simp add: delivered_def in_stream_order_def)

lemma stop_delivers:
  assumes "streaming h rc c st"
  shows "events_of (sent (stop st)) = delivered st"
proof -
  let ?st = "st\<lparr>intervals := drop_handle (m_flushTimer st) (intervals st),
                 recordings := drop_handle (m_stopRecording st) (recordings st),
                 widgets := drop_handle (m_unmountWidget st) (widgets st),
                 listeners := listeners st - {OnVisibilityChange, OnBeforeUnload, OnErrorEvent, OnUnhandledRejection}\<rparr>"
  have "m_config ?st = Some c" "truthy (m_sessionId ?st)" "\<not> isBuffered ?st"
    using assms by (simp_all add: streaming_def isBuffered_def)
  with flush_forced [of ?st c False] show ?thesis
    by (simp add: stop_def Let_def delivered_def)
qed

text \<open>
  Property C2 (\<open>always\<close> mode loses nothing). Take any reachable state in which the recorder is not
  initialized, call \<open>init\<close> in \<open>always\<close> mode, and let anything but \<open>stop\<close> happen. Then the
  events uploaded since, followed by those still in the buffer, are the events the
  recording emitted, each exactly once; they are in the order of their emission, except
  that the first full snapshot may have overtaken the events buffered before it. Calling
  \<open>stop\<close> at that point uploads the rest.
\<close>

theorem always_mode_lossless:
  assumes "page_loaded st0" and "st = run uuid history st0" and "\<not> m_initialized st"
    and "has_uuid st" and "record_works st" and "\<And>n. uuid n \<noteq> []"
    and "cfg_mode c = Some Always" and "Stop \<notin> set ops"
    and "st' = run uuid ops (fst (init uuid c st))" and "es = emitted (next_handle st) ops"
  shows "\<exists>out. events_of (sent st') @ m_buffer st' = events_of (sent st) @ out
    \<and> events_of (sent (stop st')) = events_of (sent st) @ out
    \<and> mset out = mset es \<and> (out = es \<or> snapshot_overtakes es out)"
proof -
  have i: "sdk_inv st" using run_inv assms(1,2) by simp
  obtain rc where rc: "streaming (next_handle st) rc c (fst (init uuid c st))" "rc_firstSnapshot rc"
      "m_buffer (fst (init uuid c st)) = []"
    using init_streaming [where uuid = uuid, OF i assms(3-7)] by blast
  have "stream_inv (events_of (sent st)) (next_handle st) (rc_config rc) es st'"
    unfolding assms(9,10) using stream_inv_run [OF stream_start [OF rc] assms(8)] by (simp add: init_sent)
  then obtain rc' c' out where s: "streaming (next_handle st) rc' c' st'"
    and d: "delivered st' = events_of (sent st) @ out" and o: "in_stream_order (rc_firstSnapshot rc') es out"
    by (auto simp: stream_inv_def)
  have "out = es \<or> snapshot_overtakes es out" using o by (auto simp: in_stream_order_def split: if_splits)
  moreover from this have "mset out = mset es" using snapshot_overtakes_mset by auto
  ultimately show ?thesis using d stop_delivers [OF s] by (auto simp: delivered_def)
qed

definition always_config :: BatRewindConfig where
  "always_config = demo_config\<lparr>cfg_mode := Some Always, showWidget := Some False\<rparr>"

theorem always_mode_lossless_witness:
  "\<exists>out. events_of (sent (stop (run demo_uuid
        [Emit 0 (demo_event 4 1000) False, Emit 0 (demo_event 2 1001) False, Emit 0 (demo_event 3 1002) False]
        (fst (init demo_uuid always_config demo_page))))) = out
     \<and> mset out = mset [demo_event 4 1000, demo_event 2 1001, demo_event 3 1002]"
  using always_mode_lossless [OF demo_page_loaded run_Nil [symmetric], of demo_uuid always_config
      "[Emit 0 (demo_event 4 1000) False, Emit 0 (demo_event 2 1001) False, Emit 0 (demo_event 3 1002) False]"]
  by (auto simp: demo_page_def always_config_def)


section \<open>The buffer stays below its limit\<close>

definition buffer_bounded :: "sdk \<Rightarrow> bool" where
  "buffer_bounded st \<longleftrightarrow> m_buffer st = [] \<or> (\<exists>c. m_config st = Some c
     \<and> int (bufferSize (m_buffer st)) < or_default (flushMaxBytes c) FLUSH_MAX_BYTES)"

definition session_known :: "sdk \<Rightarrow> bool" where
  "session_known st \<longleftrightarrow> (recordings st \<noteq> [] \<longrightarrow> truthy (m_sessionId st))"

lemma init_session_known:
  assumes "sdk_inv st" and "session_known st" and "\<And>n. uuid n \<noteq> []"
  shows "session_known (fst (init uuid c st))"
proof (cases "m_initialized st")
  case True
  with assms(2) show ?thesis by (simp add: init_def)
next
  case False
  obtain st1 r where r: "getOrCreateSession uuid (st\<lparr>m_initialized := True, m_config := Some c\<rparr>) = (st1, r)"
    by fastforce
  note rd = init_session_ready [OF assms(1) False r]
  have t: "truthy (h_id h)" if "r = Inr h" for h
    using getOrCreateSession_truthy r that assms(3) by blast
  show ?thesis
    using r rd t False
    by (cases r) (simp_all add: init_def Let_def session_known_def ready_def start_buffered_def
        start_always_def start_recording_def mount_def split: sum.split)
qed


lemma session_known_cong:
  "session_known st \<Longrightarrow> recordings st' = recordings st \<Longrightarrow> m_sessionId st' = m_sessionId st
     \<Longrightarrow> session_known st'"
  by (simp add: session_known_def)

lemma report_frame [simp]:
  "recordings (fst (report st)) = recordings st" "m_sessionId (fst (report st)) = m_sessionId st"
  "m_config (fst (report st)) = m_config st"
  by (simp_all add: report_def Let_def)

lemma widget_click_frame [simp]:
  "recordings (widget_click h st) = recordings st" "m_sessionId (widget_click h st) = m_sessionId st"
  "m_config (widget_click h st) = m_config st"
  by (cases rule: widget_click_cases [of h st]; simp)+

lemma emit_session [simp]:
  "m_sessionId (emit h e co st) = m_sessionId st" "m_config (emit h e co st) = m_config st"
  "recordings (emit h e co st) = [] \<longleftrightarrow> recordings st = []"
  by (simp_all add: emit_def emit_buffered_def emit_always_def pruneSegments_def set_snapshot_seen_def
      Let_def split: option.split)

lemma exec_session_known:
  assumes "sdk_inv st" and "session_known st" and "\<And>n. uuid n \<noteq> []"
  shows "session_known (exec uuid op st)"
proof (cases op)
  case (Init c)
  with init_session_known [where uuid = uuid, OF assms] show ?thesis by simp
next
  case Stop
  with stop_idle [OF assms(1)] show ?thesis by (simp add: session_known_def idle_def)
qed (use assms(2) in \<open>simp_all add: session_known_def on_listener_def onVisibilityChange_def
      onBeforeUnload_def onError_def identify_def split: option.split\<close>)

lemma flush_buffer: "m_buffer (flush f ka st) = m_buffer st \<or> m_buffer (flush f ka st) = []"
  by (simp add: flush_def split: option.split)

lemma flush_bounded: "buffer_bounded st \<Longrightarrow> buffer_bounded (flush f ka st)"
  using flush_buffer [of f ka st] by (auto simp: buffer_bounded_def)

lemma report_bounded: "buffer_bounded st \<Longrightarrow> buffer_bounded (fst (report st))"
  using flush_bounded [of st] by (auto simp: report_def Let_def buffer_bounded_def)

lemma emit_bounded:
  assumes "sdk_inv st" and "session_known st" and "buffer_bounded st"
  shows "buffer_bounded (emit h e co st)"
proof (cases "map_of (recordings st) h")
  case None
  with assms show ?thesis by (simp add: emit_def)
next
  case (Some rc)
  obtain c where c: "m_config st = Some c" and "same_settings (rc_config rc) c"
    using recording_facts(3) [OF assms(1) Some] by blast
  then have limit: "flushMaxBytes (rc_config rc) = flushMaxBytes c" by (simp add: same_settings_limit)
  have t: "truthy (m_sessionId st)" using assms(2) Some by (auto simp: session_known_def)
  let ?st = "st\<lparr>m_buffer := m_buffer st @ [e]\<rparr>"
  have "m_buffer (flush True False ?st) = []"
    by (rule flush_forced(1) [of _ c]) (use c t in simp_all)
  then show ?thesis
    using assms(3) Some c limit
    by (auto simp: emit_def emit_buffered_def emit_always_def pruneSegments_def buffer_bounded_def Let_def)
qed

lemma exec_bounded:
  assumes "sdk_inv st" and "session_known st" and "buffer_bounded st"
  shows "buffer_bounded (exec uuid op st)"
proof (cases op)
  case (Init c)
  have "m_buffer (fst (init uuid c st)) = m_buffer st" if "\<not> m_initialized st"
  proof -
    obtain st1 r where r: "getOrCreateSession uuid (st\<lparr>m_initialized := True, m_config := Some c\<rparr>) = (st1, r)"
      by fastforce
    show ?thesis
      using session_frame [OF r] r that
      by (cases r) (simp_all add: init_def Let_def start_buffered_def start_always_def
          start_recording_def mount_def split: sum.split)
  qed
  moreover have "m_buffer st = []" if "\<not> m_initialized st"
    using assms(1) that by (simp add: sdk_inv_defs idle_def)
  ultimately show ?thesis using Init assms(3) by (auto simp: buffer_bounded_def init_def)
next
  case (Emit h e co)
  with emit_bounded [OF assms] show ?thesis by simp
next
  case (VisibilityChanges hid)
  have "buffer_bounded (st\<lparr>page_hidden := hid\<rparr>)" using assms(3) by (simp add: buffer_bounded_def)
  with VisibilityChanges flush_bounded [OF this] show ?thesis
    by (cases hid) (simp_all add: on_listener_def onVisibilityChange_def)
next
  case (WidgetClick h)
  with assms(3) report_bounded [OF assms(3)] show ?thesis
    by (cases rule: widget_click_cases [of h st]) (simp_all add: buffer_bounded_def)
next
  case Stop
  with stop_idle [OF assms(1)] show ?thesis by (simp add: buffer_bounded_def idle_def)
next
  case (Identify i)
  with assms(3) show ?thesis by (auto simp: identify_def buffer_bounded_def split: option.split)
next
  case Report
  with report_bounded [OF assms(3)] show ?thesis by simp
qed (use assms(3) flush_bounded [OF assms(3)] in \<open>simp_all add: on_listener_def onBeforeUnload_def onError_def
      buffer_bounded_def\<close>)

text \<open>
  Property C30 (the stream buffer is bounded). In every reachable state the events waiting to be streamed are
  none, or their JSON text is shorter in UTF-8 bytes than \<open>flushMaxBytes\<close> (500000 when it
  is not configured): the SDK never holds back a batch of the size that triggers a flush.
\<close>

theorem stream_buffer_bounded:
  assumes "page_loaded st0" and "\<And>n. uuid n \<noteq> []" and "st = run uuid ops st0"
  shows "m_buffer st = [] \<or> (\<exists>c. m_config st = Some c
     \<and> int (utf8_len (stringify (JArr (map event_json (m_buffer st))))) < or_default (flushMaxBytes c) 500000)"
proof -
  have "session_known (run uuid ops st0) \<and> buffer_bounded (run uuid ops st0)"
  proof (induction ops rule: rev_induct)
    case Nil
    show ?case using assms(1) by (simp add: page_loaded_def idle_def session_known_def buffer_bounded_def)
  next
    case (snoc op ops)
    note i = run_inv [OF assms(1), of uuid ops]
    show ?case using snoc exec_session_known [OF i] exec_bounded [OF i] assms(2) by (simp add: run_snoc)
  qed
  then show ?thesis by (simp add: assms(3) buffer_bounded_def bufferSize_def FLUSH_MAX_BYTES_def)
qed

theorem stream_buffer_bounded_witness:
  "\<exists>st. st = run demo_uuid [Init (always_config\<lparr>flushMaxBytes := Some 100\<rparr>),
        Emit 0 (demo_event 4 1000) False, Emit 0 (demo_event 3 1001) False, Emit 0 (demo_event 3 1002) False] demo_page
     \<and> (m_buffer st = [] \<or> (\<exists>c. m_config st = Some c
     \<and> int (utf8_len (stringify (JArr (map event_json (m_buffer st))))) < or_default (flushMaxBytes c) 500000))"
  using stream_buffer_bounded [OF demo_page_loaded, of demo_uuid] by auto

end
