(* ===== verification/RecorderBuffer.thy ===== *)
theory RecorderBuffer
  imports RecorderInv
begin

text \<open>
  The recorder in \<open>buffered\<close> mode: that pruning the rolling buffer ends, and which events the
  buffer keeps.
\<close>

section \<open>Pruning\<close>

lemma prune_suffix: "suffix (prune cutoff segs) segs"
proof (induction cutoff segs rule: prune.induct)
  case (1 cutoff s1 s2 rest)
  then show ?case by (cases s2) (auto intro: suffix_ConsI)
qed simp_all

lemma prune_not_Nil: "segs \<noteq> [] \<Longrightarrow> prune cutoff segs \<noteq> []"
proof (induction cutoff segs rule: prune.induct)
  case (1 cutoff s1 s2 rest)
  then show ?case by (cases s2) auto
qed simp_all

text \<open>If anything is dropped, the first event kept is no younger than the cutoff.\<close>

lemma prune_opens_before_cutoff:
  assumes "prune cutoff segs \<noteq> segs" and "\<forall>s\<in>set segs. s \<noteq> []"
  shows "ev_timestamp (hd (hd (prune cutoff segs))) \<le> cutoff"
  using assms
proof (induction cutoff segs rule: prune.induct)
  case (1 cutoff s1 s2 rest)
  from "1.prems"(2) obtain e es where s2: "s2 = e # es" by (cases s2) auto
  show ?case
  proof (cases "ev_timestamp e \<le> cutoff")
    case True
    show ?thesis
    proof (cases "prune cutoff (s2 # rest) = s2 # rest")
      case True
      with s2 \<open>ev_timestamp e \<le> cutoff\<close> show ?thesis by simp
    next
      case False
      with "1.IH" [OF s2 True] "1.prems"(2) s2 True show ?thesis by simp
    qed
  next
    case False
    with "1.prems"(1) s2 show ?thesis by simp
  qed
qed simp_all

text \<open>After pruning, only the first segment opens at or before the cutoff.\<close>

lemma prune_second_after_cutoff:
  assumes "\<forall>s\<in>set segs. s \<noteq> []" and "prune cutoff segs = s1 # s2 # rest"
  shows "cutoff < ev_timestamp (hd s2)"
  using assms
proof (induction cutoff segs rule: prune.induct)
  case (1 cutoff t1 t2 trest)
  from "1.prems"(1) obtain e es where t2: "t2 = e # es" by (cases t2) auto
  show ?case
    using "1.IH" [OF t2] "1.prems" t2 by (cases "ev_timestamp e \<le> cutoff") auto
qed simp_all

lemma sorted_map_suffix: "suffix xs ys \<Longrightarrow> sorted (map f ys) \<Longrightarrow> sorted (map f xs)"
  by (auto simp: suffix_def sorted_append)

lemma push_last_concat: "segs \<noteq> [] \<Longrightarrow> concat (push_last e segs) = concat segs @ [e]"
  by (cases segs rule: rev_cases) (simp_all add: push_last_def)

lemma push_last_nonempty: "\<forall>s\<in>set segs. s \<noteq> [] \<Longrightarrow> \<forall>s\<in>set (push_last e segs). s \<noteq> []"
  by (cases segs rule: rev_cases) (auto simp: push_last_def)

lemma push_last_hd: "segs \<noteq> [] \<Longrightarrow> hd segs \<noteq> [] \<Longrightarrow> hd (hd (push_last e segs)) = hd (hd segs)"
proof (cases segs rule: rev_cases)
  case (snoc xs x)
  assume "segs \<noteq> []" "hd segs \<noteq> []"
  with snoc show ?thesis by (cases xs) (simp_all add: push_last_def)
qed simp

lemma push_last_Nil [simp]: "push_last e segs = [] \<longleftrightarrow> segs = []"
  by (simp add: push_last_def)


section \<open>The loop ends\<close>

lemma prunable_simps [simp]:
  "\<not> prunable cutoff []" "\<not> prunable cutoff [s]"
  "prunable cutoff (s1 # s2 # rest) \<longleftrightarrow> (case s2 of [] \<Rightarrow> False | e # _ \<Rightarrow> ev_timestamp e \<le> cutoff)"
  by (simp_all add: prunable_def)

lemma prune_loop_prune: "prune_loop cutoff segs = Some (prune cutoff segs)"
  unfolding prune_loop_def
proof (induction cutoff segs rule: prune.induct)
  case (1 cutoff s1 s2 rest)
  then show ?case
    by (subst while_option_unfold) (auto split: list.split)
qed (simp_all add: while_option_unfold)

lemma prune_count:
  "\<exists>k. k \<le> length segs - 1 \<and> prune cutoff segs = drop k segs \<and> \<not> prunable cutoff (drop k segs)
     \<and> (\<forall>j<k. prunable cutoff (drop j segs))"
proof (induction cutoff segs rule: prune.induct)
  case (1 cutoff s1 s2 rest)
  show ?case
  proof (cases "prunable cutoff (s1 # s2 # rest)")
    case True
    then obtain e es where s2: "s2 = e # es" "ev_timestamp e \<le> cutoff"
      by (auto split: list.splits)
    from "1.IH" [OF s2] obtain k where k: "k \<le> length rest" "prune cutoff (s2 # rest) = drop k (s2 # rest)"
      "\<not> prunable cutoff (drop k (s2 # rest))" "\<forall>j<k. prunable cutoff (drop j (s2 # rest))"
      by auto
    have "\<forall>j<Suc k. prunable cutoff (drop j (s1 # s2 # rest))"
      using True k(4) by (auto simp: less_Suc_eq_0_disj)
    with k(1-3) s2 show ?thesis by (intro exI [of _ "Suc k"]) simp
  next
    case False
    then show ?thesis by (intro exI [of _ 0]) (auto split: list.splits)
  qed
qed auto

text \<open>
  Property C31 (pruning ends). Whatever the segments, their timestamps (in any order, missing or in the
  future), the clock and the configured window are, the loop of \<open>pruneSegments\<close> returns, and what it leaves in
  \<open>_segments\<close> is reached after \<open>k\<close> shifts, fewer than there are segments: each of the \<open>k\<close>
  tests before succeeded and the next one failed.
\<close>

theorem pruning_terminates:
  "\<exists>k. prune_loop (clock st - buffer_ms st) (m_segments st) = Some (m_segments (pruneSegments st))
     \<and> m_segments (pruneSegments st) = drop k (m_segments st) \<and> k \<le> length (m_segments st) - 1
     \<and> \<not> prunable (clock st - buffer_ms st) (drop k (m_segments st))
     \<and> (\<forall>j<k. prunable (clock st - buffer_ms st) (drop j (m_segments st)))"
  using prune_count [of "m_segments st" "clock st - buffer_ms st"]
  by (auto simp: pruneSegments_def prune_loop_prune)

theorem pruning_terminates_witness:
  "m_segments (pruneSegments (demo_page\<lparr>clock := 200000, m_segments :=
     [[demo_event 2 10], [demo_event 2 20], [demo_event 2 150000]]\<rparr>)) = [[demo_event 2 20], [demo_event 2 150000]]
   \<and> prune_loop 80000 [[demo_event 2 10], [demo_event 2 20], [demo_event 2 150000]]
     = Some [[demo_event 2 20], [demo_event 2 150000]]"
proof -
  let ?st = "demo_page\<lparr>clock := 200000, m_segments := [[demo_event 2 10], [demo_event 2 20], [demo_event 2 150000]]\<rparr>"
  have b: "buffer_ms ?st = 120000"
    by (simp add: buffer_ms_def demo_page_def BUFFER_MS_def)
  then have "m_segments (pruneSegments ?st) = [[demo_event 2 20], [demo_event 2 150000]]"
    by (simp add: pruneSegments_def) (simp add: demo_event_def)
  with pruning_terminates [of ?st] b show ?thesis by auto
qed


section \<open>The rolling window\<close>

text \<open>
  The buffer holds the end of what was emitted; if it does not hold all of it, it opens
  with an event at or before the cutoff.
\<close>

definition window_inv :: "int \<Rightarrow> RawEvent list \<Rightarrow> RawEvent list list \<Rightarrow> bool" where
  "window_inv cutoff es segs \<longleftrightarrow> (\<forall>s\<in>set segs. s \<noteq> []) \<and> (es \<noteq> [] \<longrightarrow> segs \<noteq> []) \<and>
     (\<exists>dropped. es = dropped @ concat segs \<and>
        (dropped \<noteq> [] \<longrightarrow> segs \<noteq> [] \<and> ev_timestamp (hd (hd segs)) \<le> cutoff))"

lemma window_inv_later: "window_inv cutoff es segs \<Longrightarrow> cutoff \<le> cutoff' \<Longrightarrow> window_inv cutoff' es segs"
  by (fastforce simp: window_inv_def)

lemma window_inv_push:
  assumes "window_inv cutoff es segs" and "segs \<noteq> []"
  shows "window_inv cutoff (es @ [e]) (push_last e segs)"
proof -
  have "hd segs \<noteq> []" using assms by (simp add: window_inv_def)
  with assms show ?thesis
    by (auto simp: window_inv_def push_last_concat push_last_hd dest!: push_last_nonempty [of segs e])
qed

lemma window_inv_open:
  assumes "window_inv cutoff es segs"
  shows "window_inv cutoff (es @ [e]) (prune cutoff (segs @ [[e]]))"
proof -
  let ?segs = "segs @ [[e]]"
  from assms obtain dropped where d: "es = dropped @ concat segs"
      "dropped \<noteq> [] \<longrightarrow> segs \<noteq> [] \<and> ev_timestamp (hd (hd segs)) \<le> cutoff"
    and ne: "\<forall>s\<in>set ?segs. s \<noteq> []"
    by (auto simp: window_inv_def)
  obtain gone where g: "?segs = gone @ prune cutoff ?segs"
    using prune_suffix [of cutoff ?segs] by (auto simp: suffix_def)
  have ne': "\<forall>s\<in>set (prune cutoff ?segs). s \<noteq> []"
    using ne set_mono_suffix [OF prune_suffix [of cutoff ?segs]] by blast
  have "concat ?segs = concat gone @ concat (prune cutoff ?segs)"
    by (subst g) simp
  then have "es @ [e] = (dropped @ concat gone) @ concat (prune cutoff ?segs)"
    using d(1) by simp
  moreover have "ev_timestamp (hd (hd (prune cutoff ?segs))) \<le> cutoff" if "dropped @ concat gone \<noteq> []"
  proof (cases "prune cutoff ?segs = ?segs")
    case True
    with g that d(2) show ?thesis by auto
  next
    case False
    with prune_opens_before_cutoff [OF _ ne] show ?thesis by simp
  qed
  ultimately show ?thesis
    using ne' prune_not_Nil [of ?segs cutoff] unfolding window_inv_def by blast
qed


section \<open>Recording into the buffer\<close>

definition rewinding :: "nat \<Rightarrow> sdk \<Rightarrow> bool" where
  "rewinding h st \<longleftrightarrow> sdk_inv st \<and> isBuffered st \<and> m_initialized st \<and> (\<exists>rc. recordings st = [(h, rc)])"

fun emitted_by :: "nat \<Rightarrow> sdk_op \<Rightarrow> RawEvent list" where
  "emitted_by h (Emit g e co) = (if g = h then [e] else [])"
| "emitted_by h _ = []"

text \<open>Sequences of operations during which the clock, starting at \<open>now\<close>, does not go back.\<close>

fun clocks_ok :: "int \<Rightarrow> sdk_op list \<Rightarrow> bool" where
  "clocks_ok now [] \<longleftrightarrow> True"
| "clocks_ok now (ClockTo t # ops) \<longleftrightarrow> now \<le> t \<and> clocks_ok t ops"
| "clocks_ok now (_ # ops) \<longleftrightarrow> clocks_ok now ops"

lemma rewinding_rc:
  assumes "rewinding h st"
  obtains rc where "recordings st = [(h, rc)]" and "rc_buffered rc"
  using assms recording_facts(2) [of st h] by (auto simp: rewinding_def)

lemma emit_rewinding:
  assumes "rewinding h st"
  shows "emit g e co st = (if g = h then emit_buffered e co st else st)"
  using assms by (auto simp: emit_def elim: rewinding_rc)

lemma emit_buffered_segments:
  "m_segments (emit_buffered e co st) =
     (if co \<or> m_segments st = [] then prune (clock st - buffer_ms st) (m_segments st @ [[e]])
      else push_last e (m_segments st))"
  by (simp add: emit_buffered_def pruneSegments_def buffer_ms_def)

lemma buffer_ms_identify [simp]: "buffer_ms (identify i st) = buffer_ms st"
  by (simp add: buffer_ms_def identify_def split: option.split)

lemma buffered_frame [simp]:
  "m_segments (fst (report st)) = m_segments st" "m_config (fst (report st)) = m_config st"
  "clock (fst (report st)) = clock st" "recordings (fst (report st)) = recordings st"
  "m_initialized (fst (report st)) = m_initialized st"
  by (simp_all add: report_def Let_def)

lemma widget_click_buffered [simp]:
  "m_segments (widget_click h st) = m_segments st" "m_config (widget_click h st) = m_config st"
  "clock (widget_click h st) = clock st" "recordings (widget_click h st) = recordings st"
  "m_initialized (widget_click h st) = m_initialized st"
  by (cases rule: widget_click_cases [of h st]; simp)+

text \<open>What one operation does to the buffer of an active recording.\<close>

lemma exec_rewinding:
  assumes "rewinding h st" and "op \<noteq> Stop"
  shows "rewinding h (exec uuid op st)" and "buffer_ms (exec uuid op st) = buffer_ms st"
    and "m_segments (exec uuid op st) = (case op of
           Emit g e co \<Rightarrow> if g = h then m_segments (emit_buffered e co st) else m_segments st
         | _ \<Rightarrow> m_segments st)"
    and "clock (exec uuid op st) = (case op of ClockTo t \<Rightarrow> t | _ \<Rightarrow> clock st)"
proof -
  have i: "sdk_inv (exec uuid op st)" using assms(1) exec_inv by (simp add: rewinding_def)
  have init: "init uuid c st = (st, Inr ())" for c using assms(1) by (simp add: rewinding_def init_def)
  note defs = on_listener_def onVisibilityChange_def onBeforeUnload_def onError_def identify_def
    emit_buffered_def pruneSegments_def
  have m: "m_initialized (exec uuid op st) = m_initialized st" "recordings (exec uuid op st) = recordings st"
    "isBuffered (exec uuid op st) = isBuffered st"
    using assms init by (cases op; simp add: emit_rewinding defs isBuffered_def split: option.split)+
  then show "rewinding h (exec uuid op st)" using i assms(1) by (simp add: rewinding_def)
  show "buffer_ms (exec uuid op st) = buffer_ms st"
    using assms init by (cases op) (simp_all add: emit_rewinding defs buffer_ms_def split: option.split)
  show "m_segments (exec uuid op st) = (case op of
           Emit g e co \<Rightarrow> if g = h then m_segments (emit_buffered e co st) else m_segments st
         | _ \<Rightarrow> m_segments st)"
    using assms init by (cases op) (simp_all add: emit_rewinding defs split: option.split)
  show "clock (exec uuid op st) = (case op of ClockTo t \<Rightarrow> t | _ \<Rightarrow> clock st)"
    using assms init by (cases op) (simp_all add: emit_rewinding defs split: option.split)
qed

text \<open>
  The buffer on its own: a clock and the segments, changed by the emissions of one
  recording and by the passing of time. The recorder refines it.
\<close>

fun tape_step :: "nat \<Rightarrow> int \<Rightarrow> sdk_op \<Rightarrow> int \<times> RawEvent list list \<Rightarrow> int \<times> RawEvent list list" where
  "tape_step h ms (Emit g e co) (now, segs) =
     (now, if g \<noteq> h then segs
           else if co \<or> segs = [] then prune (now - ms) (segs @ [[e]]) else push_last e segs)"
| "tape_step h ms (ClockTo t) (now, segs) = (t, segs)"
| "tape_step h ms _ (now, segs) = (now, segs)"

lemma exec_refines_tape:
  assumes "rewinding h st" and "op \<noteq> Stop"
  shows "(clock (exec uuid op st), m_segments (exec uuid op st)) =
    tape_step h (buffer_ms st) op (clock st, m_segments st)"
  using exec_rewinding(3,4) [OF assms, of uuid] assms(2) by (cases op) (simp_all add: emit_buffered_segments)

lemma run_refines_tape:
  assumes "rewinding h st" and "Stop \<notin> set ops"
  shows "(clock (run uuid ops st), m_segments (run uuid ops st)) =
    fold (tape_step h (buffer_ms st)) ops (clock st, m_segments st)"
  using assms
proof (induction ops arbitrary: st)
  case (Cons op ops)
  then have op: "op \<noteq> Stop" "Stop \<notin> set ops" by auto
  note r = exec_rewinding(1,2) [OF Cons.prems(1) op(1), of uuid]
  from Cons.IH [OF r(1) op(2)] r(2) exec_refines_tape [OF Cons.prems(1) op(1), of uuid]
  show ?case by (simp add: run_Cons)
qed simp

lemma window_exec:
  assumes "rewinding h st" and "op \<noteq> Stop" and "clocks_ok (clock st) (op # ops)"
    and "window_inv (clock st - buffer_ms st) es (m_segments st)"
  shows "window_inv (clock (exec uuid op st) - buffer_ms st) (es @ emitted_by h op) (m_segments (exec uuid op st))"
proof (cases op)
  case (Emit g e co)
  with assms(4) window_inv_open [OF assms(4), of e] window_inv_push [OF assms(4), of e] show ?thesis
    using exec_rewinding(3,4) [OF assms(1,2), of uuid] by (simp add: emit_buffered_segments)
next
  case (ClockTo t)
  with assms(3) window_inv_later [OF assms(4)] show ?thesis
    using exec_rewinding(3,4) [OF assms(1,2), of uuid] by simp
qed (use assms(4) exec_rewinding(3,4) [OF assms(1,2), of uuid] in simp_all)

lemma window_run:
  assumes "rewinding h st" and "Stop \<notin> set ops" and "clocks_ok (clock st) ops"
    and "window_inv (clock st - buffer_ms st) es (m_segments st)"
  shows "rewinding h (run uuid ops st) \<and> buffer_ms (run uuid ops st) = buffer_ms st
    \<and> window_inv (clock (run uuid ops st) - buffer_ms st) (es @ concat (map (emitted_by h) ops))
         (m_segments (run uuid ops st))"
  using assms
proof (induction ops arbitrary: st es)
  case (Cons op ops)
  then have op: "op \<noteq> Stop" "Stop \<notin> set ops" by auto
  have clk: "clocks_ok (clock (exec uuid op st)) ops"
    using Cons.prems(3) exec_rewinding(4) [OF Cons.prems(1) op(1), of uuid] by (cases op) simp_all
  note r = exec_rewinding(1,2) [OF Cons.prems(1) op(1), of uuid]
  from Cons.IH [OF r(1) op(2) clk, of "es @ emitted_by h op"] r(2)
    window_exec [OF Cons.prems(1) op(1) Cons.prems(3,4), of uuid]
  show ?case by (simp add: run_Cons)
qed simp


lemma init_rewinding:
  assumes "sdk_inv st" and "\<not> m_initialized st" and "has_uuid st" and "record_works st"
    and "or_default (cfg_mode c) Buffered = Buffered"
  shows "rewinding (next_handle st) (fst (init uuid c st))" and "m_segments (fst (init uuid c st)) = []"
    and "buffer_ms (fst (init uuid c st)) = or_default (bufferMs c) BUFFER_MS"
    and "clock (fst (init uuid c st)) = clock st"
proof -
  let ?st = "st\<lparr>m_initialized := True, m_config := Some c\<rparr>"
  obtain st1 h where r: "getOrCreateSession uuid ?st = (st1, Inr h)"
    using getOrCreateSession_returns [of ?st uuid] assms(3) by auto
  note rd = init_session_ready [OF assms(1,2) r]
  have f: "next_handle st1 = next_handle st" "record_works st1 = record_works st" "clock st1 = clock st"
    using session_frame [OF r] getOrCreateSession_clock [OF r] by simp_all
  note i = init_inv [OF assms(1), of uuid c]
  note defs = init_def Let_def isBuffered_def ready_def start_buffered_def start_recording_def
    mount_def buffer_ms_def
  show "m_segments (fst (init uuid c st)) = []"
    and "buffer_ms (fst (init uuid c st)) = or_default (bufferMs c) BUFFER_MS"
    and "clock (fst (init uuid c st)) = clock st"
    using r rd f assms(2,4,5) by (simp_all add: defs split: sum.split)
  show "rewinding (next_handle st) (fst (init uuid c st))"
    using i r rd f assms(2,4,5) unfolding rewinding_def by (simp add: defs split: sum.split)
qed

lemma window_inv_old:
  assumes "window_inv cutoff es segs" and "sorted (map ev_timestamp es)"
  shows "\<exists>dropped. es = dropped @ concat segs \<and> (\<forall>e\<in>set dropped. ev_timestamp e \<le> cutoff)
    \<and> (dropped \<noteq> [] \<longrightarrow> concat segs \<noteq> [] \<and> ev_timestamp (hd (concat segs)) \<le> cutoff)"
proof -
  from assms(1) obtain dropped where d: "es = dropped @ concat segs"
      "dropped \<noteq> [] \<longrightarrow> segs \<noteq> [] \<and> ev_timestamp (hd (hd segs)) \<le> cutoff" "\<forall>s\<in>set segs. s \<noteq> []"
    by (auto simp: window_inv_def)
  have h: "hd (concat segs) = hd (hd segs) \<and> concat segs \<noteq> []" if "dropped \<noteq> []"
    using d that by (cases segs) auto
  then have "hd (concat segs) \<in> set (concat segs)" if "dropped \<noteq> []" using that hd_in_set by blast
  then have "\<forall>e\<in>set dropped. ev_timestamp e \<le> ev_timestamp (hd (concat segs))"
    using assms(2) by (cases dropped) (fastforce simp: d(1) sorted_append)+
  with d h show ?thesis by fastforce
qed

text \<open>
  The buffer does not grow without end. Right after a checkout
  every buffered event outside the first segment is younger than the cutoff: what the
  buffer holds beyond the window is at most the one segment that opens it.
\<close>

lemma checkout_trims_buffer:
  assumes "page_loaded st0" and "st = run uuid history st0" and "\<not> m_initialized st"
    and "has_uuid st" and "record_works st" and "or_default (cfg_mode c) Buffered = Buffered"
    and "Stop \<notin> set ops" and "clocks_ok (clock st) ops"
    and "st' = run uuid ops (fst (init uuid c st))"
    and "sorted (map ev_timestamp (concat (map (emitted_by (next_handle st)) ops) @ [e]))"
    and "s \<in> set (tl (m_segments (emit (next_handle st) e True st')))" and "x \<in> set s"
  shows "clock st' - or_default (bufferMs c) 120000 < ev_timestamp x"
proof -
  have i: "sdk_inv st" using run_inv assms(1,2) by simp
  note r = init_rewinding [OF i assms(3-6), of uuid]
  let ?st = "fst (init uuid c st)" and ?es = "concat (map (emitted_by (next_handle st)) ops)"
  let ?segs = "m_segments st' @ [[e]]" and ?cut = "clock st' - or_default (bufferMs c) BUFFER_MS"
  have "window_inv (clock ?st - buffer_ms ?st) [] (m_segments ?st)" by (simp add: r(2) window_inv_def)
  from window_run [OF r(1) assms(7) _ this, of uuid] r(3,4) assms(8)
  have w: "window_inv ?cut ?es (m_segments st')" and re: "rewinding (next_handle st) st'"
    and b: "buffer_ms st' = or_default (bufferMs c) BUFFER_MS"
    by (simp_all add: assms(9))
  have segs: "m_segments (emit (next_handle st) e True st') = prune ?cut ?segs"
    by (simp add: emit_rewinding [OF re] emit_buffered_segments b)
  from assms(11) segs obtain s1 s2 rest where p: "prune ?cut ?segs = s1 # s2 # rest" "s \<in> set (s2 # rest)"
    by (cases "prune ?cut ?segs" rule: list.exhaust; cases "tl (prune ?cut ?segs)" rule: list.exhaust) auto
  have ne: "\<forall>s\<in>set ?segs. s \<noteq> []" using w by (auto simp: window_inv_def)
  have "suffix (concat (s2 # rest)) (?es @ [e])"
  proof -
    from window_inv_open [OF w, of e] obtain d where "?es @ [e] = d @ concat (prune ?cut ?segs)"
      unfolding window_inv_def by blast
    then show ?thesis using p(1) by (auto simp: suffix_def)
  qed
  then have "sorted (map ev_timestamp (concat (s2 # rest)))"
    using assms(10) by (rule sorted_map_suffix)
  moreover have "s2 \<noteq> []"
    using ne p(1) set_mono_suffix [OF prune_suffix [of ?cut ?segs]] by auto
  moreover have "x \<in> set (concat (s2 # rest))" using p(2) assms(12) by auto
  ultimately have "ev_timestamp (hd s2) \<le> ev_timestamp x" by (cases s2) auto
  with prune_second_after_cutoff [OF ne p(1)] show ?thesis by (simp add: BUFFER_MS_def)
qed

text \<open>
  Property C1 (the rewind). Initialize the recorder in \<open>buffered\<close> mode in any reachable state and let anything
  but \<open>stop\<close> happen, with a clock that does not go back and events emitted in the order of
  their timestamps. Then the rolling buffer holds the end of what was recorded, in order;
  everything that has been dropped is at least \<open>bufferMs\<close> old (two minutes by default); and
  if anything has been dropped the buffer still opens with an event that is at least that
  old, so the whole window is there. At the next checkout everything outside the first segment
  is younger than the cutoff: what the buffer holds beyond the window is at most the one segment
  that opens it.
\<close>

theorem rolling_window_retained:
  assumes "page_loaded st0" and "st = run uuid history st0" and "\<not> m_initialized st"
    and "has_uuid st" and "record_works st" and "or_default (cfg_mode c) Buffered = Buffered"
    and "Stop \<notin> set ops" and "clocks_ok (clock st) ops"
    and "st' = run uuid ops (fst (init uuid c st))"
    and "es = concat (map (emitted_by (next_handle st)) ops)" and "sorted (map ev_timestamp es)"
  shows "(\<exists>dropped. es = dropped @ concat (m_segments st')
    \<and> (\<forall>e\<in>set dropped. ev_timestamp e \<le> clock st' - or_default (bufferMs c) 120000)
    \<and> (dropped \<noteq> [] \<longrightarrow> concat (m_segments st') \<noteq> []
         \<and> ev_timestamp (hd (concat (m_segments st'))) \<le> clock st' - or_default (bufferMs c) 120000))
    \<and> (\<forall>e s x. sorted (map ev_timestamp (es @ [e])) \<longrightarrow> s \<in> set (tl (m_segments (emit (next_handle st) e True st')))
         \<longrightarrow> x \<in> set s \<longrightarrow> clock st' - or_default (bufferMs c) 120000 < ev_timestamp x)"
proof -
  have i: "sdk_inv st" using run_inv assms(1,2) by simp
  note r = init_rewinding [OF i assms(3-6), of uuid]
  let ?st = "fst (init uuid c st)"
  have "window_inv (clock ?st - buffer_ms ?st) [] (m_segments ?st)" by (simp add: r(2) window_inv_def)
  from window_run [OF r(1) assms(7) _ this, of uuid] r(3,4) assms(8)
  have "window_inv (clock st' - or_default (bufferMs c) BUFFER_MS) es (m_segments st')"
    by (simp add: assms(9,10))
  from window_inv_old [OF this assms(11)] checkout_trims_buffer [OF assms(1-9)] show ?thesis
    unfolding assms(10) BUFFER_MS_def by blast
qed

definition demo_tape :: "sdk_op list" where
  "demo_tape = [Emit 0 (demo_event 2 1000) True, ClockTo 2000, Emit 0 (demo_event 3 2000) False,
     ClockTo 125000, Emit 0 (demo_event 2 125000) True, ClockTo 250000, Emit 0 (demo_event 2 250000) True]"

lemma demo_facts:
  "\<not> m_initialized demo_page" "has_uuid demo_page" "record_works demo_page"
  "or_default (cfg_mode demo_config) Buffered = Buffered" "Stop \<notin> set demo_tape"
  "clocks_ok (clock demo_page) demo_tape"
  by (simp_all add: demo_page_def demo_config_def demo_tape_def)

lemma demo_values [simp]: "next_handle demo_page = 0" "bufferMs demo_config = None"
  by (simp_all add: demo_page_def demo_config_def)

lemma demo_page_inv: "sdk_inv demo_page"
  using run_inv [OF demo_page_loaded, of _ "[]"] by simp

lemma demo_rewind:
  "clock (run demo_uuid demo_tape (fst (init demo_uuid demo_config demo_page))) = 250000"
  "m_segments (run demo_uuid demo_tape (fst (init demo_uuid demo_config demo_page)))
     = [[demo_event 2 125000], [demo_event 2 250000]]"
proof -
  note r = init_rewinding [OF demo_page_inv demo_facts(1-4), of demo_uuid]
  from run_refines_tape [OF r(1) demo_facts(5), of demo_uuid] r(2,3,4)
  show "clock (run demo_uuid demo_tape (fst (init demo_uuid demo_config demo_page))) = 250000"
    and "m_segments (run demo_uuid demo_tape (fst (init demo_uuid demo_config demo_page)))
     = [[demo_event 2 125000], [demo_event 2 250000]]"
    by (simp_all add: demo_tape_def demo_page_def demo_config_def BUFFER_MS_def push_last_def
        demo_event_def)
qed

theorem rolling_window_retained_witness:
  "\<exists>dropped. concat (map (emitted_by 0) demo_tape)
       = dropped @ concat (m_segments (run demo_uuid demo_tape (fst (init demo_uuid demo_config demo_page))))
     \<and> length dropped = 2 \<and> ev_timestamp (last dropped) \<le> 250000 - 120000"
proof -
  let ?st = "run demo_uuid demo_tape (fst (init demo_uuid demo_config demo_page))"
  have "sorted (map ev_timestamp (concat (map (emitted_by (next_handle demo_page)) demo_tape)))"
    by (simp add: demo_tape_def demo_event_def)
  then obtain dropped where
      d: "concat (map (emitted_by 0) demo_tape) = dropped @ concat (m_segments ?st)"
    and o: "\<forall>e\<in>set dropped. ev_timestamp e \<le> clock ?st - 120000"
    using rolling_window_retained [where uuid = demo_uuid,
        OF demo_page_loaded run_Nil [symmetric] demo_facts refl refl]
    by auto
  have "length (concat (map (emitted_by 0) demo_tape)) = 4" by (simp add: demo_tape_def)
  with d have "length dropped = 2" by (simp add: demo_rewind)
  with o have "ev_timestamp (last dropped) \<le> 250000 - 120000"
    by (cases dropped rule: rev_cases) (auto simp: demo_rewind)
  with d \<open>length dropped = 2\<close> show ?thesis by blast
qed

end
