(* ===== verification/RecorderTape.thy ===== *)
theory RecorderTape
  imports RecorderBuffer
begin

text \<open>
  The rolling buffer of the \<open>buffered\<close> mode refines an abstract tape: one list of events, some of them
  marked as checkouts, cut at the front.
\<close>

section \<open>An abstract tape\<close>

text \<open>
  A tape is one list of events, of which some are marked as checkouts. Recording appends; at
  a checkout, everything before the next mark is cut off for as long as that mark is not
  younger than the cutoff.
\<close>

function trim_tape :: "int \<Rightarrow> (bool \<times> RawEvent) list \<Rightarrow> (bool \<times> RawEvent) list" where
  "trim_tape cutoff [] = []"
| "trim_tape cutoff (x # rest) =
     (case dropWhile (\<lambda>y. \<not> fst y) rest of
        [] \<Rightarrow> x # rest
      | y # ys \<Rightarrow> if ev_timestamp (snd y) \<le> cutoff then trim_tape cutoff (y # ys) else x # rest)"
  by pat_completeness auto
termination
proof (relation "measure (\<lambda>(_, xs). length xs)")
  fix cutoff :: int and x y :: "bool \<times> RawEvent" and rest ys
  assume "dropWhile (\<lambda>y. \<not> fst y) rest = y # ys"
  then have "length (y # ys) \<le> length rest" using length_dropWhile_le [of "\<lambda>y. \<not> fst y" rest] by simp
  then show "((cutoff, y # ys), (cutoff, x # rest)) \<in> measure (\<lambda>(_, xs). length xs)" by simp
qed simp

fun tape_spec :: "nat \<Rightarrow> int \<Rightarrow> sdk_op \<Rightarrow> int \<times> (bool \<times> RawEvent) list \<Rightarrow> int \<times> (bool \<times> RawEvent) list" where
  "tape_spec h ms (Emit g e co) (now, tape) =
     (now, if g \<noteq> h then tape
           else if co \<or> tape = [] then trim_tape (now - ms) (tape @ [(True, e)]) else tape @ [(False, e)])"
| "tape_spec h ms (ClockTo t) (now, tape) = (t, tape)"
| "tape_spec h ms _ (now, tape) = (now, tape)"

text \<open>The segments as a tape: the first event of each is marked.\<close>

definition mark_segment :: "RawEvent list \<Rightarrow> (bool \<times> RawEvent) list" where
  "mark_segment s = (case s of [] \<Rightarrow> [] | e # es \<Rightarrow> (True, e) # map (Pair False) es)"

definition tape_of :: "RawEvent list list \<Rightarrow> (bool \<times> RawEvent) list" where
  "tape_of segs = concat (map mark_segment segs)"

definition filled :: "RawEvent list list \<Rightarrow> bool" where
  "filled segs \<longleftrightarrow> (\<forall>s\<in>set segs. s \<noteq> [])"

lemma tape_of_simps [simp]:
  "tape_of [] = []" "tape_of (s # segs) = mark_segment s @ tape_of segs" "tape_of (a @ b) = tape_of a @ tape_of b"
  by (simp_all add: tape_of_def)

lemma mark_segment_simps [simp]: "mark_segment [] = []" "mark_segment (e # es) = (True, e) # map (Pair False) es"
  by (simp_all add: mark_segment_def)

lemma map_snd_mark: "map snd (mark_segment s) = s"
  by (cases s) (simp_all add: o_def)

lemma map_snd_tape: "map snd (tape_of segs) = concat segs"
  by (induction segs) (simp_all add: map_snd_mark)

lemma tape_of_Nil: "filled segs \<Longrightarrow> tape_of segs = [] \<longleftrightarrow> segs = []"
  by (cases segs) (auto simp: filled_def mark_segment_def split: list.split)

lemma skip_unmarked:
  "dropWhile (\<lambda>y. \<not> fst y) (map (Pair False) es @ tape) = dropWhile (\<lambda>y. \<not> fst y) tape"
  by (induction es) simp_all

lemma skip_all: "dropWhile (\<lambda>y. \<not> fst y) (map (Pair False) es) = []"
  by (induction es) simp_all

lemma prune_filled: "filled segs \<Longrightarrow> filled (prune c segs)"
  by (induction c segs rule: prune.induct) (auto simp: filled_def split: list.splits)

lemma prune_is_trim: "filled segs \<Longrightarrow> tape_of (prune c segs) = trim_tape c (tape_of segs)"
proof (induction c segs rule: prune.induct)
  case (1 cutoff s1 s2 rest)
  then obtain e1 r1 e2 r2 where s: "s1 = e1 # r1" "s2 = e2 # r2"
    by (auto simp: filled_def neq_Nil_conv)
  have "filled (s2 # rest)" using "1.prems" by (simp add: filled_def)
  with "1.IH" s have "ev_timestamp e2 \<le> cutoff \<Longrightarrow>
      tape_of (prune cutoff (s2 # rest)) = trim_tape cutoff (tape_of (s2 # rest))" by simp
  with s show ?case by (simp add: skip_unmarked)
qed (auto simp: filled_def neq_Nil_conv skip_all)

lemma push_last_tape:
  assumes "filled segs" and "segs \<noteq> []"
  shows "filled (push_last e segs) \<and> tape_of (push_last e segs) = tape_of segs @ [(False, e)]"
proof -
  obtain ss s where segs: "segs = ss @ [s]" using assms(2) by (metis append_butlast_last_id)
  then obtain x r where "s = x # r" using assms(1) by (auto simp: filled_def neq_Nil_conv)
  with segs assms(1) show ?thesis by (auto simp: push_last_def filled_def)
qed

lemma tape_step_spec:
  assumes "filled segs" and "tape_step h ms op (now, segs) = (now', segs')"
  shows "filled segs' \<and> tape_spec h ms op (now, tape_of segs) = (now', tape_of segs')"
proof (cases op)
  case (Emit g e co)
  have "filled (segs @ [[e]])" using assms(1) by (simp add: filled_def)
  with Emit assms prune_is_trim [of "segs @ [[e]]" "now - ms"] prune_filled [of "segs @ [[e]]" "now - ms"]
    push_last_tape [OF assms(1), of e] tape_of_Nil [OF assms(1)]
  show ?thesis by (auto split: if_splits)
qed (use assms in auto)

lemma tape_fold_spec:
  assumes "filled segs" and "fold (tape_step h ms) ops (now, segs) = (now', segs')"
  shows "fold (tape_spec h ms) ops (now, tape_of segs) = (now', tape_of segs')"
  using assms
proof (induction ops arbitrary: now segs)
  case (Cons op ops)
  obtain n1 s1 where s: "tape_step h ms op (now, segs) = (n1, s1)" by force
  from tape_step_spec [OF Cons.prems(1) s] Cons.IH [of s1 n1] Cons.prems(2) s show ?case by simp
qed simp

text \<open>
  Property C6 (the buffer is a tape). Initialize the recorder in \<open>buffered\<close> mode in any reachable state and let
  anything but \<open>stop\<close> happen. Seen as one list of events with marks at the checkouts, the rolling
  buffer is what the abstract tape gives for the emissions of that recording and the
  passing of time; nothing else that happens in the page touches it.
\<close>

theorem buffered_mode_refines_tape:
  assumes "page_loaded st0" and "st = run uuid history st0" and "\<not> m_initialized st"
    and "has_uuid st" and "record_works st" and "or_default (cfg_mode c) Buffered = Buffered"
    and "Stop \<notin> set ops" and "st' = run uuid ops (fst (init uuid c st))"
  shows "fold (tape_spec (next_handle st) (or_default (bufferMs c) 120000)) ops (clock st, [])
      = (clock st', tape_of (m_segments st'))
    \<and> concat (m_segments st') = map snd (tape_of (m_segments st'))"
proof -
  have i: "sdk_inv st" using run_inv assms(1,2) by simp
  note r = init_rewinding [OF i assms(3-6), of uuid]
  from run_refines_tape [OF r(1) assms(7), of uuid] r(2-4)
  have "fold (tape_step (next_handle st) (or_default (bufferMs c) 120000)) ops (clock st, []) = (clock st', m_segments st')"
    by (simp add: assms(8) BUFFER_MS_def)
  from tape_fold_spec [OF _ this] show ?thesis by (simp add: filled_def map_snd_tape)
qed

theorem buffered_mode_refines_tape_witness:
  "fold (tape_spec 0 120000) demo_tape (clock demo_page, []) =
     (250000, tape_of (m_segments (run demo_uuid demo_tape (fst (init demo_uuid demo_config demo_page)))))"
proof -
  have "clock (run demo_uuid demo_tape (fst (init demo_uuid demo_config demo_page))) = 250000" by (rule demo_rewind)
  then show ?thesis
    using buffered_mode_refines_tape [OF demo_page_loaded, of demo_page demo_uuid "[]" demo_config demo_tape] demo_facts
    by (simp add: run_def demo_page_def demo_config_def)
qed

end
