(* ===== verification/Base64.thy ===== *)
theory Base64
  imports WebStorage
begin

text \<open>
  \<open>atob\<close>, with which the dashboard reads the claims of its access token: the forgiving
  decoder of the HTML standard, for the standard alphabet. A binary string is a string
  whose units are below 256. The encoders, with the standard alphabet and with the one
  that tokens use, are not in the sources: they say which texts the decoder accepts.
\<close>

section \<open>Sextets\<close>

fun b64_enc :: "nat list \<Rightarrow> nat list" where
  "b64_enc [] = []"
| "b64_enc [a] = [a div 4, (a mod 4) * 16]"
| "b64_enc [a, b] = [a div 4, (a mod 4) * 16 + b div 16, (b mod 16) * 4]"
| "b64_enc (a # b # c # r) =
     [a div 4, (a mod 4) * 16 + b div 16, (b mod 16) * 4 + c div 64, c mod 64] @ b64_enc r"

fun b64_dec :: "nat list \<Rightarrow> nat list" where
  "b64_dec (w # x # y # z # r) =
     [w * 4 + x div 16, (x mod 16) * 16 + y div 4, (y mod 4) * 64 + z] @ b64_dec r"
| "b64_dec [w, x, y] = [w * 4 + x div 16, (x mod 16) * 16 + y div 4]"
| "b64_dec [w, x] = [w * 4 + x div 16]"
| "b64_dec _ = []"

lemma b64_dec_enc: "\<forall>b\<in>set bs. b < 256 \<Longrightarrow> b64_dec (b64_enc bs) = bs"
proof (induction bs rule: b64_enc.induct)
  case (4 a b c r)
  have "a div 4 * 4 + ((a mod 4) * 16 + b div 16) div 16 = a" using 4 by auto
  moreover have "(((a mod 4) * 16 + b div 16) mod 16) * 16 + ((b mod 16) * 4 + c div 64) div 4 = b"
    using 4 by auto
  moreover have "(((b mod 16) * 4 + c div 64) mod 4) * 64 + c mod 64 = c" using 4 by auto
  ultimately show ?case using 4 by simp
qed auto

lemma b64_enc_range: "\<forall>b\<in>set bs. b < 256 \<Longrightarrow> \<forall>x\<in>set (b64_enc bs). x < 64"
  by (induction bs rule: b64_enc.induct) auto

lemma b64_enc_length: "length (b64_enc bs) mod 4 \<noteq> 1"
  by (induction bs rule: b64_enc.induct) auto


section \<open>The alphabets\<close>

definition b64_val :: "16 word \<Rightarrow> nat option" where
  "b64_val c =
     (if 0x41 \<le> c \<and> c \<le> 0x5A then Some (unat c - 0x41)
      else if 0x61 \<le> c \<and> c \<le> 0x7A then Some (unat c - 0x61 + 26)
      else if 0x30 \<le> c \<and> c \<le> 0x39 then Some (unat c - 0x30 + 52)
      else if c = 0x2B then Some 62
      else if c = 0x2F then Some 63
      else None)"

definition b64_char :: "nat \<Rightarrow> 16 word" where
  "b64_char n =
     (if n < 26 then of_nat (0x41 + n)
      else if n < 52 then of_nat (0x61 + (n - 26))
      else if n < 62 then of_nat (0x30 + (n - 52))
      else if n = 62 then 0x2B
      else 0x2F)"

text \<open>The alphabet of JSON Web Tokens: a dash and an underscore for the last two.\<close>

definition b64url_char :: "nat \<Rightarrow> 16 word" where
  "b64url_char n = (if n = 62 then 0x2D else if n = 63 then 0x5F else b64_char n)"

lemma unat_unit: "n < 65536 \<Longrightarrow> unat (of_nat n :: 16 word) = n"
  by (rule of_nat_inverse) simp_all

lemma unat_b64_char: "n < 64 \<Longrightarrow> unat (b64_char n) =
    (if n < 26 then 65 + n else if n < 52 then 71 + n else if n < 62 then n - 4 else if n = 62 then 43 else 47)"
  using unat_unit [of "65 + n"] unat_unit [of "97 + (n - 26)"] unat_unit [of "48 + (n - 52)"]
  by (auto simp: b64_char_def simp del: of_nat_add)

lemma b64_val_unat: "b64_val c =
    (if 65 \<le> unat c \<and> unat c \<le> 90 then Some (unat c - 65)
     else if 97 \<le> unat c \<and> unat c \<le> 122 then Some (unat c - 71)
     else if 48 \<le> unat c \<and> unat c \<le> 57 then Some (unat c + 4)
     else if unat c = 43 then Some 62
     else if unat c = 47 then Some 63
     else None)"
  by (auto simp: b64_val_def word_le_nat_alt unsigned_word_eqI)

lemma b64_val_char: "n < 64 \<Longrightarrow> b64_val (b64_char n) = Some n"
  by (auto simp: b64_val_unat unat_b64_char)

lemma b64_char_plain: "n < 64 \<Longrightarrow> b64_char n \<notin> {0x3D, 0x2E, 9, 10, 12, 13, 32}"
  using unat_b64_char [of n] by (auto split: if_splits)

lemma b64url_char_low: "n < 62 \<Longrightarrow> b64url_char n = b64_char n"
  by (simp add: b64url_char_def)

lemma b64url_char_high: "62 \<le> n \<Longrightarrow> n < 64 \<Longrightarrow> b64_val (b64url_char n) = None"
proof -
  assume "62 \<le> n" and "n < 64"
  then have "n = 62 \<or> n = 63" by auto
  then show ?thesis by (auto simp: b64url_char_def b64_val_def)
qed


section \<open>Decoding\<close>

definition ascii_ws :: "16 word \<Rightarrow> bool" where
  "ascii_ws c \<longleftrightarrow> c = 9 \<or> c = 10 \<or> c = 12 \<or> c = 13 \<or> c = 32"

definition strip_padding :: "jsstr \<Rightarrow> jsstr" where
  "strip_padding s =
     (if length s mod 4 \<noteq> 0 then s
      else if endsWith s (js ''=='') then take (length s - 2) s
      else if endsWith s (js ''='') then take (length s - 1) s
      else s)"

definition atob :: "jsstr \<Rightarrow> jsstr res" where
  "atob s =
     (let t = strip_padding (filter (\<lambda>c. \<not> ascii_ws c) s)
      in if length t mod 4 = 1 \<or> \<not> list_all (\<lambda>c. b64_val c \<noteq> None) t then Inl DOMError
         else Inr (map of_nat (b64_dec (map (\<lambda>c. the (b64_val c)) t))))"

definition b64_text :: "jsstr \<Rightarrow> jsstr" where
  "b64_text bin = map b64_char (b64_enc (map unat bin))"

definition b64url_text :: "jsstr \<Rightarrow> jsstr" where
  "b64url_text bin = map b64url_char (b64_enc (map unat bin))"

definition binary :: "jsstr \<Rightarrow> bool" where
  "binary s \<longleftrightarrow> list_all (\<lambda>c. c < 256) s"

text \<open>Whether the encoded text avoids the two sextets in which the alphabets differ.\<close>

definition url_plain :: "jsstr \<Rightarrow> bool" where
  "url_plain bin \<longleftrightarrow> list_all (\<lambda>x. x < 62) (b64_enc (map unat bin))"

lemma binary_bytes: "binary bin \<Longrightarrow> \<forall>b\<in>set (map unat bin). b < 256"
  by (auto simp: binary_def list_all_iff word_less_nat_alt)

lemma sextets: "binary bin \<Longrightarrow> \<forall>x\<in>set (b64_enc (map unat bin)). x < 64"
  by (intro b64_enc_range binary_bytes)

lemma endsWith_pad:
  assumes "endsWith s (p @ [c])"
  shows "c \<in> set s"
  using assms by (auto simp: endsWith_iff suffix_def)

lemma strip_padding_id:
  assumes "0x3D \<notin> set s"
  shows "strip_padding s = s"
proof -
  have "\<not> endsWith s (js ''='')" and "\<not> endsWith s (js ''=='')"
    using assms endsWith_pad [of s "[]" "0x3D"] endsWith_pad [of s "[0x3D]" "0x3D"]
    by (auto simp: js_def)
  then show ?thesis by (simp add: strip_padding_def)
qed


lemma filter_plain: "(\<forall>c\<in>set s. \<not> ascii_ws c) \<Longrightarrow> filter (\<lambda>c. \<not> ascii_ws c) s = s"
  by (simp add: filter_id_conv)

text \<open>What \<open>atob\<close> does with text that has no white space and no padding.\<close>

lemma atob_plain:
  assumes "\<forall>c\<in>set s. \<not> ascii_ws c" and "0x3D \<notin> set s"
  shows "atob s = (if length s mod 4 = 1 \<or> \<not> list_all (\<lambda>c. b64_val c \<noteq> None) s then Inl DOMError
    else Inr (map of_nat (b64_dec (map (\<lambda>c. the (b64_val c)) s))))"
  by (simp add: atob_def filter_plain [OF assms(1)] strip_padding_id [OF assms(2)] Let_def)

lemma b64_text_plain:
  assumes "binary bin" and "c \<in> set (b64_text bin)"
  shows "\<not> ascii_ws c" and "c \<noteq> 0x3D" and "c \<noteq> 0x2E"
proof -
  from assms(2) obtain n where "n \<in> set (b64_enc (map unat bin))" and c: "c = b64_char n"
    by (auto simp: b64_text_def)
  then have "n < 64" using sextets [OF assms(1)] by blast
  from b64_char_plain [OF this] show "\<not> ascii_ws c" and "c \<noteq> 0x3D" and "c \<noteq> 0x2E"
    by (auto simp: c ascii_ws_def)
qed

lemma atob_b64_text:
  assumes "binary bin"
  shows "atob (b64_text bin) = Inr bin"
proof -
  let ?x = "b64_enc (map unat bin)"
  have r: "\<forall>n\<in>set ?x. n < 64" by (rule sextets [OF assms])
  have ok: "list_all (\<lambda>c. b64_val c \<noteq> None) (b64_text bin)"
    using r by (auto simp: b64_text_def list_all_iff b64_val_char)
  have "map (\<lambda>c. the (b64_val c)) (b64_text bin) = ?x"
    using r by (simp add: b64_text_def b64_val_char map_idI)
  then have "map of_nat (b64_dec (map (\<lambda>c. the (b64_val c)) (b64_text bin))) = bin"
    using b64_dec_enc [OF binary_bytes [OF assms]] by (simp add: o_def map_idI)
  moreover have "length (b64_text bin) mod 4 \<noteq> 1"
    using b64_enc_length by (simp add: b64_text_def)
  ultimately show ?thesis
    using ok atob_plain [of "b64_text bin"] b64_text_plain [OF assms] by auto
qed

interpretation base64: codec b64_text atob binary
  by unfold_locales (rule atob_b64_text)

lemma b64url_text_plain: "url_plain bin \<Longrightarrow> b64url_text bin = b64_text bin"
  by (simp add: b64url_text_def b64_text_def url_plain_def list_all_iff b64url_char_low)

text \<open>A text with a dash or an underscore is rejected.\<close>

lemma b64url_char_bad: "n < 64 \<Longrightarrow> \<not> ascii_ws (b64url_char n) \<and> b64url_char n \<noteq> 0x3D \<and> b64url_char n \<noteq> 0x2E"
  using b64_char_plain [of n] by (auto simp: b64url_char_def ascii_ws_def)

lemma b64url_text_units:
  assumes "binary bin" and "c \<in> set (b64url_text bin)"
  shows "\<not> ascii_ws c \<and> c \<noteq> 0x3D \<and> c \<noteq> 0x2E"
proof -
  from assms(2) obtain n where "n \<in> set (b64_enc (map unat bin))" and c: "c = b64url_char n"
    by (auto simp: b64url_text_def)
  then have "n < 64" using sextets [OF assms(1)] by blast
  from b64url_char_bad [OF this] c show ?thesis by simp
qed

lemma atob_b64url_text:
  assumes "binary bin" and "\<not> url_plain bin"
  shows "atob (b64url_text bin) = Inl DOMError"
proof -
  from assms(2) obtain n where n: "n \<in> set (b64_enc (map unat bin))" "62 \<le> n"
    by (auto simp: url_plain_def list_all_iff)
  with sextets [OF assms(1)] have "b64_val (b64url_char n) = None"
    by (intro b64url_char_high) auto
  moreover have "b64url_char n \<in> set (b64url_text bin)" using n(1) by (simp add: b64url_text_def)
  ultimately have "\<not> list_all (\<lambda>c. b64_val c \<noteq> None) (b64url_text bin)"
    unfolding list_all_iff by blast
  with atob_plain [of "b64url_text bin"] b64url_text_units [OF assms(1)] show ?thesis by auto
qed

end
