(* ===== verification/DashAuth.thy ===== *)
theory DashAuth
  imports Base64
begin

text \<open>
  The dashboard's login state (\<open>packages/dashboard/src/lib/auth.ts\<close>), the authenticated
  \<open>fetch\<close> (\<open>lib/api.ts\<close>) and the theme (\<open>lib/theme.ts\<close>). The state is the browser's
  \<open>localStorage\<close>, the clock, the address of the page and the theme classes on the
  document's root element. A function that changes state before it throws returns the
  changed state with the exception.
\<close>

record dash =
  d_now :: int
  d_store :: storage
  d_location :: jsstr
  d_themes :: "jsstr list"

definition TOKEN_KEY :: jsstr where "TOKEN_KEY = js ''batrewind_token''"
definition USER_KEY :: jsstr where "USER_KEY = js ''batrewind_user''"

lemma keys_differ [simp]: "USER_KEY \<noteq> TOKEN_KEY" "TOKEN_KEY \<noteq> USER_KEY"
  by (simp_all add: USER_KEY_def TOKEN_KEY_def)


section \<open>auth.ts\<close>

definition getToken :: "storage \<Rightarrow> jsstr option res" where
  "getToken s = getItem s TOKEN_KEY"

text \<open>\<open>JSON.stringify\<close> of \<open>undefined\<close> is \<open>undefined\<close>, which the storage turns into text.\<close>

definition setAuth :: "jsval \<Rightarrow> jsval \<Rightarrow> storage \<Rightarrow> storage \<times> unit res" where
  "setAuth token user s =
     (case bindR (js_String token) (setItem s TOKEN_KEY) of
        Inl e \<Rightarrow> (s, Inl e)
      | Inr s1 \<Rightarrow>
          (case setItem s1 USER_KEY (if user = JUndef then js ''undefined'' else stringify user) of
             Inl e \<Rightarrow> (s1, Inl e)
           | Inr s2 \<Rightarrow> (s2, Inr ())))"

definition clearAuth :: "storage \<Rightarrow> storage \<times> unit res" where
  "clearAuth s =
     (case removeItem s TOKEN_KEY of
        Inl e \<Rightarrow> (s, Inl e)
      | Inr s1 \<Rightarrow>
          (case removeItem s1 USER_KEY of
             Inl e \<Rightarrow> (s1, Inl e)
           | Inr s2 \<Rightarrow> (s2, Inr ())))"

definition getUser :: "storage \<Rightarrow> jsval res" where
  "getUser s =
     bindR (getItem s USER_KEY) (\<lambda>raw.
       case raw of
         None \<Rightarrow> Inr JNull
       | Some r \<Rightarrow>
           if r = [] then Inr JNull
           else (case json_parse r of Inl _ \<Rightarrow> Inr JNull | Inr v \<Rightarrow> Inr v))"

text \<open>\<open>token.split('.')[1]\<close>, which \<open>atob\<close> converts to text when it is missing.\<close>

definition token_part :: "jsstr \<Rightarrow> jsstr" where
  "token_part token =
     (let parts = split_on 0x2E token
      in if 1 < length parts then parts ! 1 else js ''undefined'')"

text \<open>The body of the \<open>try\<close>.\<close>

definition claims_expired :: "int \<Rightarrow> jsstr \<Rightarrow> bool res" where
  "claims_expired now token =
     bindR (atob (token_part token)) (\<lambda>txt.
       bindR (json_parse txt) (\<lambda>payload.
         bindR (js_get payload (js ''exp'')) (\<lambda>e.
           bindR (to_number e) (\<lambda>x. Inr (times_less_int x 1000 now)))))"

definition isTokenExpired :: "int \<Rightarrow> storage \<Rightarrow> bool res" where
  "isTokenExpired now s =
     bindR (getToken s) (\<lambda>t.
       case t of
         None \<Rightarrow> Inr True
       | Some token \<Rightarrow>
           if token = [] then Inr True
           else (case claims_expired now token of Inl _ \<Rightarrow> Inr True | Inr b \<Rightarrow> Inr b))"

definition isAuthenticated :: "int \<Rightarrow> storage \<Rightarrow> storage \<times> bool res" where
  "isAuthenticated now s =
     (case getToken s of
        Inl e \<Rightarrow> (s, Inl e)
      | Inr None \<Rightarrow> (s, Inr False)
      | Inr (Some token) \<Rightarrow>
          if token = [] then (s, Inr False)
          else (case isTokenExpired now s of
                  Inl e \<Rightarrow> (s, Inl e)
                | Inr True \<Rightarrow> (case clearAuth s of (s1, Inl e) \<Rightarrow> (s1, Inl e) | (s1, Inr _) \<Rightarrow> (s1, Inr False))
                | Inr False \<Rightarrow> (s, Inr True)))"


section \<open>api.ts\<close>

text \<open>
  A request as \<open>fetch\<close> receives it, and what comes back: a status and a body. The server
  is a parameter, a function from requests to a response or a network error.
\<close>

record request =
  req_url :: jsstr
  req_method :: jsstr
  req_headers :: "(jsstr \<times> jsstr) list"
  req_body :: "jsstr option"

record response =
  rsp_status :: int
  rsp_body :: jsstr

type_synonym backend = "request \<Rightarrow> response res"

definition rsp_ok :: "response \<Rightarrow> bool" where
  "rsp_ok r \<longleftrightarrow> 200 \<le> rsp_status r \<and> rsp_status r \<le> 299"

definition rsp_json :: "response \<Rightarrow> jsval res" where
  "rsp_json r = json_parse (rsp_body r)"

text \<open>\<open>{ ...base, ...over }\<close> on header lists.\<close>

definition merge_headers :: "(jsstr \<times> jsstr) list \<Rightarrow> (jsstr \<times> jsstr) list \<Rightarrow> (jsstr \<times> jsstr) list" where
  "merge_headers base over = filter (\<lambda>h. fst h \<notin> fst ` set over) base @ over"

definition auth_headers :: "jsstr option \<Rightarrow> (jsstr \<times> jsstr) list" where
  "auth_headers token =
     (case token of
        None \<Rightarrow> []
      | Some t \<Rightarrow> if t = [] then [] else [(js ''Authorization'', js ''Bearer '' @ t)])"

definition fetchWithAuth :: "backend \<Rightarrow> request \<Rightarrow> dash \<Rightarrow> dash \<times> response res" where
  "fetchWithAuth srv rq d =
     (case getToken (d_store d) of
        Inl e \<Rightarrow> (d, Inl e)
      | Inr token \<Rightarrow>
          (case srv (rq\<lparr>req_headers := merge_headers (auth_headers token) (req_headers rq)\<rparr>) of
             Inl e \<Rightarrow> (d, Inl e)
           | Inr r \<Rightarrow>
               if rsp_status r = 401
               then (case clearAuth (d_store d) of
                       (s, Inl e) \<Rightarrow> (d\<lparr>d_store := s\<rparr>, Inl e)
                     | (s, Inr _) \<Rightarrow>
                         (d\<lparr>d_store := s, d_location := js ''/login''\<rparr>, Inl (Thrown ''Unauthorized'')))
               else (d, Inr r)))"


section \<open>theme.ts\<close>

definition THEME_KEY :: jsstr where "THEME_KEY = js ''batrewind-theme''"

definition getStoredTheme :: "dash \<Rightarrow> jsstr res" where
  "getStoredTheme d =
     bindR (getItem (d_store d) THEME_KEY) (\<lambda>t. Inr (case t of None \<Rightarrow> js ''dark'' | Some x \<Rightarrow> x))"

text \<open>\<open>classList.add\<close>, which throws on a class that is empty or has white space in it.\<close>

definition add_class :: "jsstr \<Rightarrow> jsstr list \<Rightarrow> jsstr list res" where
  "add_class c cls =
     (if c = [] \<or> list_ex (\<lambda>u. u \<in> {9, 10, 12, 13, 32}) c then Inl DOMError
      else Inr (if c \<in> set cls then cls else cls @ [c]))"

definition applyTheme :: "jsstr \<Rightarrow> dash \<Rightarrow> dash \<times> unit res" where
  "applyTheme theme d =
     (let cls = filter (\<lambda>c. c \<noteq> js ''dark'' \<and> c \<noteq> js ''light'') (d_themes d)
      in case add_class theme cls of
           Inl e \<Rightarrow> (d\<lparr>d_themes := cls\<rparr>, Inl e)
         | Inr cls' \<Rightarrow>
             (case setItem (d_store d) THEME_KEY theme of
                Inl e \<Rightarrow> (d\<lparr>d_themes := cls'\<rparr>, Inl e)
              | Inr s \<Rightarrow> (d\<lparr>d_themes := cls', d_store := s\<rparr>, Inr ())))"

definition toggleTheme :: "dash \<Rightarrow> dash \<times> jsstr res" where
  "toggleTheme d =
     (case getStoredTheme d of
        Inl e \<Rightarrow> (d, Inl e)
      | Inr current \<Rightarrow>
          (let nxt = (if current = js ''dark'' then js ''light'' else js ''dark'')
           in case applyTheme nxt d of
                (d1, Inl e) \<Rightarrow> (d1, Inl e)
              | (d1, Inr _) \<Rightarrow> (d1, Inr nxt)))"

text \<open>\<open>main.tsx\<close>: the stored theme is put on the root element before the first render.\<close>

definition main_theme :: "dash \<Rightarrow> dash \<times> unit res" where
  "main_theme d =
     (case getItem (d_store d) THEME_KEY of
        Inl e \<Rightarrow> (d, Inl e)
      | Inr t \<Rightarrow>
          (case add_class (case t of None \<Rightarrow> js ''dark'' | Some x \<Rightarrow> x) (d_themes d) of
             Inl e \<Rightarrow> (d, Inl e)
           | Inr cls \<Rightarrow> (d\<lparr>d_themes := cls\<rparr>, Inr ())))"


section \<open>The access token\<close>

text \<open>A token: header, encoded claims and signature, separated by dots.\<close>

definition token_of :: "jsstr \<Rightarrow> jsstr \<Rightarrow> jsstr \<Rightarrow> jsstr" where
  "token_of header claims sig = header @ js ''.'' @ b64url_text claims @ js ''.'' @ sig"

lemma dot_unit: "js ''.'' = [0x2E]"
  by code_simp

lemma token_part_of:
  assumes "0x2E \<notin> set header" and "binary claims"
  shows "token_part (token_of header claims sig) = b64url_text claims"
proof -
  have "0x2E \<notin> set (b64url_text claims)" using b64url_text_units [OF assms(2)] by blast
  then have "split_on 0x2E (token_of header claims sig) = header # b64url_text claims # split_on 0x2E sig"
    using assms(1) by (simp add: token_of_def dot_unit split_on_append)
  then show ?thesis by (simp add: token_part_def)
qed

lemma token_of_not_Nil [simp]: "token_of header claims sig \<noteq> []"
  by (simp add: token_of_def dot_unit)

lemma clearAuth_ok:
  "st_available s \<Longrightarrow> clearAuth s =
     (s\<lparr>st_items := (st_items s)(TOKEN_KEY := None, USER_KEY := None)\<rparr>, Inr ())"
  by (simp add: clearAuth_def removeItem_def)

lemma isAuthenticated_token:
  assumes "st_available s" and "st_items s TOKEN_KEY = Some token" and "token \<noteq> []"
  shows "isAuthenticated now s =
    (if isTokenExpired now s = Inr True
     then (s\<lparr>st_items := (st_items s)(TOKEN_KEY := None, USER_KEY := None)\<rparr>, Inr False)
     else (s, Inr True))"
proof -
  have "getToken s = Inr (Some token)" using assms by (simp add: getToken_def getItem_def)
  moreover then obtain b where "isTokenExpired now s = Inr b"
    using assms(3) by (cases "claims_expired now token") (simp_all add: isTokenExpired_def)
  ultimately show ?thesis
    using assms(3) by (cases b) (simp_all add: isAuthenticated_def clearAuth_ok [OF assms(1)])
qed

lemma expiry_of_token:
  assumes "st_available s" and "st_items s TOKEN_KEY = Some (token_of header claims sig)"
    and "0x2E \<notin> set header" and "binary claims"
  shows "isTokenExpired now s =
    (if \<not> url_plain claims then Inr True
     else (case bindR (json_parse claims) (\<lambda>p. bindR (js_get p (js ''exp'')) to_number) of
             Inl _ \<Rightarrow> Inr True | Inr x \<Rightarrow> Inr (times_less_int x 1000 now)))"
proof -
  have t: "getToken s = Inr (Some (token_of header claims sig))"
    using assms by (simp add: getToken_def getItem_def)
  show ?thesis
  proof (cases "url_plain claims")
    case True
    have "atob (b64url_text claims) = Inr claims"
      using True assms(4) by (simp add: b64url_text_plain atob_b64_text)
    then have "claims_expired now (token_of header claims sig) =
        bindR (bindR (json_parse claims) (\<lambda>p. bindR (js_get p (js ''exp'')) to_number))
          (\<lambda>x. Inr (times_less_int x 1000 now))"
      using assms(3,4) by (simp add: claims_expired_def token_part_of bindR_assoc)
    with t True show ?thesis
      by (simp add: isTokenExpired_def split: sum.split)
  next
    case False
    with assms(3,4) t show ?thesis
      by (simp add: isTokenExpired_def claims_expired_def token_part_of atob_b64url_text)
  qed
qed

text \<open>
  Property C14 (sessions end when the token does). With a stored token whose claims are a JSON object with an integer
  \<open>exp\<close> or none, the dashboard counts as authenticated exactly until \<open>exp\<close> seconds have passed, and for ever when
  there is no \<open>exp\<close> (the product is then not a number and the comparison false), provided the encoding of the claims
  avoids the sextets 62 and 63: the claims are encoded with the URL alphabet, but \<open>atob\<close> knows the standard one
  only, so that a dash or an underscore makes any token count as expired. A token that counts as expired is removed by the
  check itself, together with the stored user.
\<close>

theorem token_honoured_until_exp:
  assumes "st_available s" and "st_items s TOKEN_KEY = Some (token_of header claims sig)"
    and "0x2E \<notin> set header" and "binary claims"
    and "json_parse claims = Inr (JObj kvs)" and "map_of kvs (js ''exp'') = map_option jint expiry"
  shows "if url_plain claims \<and> (case expiry of None \<Rightarrow> True | Some e \<Rightarrow> now \<le> e * 1000)
    then isAuthenticated now s = (s, Inr True)
    else \<exists>s'. isAuthenticated now s = (s', Inr False) \<and> getToken s' = Inr None \<and> getUser s' = Inr JNull"
proof -
  have "isTokenExpired now s = Inr (\<not> (url_plain claims \<and> (case expiry of None \<Rightarrow> True | Some e \<Rightarrow> now \<le> e * 1000)))"
    using expiry_of_token [OF assms(1-4), of now] assms(5,6) by (auto split: option.splits)
  with isAuthenticated_token [OF assms(1,2), of now] show ?thesis
    using assms(1) by (auto simp: getToken_def getUser_def getItem_def)
qed


definition demo_claims :: jsstr where
  "demo_claims = js ''{\"exp\":2000}''"

definition demo_login :: "jsstr \<Rightarrow> storage" where
  "demo_login claims = empty_storage\<lparr>st_items := [TOKEN_KEY \<mapsto> token_of (js ''h'') claims (js ''s''),
     USER_KEY \<mapsto> js ''{}'']\<rparr>"

lemma demo_claims_facts:
  "binary demo_claims" "url_plain demo_claims"
  "json_parse demo_claims = Inr (JObj [(js ''exp'', jint 2000)])" "(0x2E :: 16 word) \<notin> set (js ''h'')"
  by code_simp+

lemma demo_login_facts:
  "st_available (demo_login claims)"
  "st_items (demo_login claims) TOKEN_KEY = Some (token_of (js ''h'') claims (js ''s''))"
  by (simp_all add: demo_login_def empty_storage_def)

definition tilde_claims :: jsstr where
  "tilde_claims = js ''{\"email\":\"j~x@d.io\",\"exp\":2000}''"

lemma tilde_claims_facts:
  "binary tilde_claims" "\<not> url_plain tilde_claims"
  "json_parse tilde_claims = Inr (JObj [(js ''email'', jstr ''j~x@d.io''), (js ''exp'', jint 2000)])"
  by code_simp+

lemma empty_claims_facts:
  "binary (js ''{}'')" "url_plain (js ''{}'')" "json_parse (js ''{}'') = Inr (JObj [])"
  by code_simp+

text \<open>A token before and after its expiry, one in the URL alphabet, and one without an expiry.\<close>

theorem token_honoured_until_exp_witness:
  "isAuthenticated 1999999 (demo_login demo_claims) = (demo_login demo_claims, Inr True)
   \<and> (\<exists>s'. isAuthenticated 2000001 (demo_login demo_claims) = (s', Inr False) \<and> getToken s' = Inr None)
   \<and> (\<exists>s'. isAuthenticated 0 (demo_login tilde_claims) = (s', Inr False) \<and> getToken s' = Inr None)
   \<and> isAuthenticated (10 ^ 18) (demo_login (js ''{}'')) = (demo_login (js ''{}''), Inr True)"
proof -
  note honoured = token_honoured_until_exp [OF demo_login_facts demo_claims_facts(4)]
  have "isAuthenticated 1999999 (demo_login demo_claims) = (demo_login demo_claims, Inr True)"
    "\<exists>s'. isAuthenticated 2000001 (demo_login demo_claims) = (s', Inr False) \<and> getToken s' = Inr None"
    using honoured [OF demo_claims_facts(1,3), of "Some 2000" 1999999]
      honoured [OF demo_claims_facts(1,3), of "Some 2000" 2000001] demo_claims_facts(2) by auto
  moreover have "\<exists>s'. isAuthenticated 0 (demo_login tilde_claims) = (s', Inr False) \<and> getToken s' = Inr None"
    using honoured [OF tilde_claims_facts(1,3), of "Some 2000" 0] tilde_claims_facts(2) by auto
  moreover have "isAuthenticated (10 ^ 18) (demo_login (js ''{}'')) = (demo_login (js ''{}''), Inr True)"
    using honoured [OF empty_claims_facts(1,3), of None "10 ^ 18"] empty_claims_facts(2) by simp
  ultimately show ?thesis by blast
qed


section \<open>Logging in and out\<close>

lemma setAuth_writes:
  assumes "setAuth token user s = (s', Inr ())" and "user \<noteq> JUndef"
  obtains t s1 where "js_String token = Inr t" and "setItem s TOKEN_KEY t = Inr s1"
    and "setItem s1 USER_KEY (stringify user) = Inr s'"
  using assms by (auto simp: setAuth_def bindR_eq_Inr split: sum.splits)

text \<open>
  Login state round trip. After a successful \<open>setAuth\<close> with a string token and a user that is
  JSON data, \<open>getToken\<close> and \<open>getUser\<close> return that token and that user, every other item of
  the storage is as it was, and \<open>clearAuth\<close> makes both return nothing.
\<close>

lemma auth_round_trip:
  assumes "setAuth (JStr t) user s = (s', Inr ())" and "json_ok user"
  shows "getToken s' = Inr (Some t) \<and> getUser s' = Inr user
    \<and> (\<forall>k. k \<notin> {TOKEN_KEY, USER_KEY} \<longrightarrow> getItem s' k = getItem s k)
    \<and> (\<exists>s''. clearAuth s' = (s'', Inr ()) \<and> getToken s'' = Inr None \<and> getUser s'' = Inr JNull)"
proof -
  have u: "user \<noteq> JUndef" using assms(2) by auto
  obtain s1 where w: "setItem s TOKEN_KEY t = Inr s1" "setItem s1 USER_KEY (stringify user) = Inr s'"
    using setAuth_writes [OF assms(1) u] by auto
  have tok: "getToken s' = Inr (Some t)"
    unfolding getToken_def using web.get_put_other [OF w(2), of TOKEN_KEY] web.get_put_same [OF w(1)] by simp
  have raw: "getItem s' USER_KEY = Inr (Some (stringify user))" by (rule web.get_put_same [OF w(2)])
  have "stringify user \<noteq> []" using json.dec_enc [OF assms(2)] json_parse_Nil by force
  then have usr: "getUser s' = Inr user" using raw json.dec_enc [OF assms(2)] by (simp add: getUser_def)
  have av: "st_available s'" using setItem_flags [OF w(2)] by simp
  have oth: "getItem s' k = getItem s k" if "k \<notin> {TOKEN_KEY, USER_KEY}" for k
    using web.get_put_other [OF w(2), of k] web.get_put_other [OF w(1), of k] that by simp
  show ?thesis
    using tok usr oth clearAuth_ok [OF av] av by (simp add: getToken_def getUser_def getItem_def)
qed


definition demo_user :: jsval where
  "demo_user = JObj [(js ''id'', jstr ''u1''), (js ''name'', jstr ''Jane''), (js ''email'', jstr ''j@d.io''), (js ''role'', jstr ''owner'')]"

text \<open>
  Every authenticated call sends the stored token as a bearer token;
  if the server answers 401 the login state is removed, the page goes to \<open>/login\<close> and the
  call fails; any other answer, and a network error, is handed to the caller with the
  login state untouched.
\<close>

lemma fetch_closes_session_on_401:
  assumes "st_available (d_store d)" and "st_items (d_store d) TOKEN_KEY = Some t" and "t \<noteq> []"
    and "req_headers rq = []"
    and "rq' = rq\<lparr>req_headers := [(js ''Authorization'', js ''Bearer '' @ t)]\<rparr>"
  shows "case srv rq' of
      Inl e \<Rightarrow> fetchWithAuth srv rq d = (d, Inl e)
    | Inr r \<Rightarrow>
        if rsp_status r = 401
        then \<exists>d'. fetchWithAuth srv rq d = (d', Inl (Thrown ''Unauthorized''))
          \<and> d_location d' = js ''/login'' \<and> getToken (d_store d') = Inr None \<and> getUser (d_store d') = Inr JNull
        else fetchWithAuth srv rq d = (d, Inr r)"
proof -
  have "getToken (d_store d) = Inr (Some t)" using assms by (simp add: getToken_def getItem_def)
  moreover have "merge_headers (auth_headers (Some t)) (req_headers rq)
      = [(js ''Authorization'', js ''Bearer '' @ t)]"
    using assms(3,4) by (simp add: merge_headers_def auth_headers_def)
  ultimately show ?thesis
    using assms(1) clearAuth_ok [OF assms(1)]
    by (simp add: fetchWithAuth_def assms(5) getToken_def getUser_def getItem_def split: sum.split)
qed

definition demo_dash :: dash where
  "demo_dash = \<lparr>d_now = 1000, d_store = demo_login demo_claims, d_location = js ''/app'', d_themes = [js ''dark'']\<rparr>"

definition GET :: "jsstr \<Rightarrow> request" where
  "GET url = \<lparr>req_url = url, req_method = js ''GET'', req_headers = [], req_body = None\<rparr>"

section \<open>The theme\<close>

lemma applyTheme_ok:
  assumes "st_available (d_store d)" and "st_quota (d_store d)" and "theme \<in> {js ''dark'', js ''light''}"
  shows "applyTheme theme d =
    (d\<lparr>d_themes := filter (\<lambda>c. c \<noteq> js ''dark'' \<and> c \<noteq> js ''light'') (d_themes d) @ [theme],
       d_store := (d_store d)\<lparr>st_items := (st_items (d_store d))(THEME_KEY \<mapsto> theme)\<rparr>\<rparr>, Inr ())"
proof -
  have "add_class theme (filter (\<lambda>c. c \<noteq> js ''dark'' \<and> c \<noteq> js ''light'') (d_themes d))
      = Inr (filter (\<lambda>c. c \<noteq> js ''dark'' \<and> c \<noteq> js ''light'') (d_themes d) @ [theme])"
    using assms(3) by (auto simp: add_class_def js_def)
  with assms(1,2) show ?thesis by (simp add: applyTheme_def setItem_def Let_def)
qed

text \<open>
  With a working storage, \<open>toggleTheme\<close> leaves exactly one of the two theme classes on the
  root element, the one it returns and stores; toggling twice gives back the theme that
  was stored (or \<open>dark\<close> when none was), and the login state is never touched.
\<close>

lemma toggle_theme_twice:
  assumes "st_available (d_store d)" and "st_quota (d_store d)"
    and "getStoredTheme d = Inr theme" and "theme \<in> {js ''dark'', js ''light''}"
  shows "\<exists>d1 d2 other. toggleTheme d = (d1, Inr other) \<and> toggleTheme d1 = (d2, Inr theme) \<and> other \<noteq> theme
    \<and> filter (\<lambda>c. c \<in> {js ''dark'', js ''light''}) (d_themes d1) = [other]
    \<and> filter (\<lambda>c. c \<in> {js ''dark'', js ''light''}) (d_themes d2) = [theme]
    \<and> getStoredTheme d2 = Inr theme \<and> getToken (d_store d2) = getToken (d_store d)"
proof -
  let ?other = "if theme = js ''dark'' then js ''light'' else js ''dark''"
  let ?t = "\<lambda>th d. d\<lparr>d_themes := filter (\<lambda>c. c \<noteq> js ''dark'' \<and> c \<noteq> js ''light'') (d_themes d) @ [th],
       d_store := (d_store d)\<lparr>st_items := (st_items (d_store d))(THEME_KEY \<mapsto> th)\<rparr>\<rparr>"
  have o: "?other \<in> {js ''dark'', js ''light''}" by simp
  have one: "toggleTheme d = (?t ?other d, Inr ?other)"
    using assms(3) applyTheme_ok [OF assms(1,2) o] by (simp add: toggleTheme_def Let_def)
  have "getStoredTheme (?t ?other d) = Inr ?other"
    using assms(1) by (simp add: getStoredTheme_def getItem_def)
  then have two: "toggleTheme (?t ?other d) = (?t theme (?t ?other d), Inr theme)"
    using assms(4) applyTheme_ok [of "?t ?other d" theme] assms(1,2) by (auto simp: toggleTheme_def Let_def)
  have f: "filter (\<lambda>c. c \<in> {js ''dark'', js ''light''}) (d_themes (?t th x)) = [th]"
    if "th \<in> {js ''dark'', js ''light''}" for th x
    using that by (auto simp: filter_empty_conv)
  have k: "THEME_KEY \<noteq> TOKEN_KEY" by (simp add: THEME_KEY_def TOKEN_KEY_def)
  have "getStoredTheme (?t theme (?t ?other d)) = Inr theme"
    "getToken (d_store (?t theme (?t ?other d))) = getToken (d_store d)"
    using assms(1) k by (simp_all add: getStoredTheme_def getToken_def getItem_def)
  moreover have "?other \<noteq> theme" by auto
  ultimately show ?thesis using one two f [OF o] f [OF assms(4)] by blast
qed

end
