(* ===== verification/DashHttp.thy ===== *)
theory DashHttp
  imports DashAuth SdkTypes
begin

text \<open>
  The dashboard's client of the HTTP interface (\<open>packages/dashboard/src/http\<close>) and its
  queries and mutations (\<open>queries/sessions.ts\<close>). \<open>api\<close> is \<open>import.meta.env.VITE_API_URL\<close>; the
  server is a parameter, as for \<open>fetchWithAuth\<close>. Responses are the dynamic values
  \<open>res.json()\<close> returns. The cache of the query library is outside the sources: a query is
  described by what is handed to the library (its key, its request, when it is enabled and
  how often it is refetched) and a mutation by the keys it invalidates.
\<close>

section \<open>URLSearchParams\<close>

text \<open>UTF-8, a surrogate on its own becoming the replacement character.\<close>

definition unit_bytes :: "16 word \<Rightarrow> nat list" where
  "unit_bytes c =
     (let n = unat c in
      if is_high c \<or> is_low c then [0xEF, 0xBF, 0xBD]
      else if n < 0x80 then [n]
      else if n < 0x800 then [0xC0 + n div 64, 0x80 + n mod 64]
      else [0xE0 + n div 4096, 0x80 + n div 64 mod 64, 0x80 + n mod 64])"

definition pair_bytes :: "16 word \<Rightarrow> 16 word \<Rightarrow> nat list" where
  "pair_bytes c d =
     (let n = 0x10000 + (unat c - 0xD800) * 1024 + (unat d - 0xDC00)
      in [0xF0 + n div 262144, 0x80 + n div 4096 mod 64, 0x80 + n div 64 mod 64, 0x80 + n mod 64])"

fun utf8_bytes :: "jsstr \<Rightarrow> nat list" where
  "utf8_bytes [] = []"
| "utf8_bytes [c] = unit_bytes c"
| "utf8_bytes (c # d # cs) =
     (if is_high c \<and> is_low d then pair_bytes c d @ utf8_bytes cs
      else unit_bytes c @ utf8_bytes (d # cs))"

definition form_safe :: "nat \<Rightarrow> bool" where
  "form_safe b \<longleftrightarrow> (0x30 \<le> b \<and> b \<le> 0x39) \<or> (0x41 \<le> b \<and> b \<le> 0x5A) \<or> (0x61 \<le> b \<and> b \<le> 0x7A)
     \<or> b = 0x2A \<or> b = 0x2D \<or> b = 0x2E \<or> b = 0x5F"

definition hex_upper :: "nat \<Rightarrow> nat" where
  "hex_upper d = (if d < 10 then 48 + d else 55 + d)"

text \<open>The form-urlencoded serializer, on bytes.\<close>

definition form_byte :: "nat \<Rightarrow> nat list" where
  "form_byte b =
     (if b = 0x20 then [0x2B]
      else if form_safe b then [b]
      else [0x25, hex_upper (b div 16), hex_upper (b mod 16)])"

definition form_encode :: "jsstr \<Rightarrow> nat list" where
  "form_encode s = concat (map form_byte (utf8_bytes s))"

fun query_text :: "(jsstr \<times> jsstr) list \<Rightarrow> nat list" where
  "query_text [] = []"
| "query_text [(k, v)] = form_encode k @ [0x3D] @ form_encode v"
| "query_text ((k, v) # ps) = form_encode k @ [0x3D] @ form_encode v @ [0x26] @ query_text ps"

definition query_string :: "(jsstr \<times> jsstr) list \<Rightarrow> jsstr" where
  "query_string ps = map of_nat (query_text ps)"


section \<open>Requests\<close>

record SessionFilters =
  sf_identifier :: "jsstr option"
  sf_service_name :: "jsstr option"
  sf_environment :: "jsstr option"
  sf_start_date :: "jsstr option"
  sf_end_date :: "jsstr option"
  sf_limit :: "int option"
  sf_offset :: "int option"

definition POST :: "jsstr \<Rightarrow> request" where
  "POST url = (GET url)\<lparr>req_method := js ''POST''\<rparr>"

definition DELETE :: "jsstr \<Rightarrow> request" where
  "DELETE url = (GET url)\<lparr>req_method := js ''DELETE''\<rparr>"

definition api_base :: "jsstr option \<Rightarrow> jsstr" where
  "api_base api = or_default api []"

text \<open>\<open>if (x) params.set(k, x)\<close>\<close>

definition str_param :: "string \<Rightarrow> jsstr option \<Rightarrow> (jsstr \<times> jsstr) list" where
  "str_param k v = (case v of None \<Rightarrow> [] | Some s \<Rightarrow> if s = [] then [] else [(js k, s)])"

definition int_param :: "string \<Rightarrow> int option \<Rightarrow> (jsstr \<times> jsstr) list" where
  "int_param k v = (case v of None \<Rightarrow> [] | Some i \<Rightarrow> if i = 0 then [] else [(js k, show_int i)])"

definition session_params :: "SessionFilters \<Rightarrow> (jsstr \<times> jsstr) list" where
  "session_params f =
     str_param ''identifier'' (sf_identifier f) @ str_param ''service_name'' (sf_service_name f)
     @ str_param ''environment'' (sf_environment f) @ str_param ''start_date'' (sf_start_date f)
     @ str_param ''end_date'' (sf_end_date f) @ int_param ''limit'' (sf_limit f)
     @ int_param ''offset'' (sf_offset f)"

text \<open>The two lines every authenticated call ends with: a failure, or the JSON of the body.\<close>

definition ok_or :: "string \<Rightarrow> (response \<Rightarrow> 'a res) \<Rightarrow> dash \<times> response res \<Rightarrow> dash \<times> 'a res" where
  "ok_or msg k dr = (fst dr, bindR (snd dr) (\<lambda>r. if rsp_ok r then k r else Inl (Thrown msg)))"

definition listSessions :: "jsstr option \<Rightarrow> backend \<Rightarrow> SessionFilters \<Rightarrow> dash \<Rightarrow> dash \<times> jsval res" where
  "listSessions api srv f d =
     ok_or ''Failed to fetch sessions'' rsp_json
       (fetchWithAuth srv (GET (api_base api @ js ''/v1/sessions?'' @ query_string (session_params f))) d)"

definition getSession :: "jsstr option \<Rightarrow> backend \<Rightarrow> jsstr \<Rightarrow> dash \<Rightarrow> dash \<times> jsval res" where
  "getSession api srv i d =
     ok_or ''Session not found'' rsp_json (fetchWithAuth srv (GET (api_base api @ js ''/v1/sessions/'' @ i)) d)"

definition getSessionEvents :: "jsstr option \<Rightarrow> backend \<Rightarrow> jsstr \<Rightarrow> dash \<Rightarrow> dash \<times> jsval res" where
  "getSessionEvents api srv i d =
     ok_or ''Failed to fetch events'' rsp_json
       (fetchWithAuth srv (GET (api_base api @ js ''/v1/sessions/'' @ i @ js ''/events'')) d)"

definition createShareLink :: "jsstr option \<Rightarrow> backend \<Rightarrow> jsstr \<Rightarrow> dash \<Rightarrow> dash \<times> jsval res" where
  "createShareLink api srv i d =
     ok_or ''Failed to create share link'' (\<lambda>r. bindR (rsp_json r) (\<lambda>v. js_get v (js ''token'')))
       (fetchWithAuth srv (POST (api_base api @ js ''/v1/sessions/'' @ i @ js ''/share'')) d)"

definition deleteSession :: "jsstr option \<Rightarrow> backend \<Rightarrow> jsstr \<Rightarrow> dash \<Rightarrow> dash \<times> jsval res" where
  "deleteSession api srv i d =
     ok_or ''Failed to delete session'' (\<lambda>_. Inr JUndef)
       (fetchWithAuth srv (DELETE (api_base api @ js ''/v1/sessions/'' @ i)) d)"

definition getStats :: "jsstr option \<Rightarrow> backend \<Rightarrow> dash \<Rightarrow> dash \<times> jsval res" where
  "getStats api srv d =
     ok_or ''Failed to fetch stats'' rsp_json (fetchWithAuth srv (GET (api_base api @ js ''/v1/stats'')) d)"

definition listFailedIngest :: "jsstr option \<Rightarrow> backend \<Rightarrow> dash \<Rightarrow> dash \<times> jsval res" where
  "listFailedIngest api srv d =
     ok_or ''Failed to fetch failed ingests'' rsp_json
       (fetchWithAuth srv (GET (api_base api @ js ''/v1/failed-ingest'')) d)"

definition retryAllFailed :: "jsstr option \<Rightarrow> backend \<Rightarrow> dash \<Rightarrow> dash \<times> jsval res" where
  "retryAllFailed api srv d =
     ok_or ''Failed to retry'' rsp_json
       (fetchWithAuth srv (POST (api_base api @ js ''/v1/failed-ingest/retry-all'')) d)"

text \<open>The public and the login requests use plain \<open>fetch\<close> and touch no state.\<close>

definition getPublicSession :: "jsstr option \<Rightarrow> backend \<Rightarrow> jsstr \<Rightarrow> jsval res" where
  "getPublicSession api srv tok =
     bindR (srv (GET (api_base api @ js ''/v1/public/sessions/'' @ tok)))
       (\<lambda>r. if rsp_ok r then rsp_json r else Inl (Thrown ''Replay not found''))"

definition getPublicSessionEvents :: "jsstr option \<Rightarrow> backend \<Rightarrow> jsstr \<Rightarrow> jsval res" where
  "getPublicSessionEvents api srv tok =
     bindR (srv (GET (api_base api @ js ''/v1/public/sessions/'' @ tok @ js ''/events'')))
       (\<lambda>r. if rsp_ok r then rsp_json r else Inl (Thrown ''Failed to fetch replay''))"

definition login_request :: "jsstr option \<Rightarrow> jsstr \<Rightarrow> jsstr \<Rightarrow> request" where
  "login_request api email password =
     (POST (api_base api @ js ''/v1/auth/login''))
       \<lparr>req_headers := [(js ''Content-Type'', js ''application/json'')],
        req_body := Some (stringify (JObj [(js ''email'', JStr email), (js ''password'', JStr password)]))\<rparr>"

definition login :: "jsstr option \<Rightarrow> backend \<Rightarrow> jsstr \<Rightarrow> jsstr \<Rightarrow> jsval res" where
  "login api srv email password =
     bindR (srv (login_request api email password))
       (\<lambda>r. if rsp_ok r then rsp_json r else Inl (Thrown ''Invalid credentials''))"


section \<open>Queries and mutations\<close>

datatype query =
    StatsQuery
  | SessionsQuery SessionFilters
  | SessionQuery jsstr
  | SessionEventsQuery jsstr
  | PublicSessionQuery jsstr
  | PublicSessionEventsQuery jsstr
  | FailedIngestQuery

definition opt_int :: "int option \<Rightarrow> jsval" where
  "opt_int v = (case v of None \<Rightarrow> JUndef | Some i \<Rightarrow> jint i)"

definition filters_json :: "SessionFilters \<Rightarrow> jsval" where
  "filters_json f = JObj [(js ''identifier'', opt_str (sf_identifier f)), (js ''service_name'', opt_str (sf_service_name f)),
     (js ''environment'', opt_str (sf_environment f)), (js ''start_date'', opt_str (sf_start_date f)),
     (js ''end_date'', opt_str (sf_end_date f)), (js ''limit'', opt_int (sf_limit f)), (js ''offset'', opt_int (sf_offset f))]"

fun query_key :: "query \<Rightarrow> jsval list" where
  "query_key StatsQuery = [jstr ''stats'']"
| "query_key (SessionsQuery f) = [jstr ''sessions'', filters_json f]"
| "query_key (SessionQuery i) = [jstr ''session'', JStr i]"
| "query_key (SessionEventsQuery i) = [jstr ''session-events'', JStr i]"
| "query_key (PublicSessionQuery t) = [jstr ''public-session'', JStr t]"
| "query_key (PublicSessionEventsQuery t) = [jstr ''public-session-events'', JStr t]"
| "query_key FailedIngestQuery = [jstr ''failed-ingest'']"

fun query_enabled :: "query \<Rightarrow> bool" where
  "query_enabled (SessionQuery i) \<longleftrightarrow> i \<noteq> []"
| "query_enabled (SessionEventsQuery i) \<longleftrightarrow> i \<noteq> []"
| "query_enabled (PublicSessionQuery t) \<longleftrightarrow> t \<noteq> []"
| "query_enabled (PublicSessionEventsQuery t) \<longleftrightarrow> t \<noteq> []"
| "query_enabled _ \<longleftrightarrow> True"

fun refetch_interval :: "query \<Rightarrow> int option" where
  "refetch_interval StatsQuery = Some 30000"
| "refetch_interval FailedIngestQuery = Some 30000"
| "refetch_interval _ = None"

fun query_fn :: "jsstr option \<Rightarrow> backend \<Rightarrow> query \<Rightarrow> dash \<Rightarrow> dash \<times> jsval res" where
  "query_fn api srv StatsQuery d = getStats api srv d"
| "query_fn api srv (SessionsQuery f) d = listSessions api srv f d"
| "query_fn api srv (SessionQuery i) d = getSession api srv i d"
| "query_fn api srv (SessionEventsQuery i) d = getSessionEvents api srv i d"
| "query_fn api srv (PublicSessionQuery t) d = (d, getPublicSession api srv t)"
| "query_fn api srv (PublicSessionEventsQuery t) d = (d, getPublicSessionEvents api srv t)"
| "query_fn api srv FailedIngestQuery d = listFailedIngest api srv d"

datatype mutation = CreateShareLink jsstr | DeleteSession jsstr | RetryAllFailed

fun mutation_fn :: "jsstr option \<Rightarrow> backend \<Rightarrow> mutation \<Rightarrow> dash \<Rightarrow> dash \<times> jsval res" where
  "mutation_fn api srv (CreateShareLink i) d = createShareLink api srv i d"
| "mutation_fn api srv (DeleteSession i) d = deleteSession api srv i d"
| "mutation_fn api srv RetryAllFailed d = retryAllFailed api srv d"

text \<open>The keys a mutation invalidates when it succeeds.\<close>

fun invalidates :: "mutation \<Rightarrow> jsval list list" where
  "invalidates (CreateShareLink i) = []"
| "invalidates (DeleteSession i) = [[jstr ''sessions''], [jstr ''stats'']]"
| "invalidates RetryAllFailed = [[jstr ''failed-ingest''], [jstr ''sessions'']]"



section \<open>The characters of a query string\<close>

lemma surrogate_range:
  "is_high c \<Longrightarrow> unat c - 0xD800 < 1024" "is_low c \<Longrightarrow> unat c - 0xDC00 < 1024"
  by (auto simp: is_high_def is_low_def word_le_nat_alt word_less_nat_alt)

lemma unit_bytes_range: "\<forall>b\<in>set (unit_bytes c). b < 256"
proof -
  have "unat c < 65536" using unsigned_less [of c] by simp
  then have "unat c div 4096 < 16" by (simp add: less_mult_imp_div_less)
  then show ?thesis by (auto simp: unit_bytes_def Let_def)
qed

lemma pair_bytes_range:
  assumes "is_high c" and "is_low d"
  shows "\<forall>b\<in>set (pair_bytes c d). b < 256"
proof -
  let ?n = "0x10000 + (unat c - 0xD800) * 1024 + (unat d - 0xDC00)"
  have "?n < 262144 * 5" using surrogate_range(1) [OF assms(1)] surrogate_range(2) [OF assms(2)] by linarith
  then have "?n div 262144 < 5" by (simp add: less_mult_imp_div_less)
  moreover have "x mod 64 < 128" for x :: nat
    by (rule less_trans [of _ 64]) simp_all
  ultimately show ?thesis by (simp add: pair_bytes_def Let_def)
qed

lemma utf8_bytes_range: "\<forall>b\<in>set (utf8_bytes s). b < 256"
  by (induction s rule: utf8_bytes.induct) (use unit_bytes_range pair_bytes_range in auto)

lemma hex_upper_plain: "d < 16 \<Longrightarrow> hex_upper d < 128 \<and> hex_upper d \<noteq> 0x26 \<and> hex_upper d \<noteq> 0x3D"
  by (simp add: hex_upper_def)

lemma form_safe_plain: "form_safe b \<Longrightarrow> b < 128 \<and> b \<noteq> 0x26 \<and> b \<noteq> 0x3D"
  by (auto simp: form_safe_def)

lemma form_byte_plain:
  assumes "b < 256" and "c \<in> set (form_byte b)"
  shows "c < 128 \<and> c \<noteq> 0x26 \<and> c \<noteq> 0x3D"
proof -
  have "b div 16 < 16" "b mod 16 < 16" using assms(1) by auto
  from hex_upper_plain [OF this(1)] hex_upper_plain [OF this(2)] form_safe_plain [of b] assms(2)
  show ?thesis unfolding form_byte_def by (cases "b = 0x20"; cases "form_safe b") auto
qed

lemma form_encode_plain: "c \<in> set (form_encode s) \<Longrightarrow> c < 128 \<and> c \<noteq> 0x26 \<and> c \<noteq> 0x3D"
  using utf8_bytes_range [of s] form_byte_plain by (auto simp: form_encode_def)

lemma form_encode_units:
  "(0x26 :: 16 word) \<notin> set (map of_nat (form_encode s))" "(0x3D :: 16 word) \<notin> set (map of_nat (form_encode s))"
proof -
  have "of_nat c \<noteq> (0x26 :: 16 word) \<and> of_nat c \<noteq> (0x3D :: 16 word)" if "c \<in> set (form_encode s)" for c
    using form_encode_plain [OF that] unat_unit [of c] by auto
  then show "(0x26 :: 16 word) \<notin> set (map of_nat (form_encode s))" "(0x3D :: 16 word) \<notin> set (map of_nat (form_encode s))"
    by auto
qed

definition pair_string :: "jsstr \<times> jsstr \<Rightarrow> jsstr" where
  "pair_string kv = map of_nat (form_encode (fst kv)) @ 0x3D # map of_nat (form_encode (snd kv))"

lemma query_string_join: "query_string ps = join [0x26] (map pair_string ps)"
proof -
  have "map of_nat (query_text ps) = join [0x26 :: 16 word] (map pair_string ps)"
    by (induction ps rule: query_text.induct) (simp_all add: pair_string_def)
  then show ?thesis by (simp add: query_string_def)
qed


section \<open>Outcomes of a call\<close>

fun endpoint_request :: "jsstr option \<Rightarrow> query \<Rightarrow> request" where
  "endpoint_request api StatsQuery = GET (api_base api @ js ''/v1/stats'')"
| "endpoint_request api (SessionsQuery f) = GET (api_base api @ js ''/v1/sessions?'' @ query_string (session_params f))"
| "endpoint_request api (SessionQuery i) = GET (api_base api @ js ''/v1/sessions/'' @ i)"
| "endpoint_request api (SessionEventsQuery i) = GET (api_base api @ js ''/v1/sessions/'' @ i @ js ''/events'')"
| "endpoint_request api (PublicSessionQuery t) = GET (api_base api @ js ''/v1/public/sessions/'' @ t)"
| "endpoint_request api (PublicSessionEventsQuery t) = GET (api_base api @ js ''/v1/public/sessions/'' @ t @ js ''/events'')"
| "endpoint_request api FailedIngestQuery = GET (api_base api @ js ''/v1/failed-ingest'')"

fun is_public :: "query \<Rightarrow> bool" where
  "is_public (PublicSessionQuery t) \<longleftrightarrow> True"
| "is_public (PublicSessionEventsQuery t) \<longleftrightarrow> True"
| "is_public _ \<longleftrightarrow> False"

text \<open>The request a query really sends: public ones carry no login, the others the bearer token.\<close>

definition sent_request :: "jsstr option \<Rightarrow> jsstr \<Rightarrow> query \<Rightarrow> request" where
  "sent_request api tok q =
     (if is_public q then endpoint_request api q
      else (endpoint_request api q)\<lparr>req_headers := [(js ''Authorization'', js ''Bearer '' @ tok)]\<rparr>)"

lemma endpoint_request_headers [simp]: "req_headers (endpoint_request api q) = []"
  by (cases q) (simp_all add: GET_def)

lemma fetchWithAuth_token:
  assumes "st_available (d_store d)" and "st_items (d_store d) TOKEN_KEY = Some tok" and "tok \<noteq> []"
    and "req_headers rq = []"
  shows "fetchWithAuth srv rq d =
    (case srv (rq\<lparr>req_headers := [(js ''Authorization'', js ''Bearer '' @ tok)]\<rparr>) of
       Inl e \<Rightarrow> (d, Inl e)
     | Inr r \<Rightarrow> if rsp_status r = 401
         then (d\<lparr>d_store := fst (clearAuth (d_store d)), d_location := js ''/login''\<rparr>, Inl (Thrown ''Unauthorized''))
         else (d, Inr r))"
  using assms clearAuth_ok [OF assms(1)]
  by (simp add: fetchWithAuth_def getToken_def getItem_def merge_headers_def auth_headers_def split: sum.split)

text \<open>
  Property C24 (outcomes of a query). With a stored token, every query of the dashboard sends one request: the public
  ones without any header, the others with the bearer token. A network error is passed on;
  an answer outside 200 to 299 makes the query fail and leaves the login state alone, except
  that 401 on an authenticated query removes it and goes to the login page; an answer in
  the range gives the JSON value of its body, or fails if that is not JSON.
\<close>

theorem query_outcomes:
  assumes "st_available (d_store d)" and "st_items (d_store d) TOKEN_KEY = Some tok" and "tok \<noteq> []"
  shows "case srv (sent_request api tok q) of
      Inl e \<Rightarrow> query_fn api srv q d = (d, Inl e)
    | Inr r \<Rightarrow>
        if rsp_status r = 401 \<and> \<not> is_public q
        then \<exists>d'. query_fn api srv q d = (d', Inl (Thrown ''Unauthorized''))
          \<and> getToken (d_store d') = Inr None \<and> d_location d' = js ''/login''
        else if 200 \<le> rsp_status r \<and> rsp_status r \<le> 299 then query_fn api srv q d = (d, json_parse (rsp_body r))
        else \<exists>msg. query_fn api srv q d = (d, Inl (Thrown msg))"
proof (cases "is_public q")
  case True
  then show ?thesis
    by (cases q) (auto simp: sent_request_def getPublicSession_def getPublicSessionEvents_def rsp_ok_def
        rsp_json_def split: sum.split)
next
  case False
  have fn: "\<exists>msg. query_fn api srv q d = ok_or msg rsp_json (fetchWithAuth srv (endpoint_request api q) d)"
    using False by (cases q) (auto simp: getStats_def listSessions_def getSession_def getSessionEvents_def
        listFailedIngest_def)
  have cl: "getToken (fst (clearAuth (d_store d))) = Inr None"
    using assms(1) clearAuth_ok [OF assms(1)] by (simp add: getToken_def getItem_def)
  have f: "fetchWithAuth srv (endpoint_request api q) d =
    (case srv (sent_request api tok q) of
       Inl e \<Rightarrow> (d, Inl e)
     | Inr r \<Rightarrow> if rsp_status r = 401
         then (d\<lparr>d_store := fst (clearAuth (d_store d)), d_location := js ''/login''\<rparr>, Inl (Thrown ''Unauthorized''))
         else (d, Inr r))"
    using fetchWithAuth_token [OF assms, of "endpoint_request api q" srv] False by (simp add: sent_request_def)
  from fn obtain msg where "query_fn api srv q d = ok_or msg rsp_json (fetchWithAuth srv (endpoint_request api q) d)" ..
  with f cl False show ?thesis
    by (auto simp: ok_or_def rsp_ok_def rsp_json_def split: sum.split)
qed

theorem query_outcomes_witness:
  "\<exists>d'. query_fn None (\<lambda>_. Inr \<lparr>rsp_status = 401, rsp_body = []\<rparr>) StatsQuery demo_dash = (d', Inl (Thrown ''Unauthorized''))
     \<and> d_location d' = js ''/login''"
  using query_outcomes [where d = demo_dash and tok = "token_of (js ''h'') demo_claims (js ''s'')"
      and srv = "\<lambda>_. Inr \<lparr>rsp_status = 401, rsp_body = []\<rparr>" and api = None and q = StatsQuery]
  by (auto simp: demo_dash_def demo_login_facts)



section \<open>The cache\<close>

lemma filters_json_get:
  "js_get (clean (filters_json f)) (js ''identifier'') = Inr (opt_str (sf_identifier f))"
  "js_get (clean (filters_json f)) (js ''service_name'') = Inr (opt_str (sf_service_name f))"
  "js_get (clean (filters_json f)) (js ''environment'') = Inr (opt_str (sf_environment f))"
  "js_get (clean (filters_json f)) (js ''start_date'') = Inr (opt_str (sf_start_date f))"
  "js_get (clean (filters_json f)) (js ''end_date'') = Inr (opt_str (sf_end_date f))"
  "js_get (clean (filters_json f)) (js ''limit'') = Inr (opt_int (sf_limit f))"
  "js_get (clean (filters_json f)) (js ''offset'') = Inr (opt_int (sf_offset f))"
  unfolding filters_json_def
  by (subst js_get_clean_obj; simp add: opt_str_def opt_int_def split: option.split)+

lemma opt_str_inj: "opt_str a = opt_str b \<longleftrightarrow> a = b"
  by (auto simp: opt_str_def split: option.splits)

lemma opt_int_inj: "opt_int a = opt_int b \<longleftrightarrow> a = b"
  by (auto simp: opt_int_def split: option.splits)

lemma filters_json_inj: "clean (filters_json f) = clean (filters_json g) \<Longrightarrow> f = g"
proof -
  assume "clean (filters_json f) = clean (filters_json g)"
  then have "js_get (clean (filters_json f)) k = js_get (clean (filters_json g)) k" for k by simp
  from this [of "js ''identifier''"] this [of "js ''service_name''"] this [of "js ''environment''"]
    this [of "js ''start_date''"] this [of "js ''end_date''"] this [of "js ''limit''"] this [of "js ''offset''"]
  show ?thesis
    unfolding filters_json_get by (cases f; cases g) (simp add: opt_str_inj opt_int_inj)
qed

lemma filters_json_not_str: "clean (filters_json f) \<noteq> JStr s"
  by (simp add: filters_json_def)

lemma query_keys_identify_queries:
  "map clean (query_key p) = map clean (query_key q) \<longleftrightarrow> p = q"
  using filters_json_inj filters_json_not_str by (cases p; cases q) auto

text \<open>
  The query library marks stale the queries whose keys match an invalidated key. Which
  ones match is the parameter \<open>matches\<close>; the documented rule is that a key matches the keys that
  begin with it.
\<close>

definition matches_prefix :: "(jsval list \<Rightarrow> jsval list \<Rightarrow> bool) \<Rightarrow> bool" where
  "matches_prefix matches \<longleftrightarrow> (\<forall>k q. matches k q \<longleftrightarrow> prefix (map clean k) (map clean q))"

definition marks_stale :: "(jsval list \<Rightarrow> jsval list \<Rightarrow> bool) \<Rightarrow> mutation \<Rightarrow> query \<Rightarrow> bool" where
  "marks_stale matches mu q \<longleftrightarrow> list_ex (\<lambda>k. matches k (query_key q)) (invalidates mu)"

text \<open>
  Property C39 (the cache). The query library identifies queries by the JSON text of their keys, in
  which properties that are \<open>undefined\<close> do not appear. Two queries with the same key are the
  same query: they send the same request, so neither can be served the other's answer. Where keys match by their
  beginning, deleting a session marks every list of sessions, under any filters
  and page, and the statistics stale, but not the cached session and events themselves;
  retrying the failed batches refreshes the banner and the lists but not the statistics,
  which display the number of failed batches.
\<close>

theorem mutations_mark_stale:
  assumes "matches_prefix matches"
  shows "(map clean (query_key p) = map clean (query_key q) \<longleftrightarrow> p = q)
   \<and> (marks_stale matches (DeleteSession i) q \<longleftrightarrow> (\<exists>f. q = SessionsQuery f) \<or> q = StatsQuery)
   \<and> (marks_stale matches RetryAllFailed q \<longleftrightarrow> (\<exists>f. q = SessionsQuery f) \<or> q = FailedIngestQuery)
   \<and> (marks_stale matches (CreateShareLink i) q \<longleftrightarrow> False)"
  using assms query_keys_identify_queries [of p q] by (cases q) (simp_all add: marks_stale_def matches_prefix_def)

theorem mutations_mark_stale_witness:
  "marks_stale (\<lambda>k q. prefix (map clean k) (map clean q)) (DeleteSession (js ''s1'')) StatsQuery
   \<and> \<not> marks_stale (\<lambda>k q. prefix (map clean k) (map clean q)) (DeleteSession (js ''s1'')) (SessionQuery (js ''s1''))"
  using mutations_mark_stale [of "\<lambda>k q. prefix (map clean k) (map clean q)" _ _ "js ''s1''"]
  by (simp add: matches_prefix_def)

end
