(* ===== verification/JsDate.thy ===== *)
theory JsDate
  imports JsNumber
begin

text \<open>
  \<open>new Date(s).toISOString()\<close>, as the incident report uses it: a timestamp of the form the
  server sends (\<open>YYYY-MM-DDThh:mm:ss\<close>, an optional fraction, and \<open>Z\<close> or an offset) is read
  as milliseconds since 1970 and written back in UTC with milliseconds. What \<open>Date\<close> makes of
  any other text is up to the engine, so it is a parameter: \<open>None\<close> is an invalid date.
\<close>

section \<open>The calendar\<close>

definition leap :: "int \<Rightarrow> bool" where
  "leap y \<longleftrightarrow> y mod 4 = 0 \<and> (y mod 100 \<noteq> 0 \<or> y mod 400 = 0)"

text \<open>The day number of the first of January, counted from 1970.\<close>

definition day_from_year :: "int \<Rightarrow> int" where
  "day_from_year y = 365 * (y - 1970) + (y - 1969) div 4 - (y - 1901) div 100 + (y - 1601) div 400"

definition month_lengths :: "bool \<Rightarrow> nat list" where
  "month_lengths lp = [31, if lp then 29 else 28, 31, 30, 31, 30, 31, 31, 30, 31, 30, 31]"

lemma div_inc:
  fixes x n :: int
  assumes "0 < n"
  shows "(x + 1) div n = x div n + (if (x + 1) mod n = 0 then 1 else 0)"
proof -
  have x: "x = n * (x div n) + x mod n" by simp
  have r: "0 \<le> x mod n" "x mod n < n" using assms by simp_all
  show ?thesis
  proof (cases "x mod n + 1 = n")
    case True
    with x have "x + 1 = n * (x div n + 1) + 0" unfolding distrib_left by linarith
    from int_div_pos_eq [OF this] int_mod_pos_eq [OF this] assms show ?thesis by simp
  next
    case False
    with r have lt: "0 \<le> x mod n + 1" "x mod n + 1 < n" by linarith+
    from x have e: "x + 1 = n * (x div n) + (x mod n + 1)" by linarith
    from int_div_pos_eq [OF e lt] int_mod_pos_eq [OF e lt] r show ?thesis by simp
  qed
qed

lemma mod_shift: "(y - 1968) mod 4 = y mod 4" "(y - 1900) mod 100 = y mod 100" "(y - 1600) mod 400 = y mod 400"
  for y :: int
  using mod_mult_self1 [of y "- 492" 4] mod_mult_self1 [of y "- 19" 100] mod_mult_self1 [of y "- 4" 400]
  by simp_all

lemma mod_chain: "y mod 100 = 0 \<Longrightarrow> y mod 4 = 0" "y mod 400 = 0 \<Longrightarrow> y mod 100 = 0" for y :: int
  by (auto simp: mod_eq_0_iff_dvd elim: dvd_trans [rotated])

lemma leap_count:
  "(B \<longrightarrow> A) \<Longrightarrow> (C \<longrightarrow> B) \<Longrightarrow>
     (365 :: int) + (if A then 1 else 0) - (if B then 1 else 0) + (if C then 1 else 0)
       = (if A \<and> (\<not> B \<or> C) then 366 else 365)"
  by (cases A; cases B; cases C) simp_all

lemma year_step:
  fixes U V W :: int
  shows "U' = U + a \<Longrightarrow> V' = V + b \<Longrightarrow> W' = W + c \<Longrightarrow>
    365 * (y + 1 - 1970) + U' - V' + W' = 365 * (y - 1970) + U - V + W + (365 + a - b + c)"
  by simp

lemma day_from_year_Suc: "day_from_year (y + 1) = day_from_year y + (if leap y then 366 else 365)"
proof -
  define a b c :: int where "a = (if y mod 4 = 0 then 1 else 0)" and "b = (if y mod 100 = 0 then 1 else 0)"
    and "c = (if y mod 400 = 0 then 1 else 0)"
  have "(y + 1 - 1969) div 4 = (y - 1969) div 4 + a"
    using div_inc [of 4 "y - 1969"] mod_shift(1) [of y] by (simp add: a_def)
  moreover have "(y + 1 - 1901) div 100 = (y - 1901) div 100 + b"
    using div_inc [of 100 "y - 1901"] mod_shift(2) [of y] by (simp add: b_def)
  moreover have "(y + 1 - 1601) div 400 = (y - 1601) div 400 + c"
    using div_inc [of 400 "y - 1601"] mod_shift(3) [of y] by (simp add: c_def)
  ultimately have "day_from_year (y + 1) = day_from_year y + (365 + a - b + c)"
    unfolding day_from_year_def by (rule year_step)
  also have "365 + a - b + c = (if leap y then 366 else 365)"
    unfolding a_def b_def c_def leap_def by (rule leap_count) (use mod_chain [of y] in blast)+
  finally show ?thesis .
qed

lemma day_from_year_add: "day_from_year y + 365 * int n \<le> day_from_year (y + int n)"
proof (induction n)
  case (Suc n)
  have "day_from_year (y + int n + 1) = day_from_year (y + int n) + (if leap (y + int n) then 366 else 365)"
    by (rule day_from_year_Suc)
  with Suc show ?case by (simp add: algebra_simps split: if_splits)
qed simp

lemma day_from_year_less: "x < y \<Longrightarrow> day_from_year (x + 1) \<le> day_from_year y"
  using day_from_year_add [of "x + 1" "nat (y - (x + 1))"] by simp

text \<open>The year of a day: the last one that does not start after it.\<close>

function year_from :: "int \<Rightarrow> int \<Rightarrow> int" where
  "year_from d y = (if day_from_year (y + 1) \<le> d then year_from d (y + 1) else y)"
  by pat_completeness auto
termination
  by (relation "measure (\<lambda>(d, y). nat (d - day_from_year y))") (auto simp: day_from_year_Suc split: if_splits)

declare year_from.simps [simp del]

definition year_of_day :: "int \<Rightarrow> int" where
  "year_of_day d = year_from d (1970 + (if 0 \<le> d then d div 366 else d div 365 - 1))"

lemma year_from_correct:
  "day_from_year y \<le> d \<Longrightarrow>
     day_from_year (year_from d y) \<le> d \<and> d < day_from_year (year_from d y + 1)"
proof (induction d y rule: year_from.induct)
  case (1 d y)
  show ?case
  proof (cases "day_from_year (y + 1) \<le> d")
    case True
    with 1 show ?thesis by (simp add: year_from.simps [of d y])
  next
    case False
    with 1 show ?thesis by (simp add: year_from.simps [of d y])
  qed
qed

lemma year_of_day_correct:
  "day_from_year (year_of_day d) \<le> d \<and> d < day_from_year (year_of_day d + 1)"
proof -
  let ?y = "1970 + (if 0 \<le> d then d div 366 else d div 365 - 1)"
  have "day_from_year ?y \<le> d"
  proof (cases "0 \<le> d")
    case True
    define k where "k = d div 366"
    define p q a where "p = (k + 69) div 100" and "q = (k + 369) div 400" and "a = (k + 1) div 4"
    have k: "0 \<le> k" "366 * k \<le> d" using True by (auto simp: k_def)
    have "k + 69 < 100 * p + 100" "400 * q \<le> k + 369" "4 * a \<le> k + 1"
      unfolding p_def q_def a_def by linarith+
    with k have "a \<le> k" "0 \<le> p" "q \<le> 0 \<or> q \<le> p" by linarith+
    then have "a \<le> k" "q \<le> p" by auto
    moreover have "day_from_year (1970 + k) = 365 * k + a - p + q"
      by (simp add: day_from_year_def p_def q_def a_def algebra_simps)
    ultimately show ?thesis using True k by (simp add: k_def [symmetric])
  next
    case False
    define k where "k = d div 365 - 1"
    define p q a where "p = (k + 69) div 100" and "q = (k + 369) div 400" and "a = (k + 1) div 4"
    have k: "k < 0" "365 * k + 365 \<le> d" using False by (auto simp: k_def)
    have "k + 69 < 100 * p + 100" "400 * q \<le> k + 369" "4 * a \<le> k + 1"
      unfolding p_def q_def a_def by linarith+
    with k have "a - p + q \<le> 365" by linarith
    moreover have "day_from_year (1970 + k) = 365 * k + a - p + q"
      by (simp add: day_from_year_def p_def q_def a_def algebra_simps)
    ultimately show ?thesis using False k by (simp add: k_def [symmetric])
  qed
  from year_from_correct [OF this] show ?thesis by (simp add: year_of_day_def)
qed

lemma year_of_day_unique:
  assumes "day_from_year y \<le> d" and "d < day_from_year (y + 1)"
  shows "year_of_day d = y"
proof (rule ccontr)
  note c = year_of_day_correct [of d]
  assume "year_of_day d \<noteq> y"
  then consider "year_of_day d < y" | "y < year_of_day d" by linarith
  then show False
    by cases (use day_from_year_less [of "year_of_day d" y] day_from_year_less [of y "year_of_day d"] c assms in linarith)+
qed



section \<open>Days and months\<close>

fun split_month :: "nat list \<Rightarrow> nat \<Rightarrow> nat \<times> nat" where
  "split_month [] n = (0, n)"
| "split_month (l # ls) n =
     (if n < l then (1, n + 1) else (case split_month ls (n - l) of (m, d) \<Rightarrow> (Suc m, d)))"

lemma split_month_sum:
  "m < length ls \<Longrightarrow> d < ls ! m \<Longrightarrow> split_month ls (sum_list (take m ls) + d) = (Suc m, d + 1)"
proof (induction ls arbitrary: m)
  case (Cons l ls)
  then show ?case by (cases m) auto
qed simp

lemma sum_take_less: "m < length ls \<Longrightarrow> d < ls ! m \<Longrightarrow> sum_list (take m ls) + d < sum_list (ls :: nat list)"
proof (induction ls arbitrary: m)
  case (Cons l ls)
  then show ?case by (cases m) auto
qed simp

definition day_number :: "int \<Rightarrow> nat \<Rightarrow> nat \<Rightarrow> int" where
  "day_number y m d = day_from_year y + int (sum_list (take (m - 1) (month_lengths (leap y)))) + int d - 1"

definition civil :: "int \<Rightarrow> int \<times> nat \<times> nat" where
  "civil day =
     (let y = year_of_day day
      in (y, split_month (month_lengths (leap y)) (nat (day - day_from_year y))))"

definition date_ok :: "int \<Rightarrow> nat \<Rightarrow> nat \<Rightarrow> bool" where
  "date_ok y m d \<longleftrightarrow> 1 \<le> m \<and> m \<le> 12 \<and> 1 \<le> d \<and> d \<le> month_lengths (leap y) ! (m - 1)"

lemma length_month_lengths [simp]: "length (month_lengths lp) = 12"
  by (simp add: month_lengths_def)

lemma sum_month_lengths: "sum_list (month_lengths lp) = (if lp then 366 else 365)"
  by (simp add: month_lengths_def)

text \<open>The calendar date of a day number is the date it was computed from.\<close>

lemma civil_day_number:
  assumes "date_ok y m d"
  shows "civil (day_number y m d) = (y, m, d)"
proof -
  let ?ls = "month_lengths (leap y)"
  define n where "n = sum_list (take (m - 1) ?ls) + (d - 1)"
  have m: "m - 1 < length ?ls" "d - 1 < ?ls ! (m - 1)" using assms by (auto simp: date_ok_def)
  have dn: "day_number y m d = day_from_year y + int n"
    using assms by (simp add: day_number_def date_ok_def n_def)
  have "n < (if leap y then 366 else 365)"
    using sum_take_less [OF m] sum_month_lengths [of "leap y"] by (simp add: n_def)
  then have "year_of_day (day_number y m d) = y"
    by (intro year_of_day_unique) (simp_all add: dn day_from_year_Suc split: if_splits)
  moreover have "split_month ?ls n = (m, d)"
    using split_month_sum [OF m] assms by (simp add: n_def date_ok_def)
  ultimately show ?thesis by (simp add: civil_def dn)
qed

lemma split_month_inv:
  "split_month ls n = (m, d) \<Longrightarrow> n < sum_list ls \<Longrightarrow>
     1 \<le> m \<and> m \<le> length ls \<and> 1 \<le> d \<and> d \<le> ls ! (m - 1) \<and> sum_list (take (m - 1) ls) + d = n + 1"
proof (induction ls arbitrary: n m)
  case (Cons l ls)
  show ?case
  proof (cases "n < l")
    case True
    with Cons.prems show ?thesis by auto
  next
    case False
    with Cons.prems(1) obtain k where k: "split_month ls (n - l) = (k, d)" "m = Suc k"
      by (auto split: prod.splits)
    have "n - l < sum_list ls" using Cons.prems(2) False by simp
    from Cons.IH [OF k(1) this] k(2) False show ?thesis by (cases k) auto
  qed
qed simp

lemma day_number_civil:
  assumes "civil day = (y, m, d)"
  shows "day_number y m d = day \<and> date_ok y m d"
proof -
  have y: "y = year_of_day day" and sm: "split_month (month_lengths (leap y)) (nat (day - day_from_year y)) = (m, d)"
    using assms by (auto simp: civil_def Let_def)
  note c = year_of_day_correct [of day, folded y]
  then have "nat (day - day_from_year y) < sum_list (month_lengths (leap y))"
    by (auto simp: sum_month_lengths day_from_year_Suc nat_less_iff split: if_splits)
  from split_month_inv [OF sm this] c show ?thesis by (auto simp: day_number_def date_ok_def)
qed


section \<open>Reading and writing\<close>

fun two_digits :: "nat \<Rightarrow> jsstr" where
  "two_digits n = [digit (n div 10 mod 10), digit (n mod 10)]"

fun three_digits :: "nat \<Rightarrow> jsstr" where
  "three_digits n = digit (n div 100 mod 10) # two_digits (n mod 100)"

fun four_digits :: "nat \<Rightarrow> jsstr" where
  "four_digits n = two_digits (n div 100) @ two_digits (n mod 100)"

definition iso_year :: "int \<Rightarrow> jsstr" where
  "iso_year y =
     (if 0 \<le> y \<and> y \<le> 9999 then four_digits (nat y)
      else (if y < 0 then js ''-'' else js ''+'') @ two_digits (nat \<bar>y\<bar> div 10000) @ four_digits (nat \<bar>y\<bar> mod 10000))"

definition MS_PER_DAY :: int where "MS_PER_DAY = 86400000"

text \<open>\<open>toISOString\<close> of a time value; times beyond a hundred million days are invalid.\<close>

definition toISOString :: "int option \<Rightarrow> jsstr res" where
  "toISOString t =
     (case t of
        None \<Rightarrow> Inl RangeError
      | Some ms \<Rightarrow>
          if 100000000 * MS_PER_DAY < \<bar>ms\<bar> then Inl RangeError
          else
            (let (y, m, d) = civil (ms div MS_PER_DAY); r = nat (ms mod MS_PER_DAY)
             in Inr (iso_year y @ js ''-'' @ two_digits m @ js ''-'' @ two_digits d @ js ''T''
                  @ two_digits (r div 3600000) @ js '':'' @ two_digits (r div 60000 mod 60) @ js '':''
                  @ two_digits (r div 1000 mod 60) @ js ''.'' @ three_digits (r mod 1000) @ js ''Z'')))"

text \<open>Fixed-width digits, then one separator.\<close>

fun take_digits :: "nat \<Rightarrow> jsstr \<Rightarrow> (nat \<times> jsstr) option" where
  "take_digits n s =
     (if n \<le> length s \<and> list_all is_digit (take n s) then Some (digits_val (take n s), drop n s) else None)"

definition take_char :: "16 word \<Rightarrow> jsstr \<Rightarrow> jsstr option" where
  "take_char c s = (case s of [] \<Rightarrow> None | x # r \<Rightarrow> if x = c then Some r else None)"

definition take_field :: "nat \<Rightarrow> 16 word \<Rightarrow> jsstr \<Rightarrow> (nat \<times> jsstr) option" where
  "take_field n c s =
     (case take_digits n s of
        None \<Rightarrow> None
      | Some (v, r) \<Rightarrow> (case take_char c r of None \<Rightarrow> None | Some r' \<Rightarrow> Some (v, r')))"

text \<open>An optional fraction of a second, in milliseconds; further digits are dropped.\<close>

definition take_millis :: "jsstr \<Rightarrow> (nat \<times> jsstr) option" where
  "take_millis s =
     (case s of
        c # r \<Rightarrow>
          if c = 0x2E
          then (let ds = takeWhile is_digit r
                in if ds = [] then None
                   else Some (digits_val (take 3 (ds @ [48, 48])), dropWhile is_digit r))
          else Some (0, s)
      | [] \<Rightarrow> Some (0, s))"

definition take_offset :: "jsstr \<Rightarrow> int option" where
  "take_offset s =
     (if s = [0x5A] then Some 0
      else case s of
        [] \<Rightarrow> None
      | c # r \<Rightarrow>
          if c = 0x2B \<or> c = 0x2D
          then (case take_field 2 0x3A r of
                  None \<Rightarrow> None
                | Some (h, r1) \<Rightarrow>
                    (case take_digits 2 r1 of
                       Some (mi, []) \<Rightarrow>
                         if h < 24 \<and> mi < 60 then Some ((if c = 0x2D then -1 else 1) * int (60 * h + mi)) else None
                     | _ \<Rightarrow> None))
          else None)"

definition iso_instant :: "jsstr \<Rightarrow> int option" where
  "iso_instant s0 =
     (case take_field 4 0x2D s0 of None \<Rightarrow> None | Some (y, s1) \<Rightarrow>
      case take_field 2 0x2D s1 of None \<Rightarrow> None | Some (m, s2) \<Rightarrow>
      case take_field 2 0x54 s2 of None \<Rightarrow> None | Some (d, s3) \<Rightarrow>
      case take_field 2 0x3A s3 of None \<Rightarrow> None | Some (h, s4) \<Rightarrow>
      case take_field 2 0x3A s4 of None \<Rightarrow> None | Some (mi, s5) \<Rightarrow>
      case take_digits 2 s5 of None \<Rightarrow> None | Some (sec, s6) \<Rightarrow>
      case take_millis s6 of None \<Rightarrow> None | Some (ms, s7) \<Rightarrow>
      case take_offset s7 of None \<Rightarrow> None | Some off \<Rightarrow>
        if date_ok (int y) m d \<and> h < 24 \<and> mi < 60 \<and> sec < 60
        then Some (day_number (int y) m d * MS_PER_DAY
               + int (((h * 60 + mi) * 60 + sec) * 1000 + ms) - off * 60000)
        else None)"

definition new_Date :: "(jsstr \<Rightarrow> int option) \<Rightarrow> jsstr \<Rightarrow> int option" where
  "new_Date engine s = (case iso_instant s of Some t \<Rightarrow> Some t | None \<Rightarrow> engine s)"



section \<open>What is written is read back as the same instant\<close>

lemma digits_val_two: "n < 100 \<Longrightarrow> digits_val (two_digits n) = n"
  by (simp add: digits_val_def)

lemma digits_val_three: "n < 1000 \<Longrightarrow> digits_val (three_digits n) = n"
proof -
  assume "n < 1000"
  then have "n div 100 mod 10 = n div 100" by simp
  then show ?thesis by (simp add: digits_val_def)
qed

lemma digits_val_app2: "k < 100 \<Longrightarrow> digits_val (xs @ two_digits k) = 100 * digits_val xs + k"
  using digits_val_two [of k] by (simp add: digits_val_def)

lemma digits_val_four: "n < 10000 \<Longrightarrow> digits_val (four_digits n) = n"
proof -
  assume "n < 10000"
  then have "n div 100 < 100" by auto
  then have "digits_val (four_digits n) = 100 * (n div 100) + n mod 100"
    using digits_val_app2 [of "n mod 100" "two_digits (n div 100)"] digits_val_two [of "n div 100"]
    by (simp del: two_digits.simps)
  then show ?thesis by (simp del: four_digits.simps)
qed

lemma take_digits_app:
  "length ds = n \<Longrightarrow> list_all is_digit ds \<Longrightarrow> take_digits n (ds @ r) = Some (digits_val ds, r)"
  by simp

lemma take_field_app:
  "length ds = n \<Longrightarrow> list_all is_digit ds \<Longrightarrow> take_field n c (ds @ c # r) = Some (digits_val ds, r)"
  by (simp add: take_field_def take_char_def del: take_digits.simps add: take_digits_app)

lemma fixed_digits:
  "list_all is_digit (two_digits n)" "length (two_digits n) = 2"
  "list_all is_digit (three_digits n)" "length (three_digits n) = 3"
  "list_all is_digit (four_digits n)" "length (four_digits n) = 4"
  by simp_all

lemma separators: "js ''-'' = [0x2D]" "js ''T'' = [0x54]" "js '':'' = [0x3A]" "js ''.'' = [0x2E]" "js ''Z'' = [0x5A]"
  by code_simp+

lemma z_not_digit: "\<not> is_digit 0x5A"
  by (simp add: is_digit_def)

lemma take_millis_three: "n < 1000 \<Longrightarrow> take_millis (0x2E # three_digits n @ [0x5A]) = Some (n, [0x5A])"
proof -
  assume n: "n < 1000"
  have "takeWhile is_digit (three_digits n @ [0x5A]) = three_digits n"
    "dropWhile is_digit (three_digits n @ [0x5A]) = [0x5A]"
    using z_not_digit by simp_all
  then show ?thesis
    using digits_val_three [OF n] fixed_digits(4) [of n] by (simp add: take_millis_def del: three_digits.simps) auto
qed


lemma time_of_day:
  fixes r :: nat
  shows "((r div 3600000 * 60 + r div 60000 mod 60) * 60 + r div 1000 mod 60) * 1000 + r mod 1000 = r"
proof -
  have "r div 60000 = r div 1000 div 60" "r div 3600000 = r div 1000 div 60 div 60"
    by (simp_all add: div_mult2_eq [symmetric])
  then have "(r div 3600000 * 60 + r div 60000 mod 60) * 60 + r div 1000 mod 60 = r div 1000"
    by (simp only: div_mult_mod_eq)
  then show ?thesis by (simp only: div_mult_mod_eq)
qed

lemma iso_instant_written:
  assumes "y < 10000" and "m < 100" and "d < 100" and "h < 24" and "mi < 60" and "sec < 60" and "ms < 1000"
    and "date_ok (int y) m d"
  shows "iso_instant (four_digits y @ 0x2D # two_digits m @ 0x2D # two_digits d @ 0x54 # two_digits h
      @ 0x3A # two_digits mi @ 0x3A # two_digits sec @ 0x2E # three_digits ms @ [0x5A]) =
    Some (day_number (int y) m d * MS_PER_DAY + int (((h * 60 + mi) * 60 + sec) * 1000 + ms))"
proof -
  have t2: "take_field 2 c (two_digits n @ c # r) = Some (n, r)" if "n < 100" for n c r
    using that take_field_app [of "two_digits n" 2 c r] fixed_digits digits_val_two by simp
  have t4: "take_field 4 c (four_digits n @ c # r) = Some (n, r)" if "n < 10000" for n c r
    using that take_field_app [of "four_digits n" 4 c r] fixed_digits digits_val_four by simp
  have s2: "take_digits 2 (two_digits n @ r) = Some (n, r)" if "n < 100" for n r
    using that take_digits_app [of "two_digits n" 2 r] fixed_digits digits_val_two by simp
  have "take_offset [0x5A] = Some 0" by (simp add: take_offset_def)
  then show ?thesis
    using assms
    by (simp add: iso_instant_def t2 t4 s2 take_millis_three
        del: two_digits.simps three_digits.simps four_digits.simps take_digits.simps)
qed

text \<open>For the years 0 to 9999, reading what \<open>toISOString\<close> writes gives the same instant.\<close>

lemma iso_round_trip:
  assumes "civil (ms div MS_PER_DAY) = (y, m, d)" and "0 \<le> y" and "y \<le> 9999"
    and "\<bar>ms\<bar> \<le> 100000000 * MS_PER_DAY"
  shows "\<exists>s. toISOString (Some ms) = Inr s \<and> iso_instant s = Some ms"
proof -
  define r where "r = nat (ms mod MS_PER_DAY)"
  have rr: "int r = ms mod MS_PER_DAY" "r < 86400000" by (simp_all add: r_def MS_PER_DAY_def nat_less_iff)
  note dn = day_number_civil [OF assms(1)]
  have "month_lengths lp ! (m - 1) \<le> 31" if "m \<le> 12" "1 \<le> m" for lp
    using that by (auto simp: month_lengths_def nth_Cons' split: if_splits)
  from this [of "leap y"] dn have md: "m < 100" "d < 100" by (auto simp: date_ok_def)
  have h: "r div 3600000 < 24" "r div 60000 mod 60 < 60" "r div 1000 mod 60 < 60" "r mod 1000 < 1000"
    using rr(2) by auto
  let ?s = "four_digits (nat y) @ 0x2D # two_digits m @ 0x2D # two_digits d @ 0x54 # two_digits (r div 3600000)
      @ 0x3A # two_digits (r div 60000 mod 60) @ 0x3A # two_digits (r div 1000 mod 60) @ 0x2E # three_digits (r mod 1000) @ [0x5A]"
  have w: "toISOString (Some ms) = Inr ?s"
    using assms
    by (simp add: toISOString_def iso_year_def separators r_def [symmetric]
        del: two_digits.simps three_digits.simps four_digits.simps)
  have "iso_instant ?s = Some (day_number y m d * MS_PER_DAY + int r)"
    using iso_instant_written [of "nat y" m d, OF _ md h] assms(2,3) dn
    by (simp only: time_of_day) simp
  also have "day_number y m d * MS_PER_DAY + int r = ms"
    using dn rr(1) by simp
  finally show ?thesis using w by blast
qed

end
