(* ===== verification/GoText.thy ===== *)
theory GoText
  imports DashHttp JsDate
begin

text \<open>
  What the server takes from Go's standard library: strings as UTF-8 (\<open>unicode/utf8\<close>), the text
  \<open>encoding/json\<close> writes, and times in RFC 3339 (\<open>time\<close>). A Go string is a sequence of bytes. Where
  it came from JSON it is the text those bytes encode, in which a surrogate on its own has become
  the replacement character; where the code cuts it at a byte position it is kept as bytes.
\<close>

section \<open>UTF-8\<close>

type_synonym gobytes = jsstr

fun go_text :: "jsstr \<Rightarrow> jsstr" where
  "go_text [] = []"
| "go_text [c] = [if is_high c \<or> is_low c then 0xFFFD else c]"
| "go_text (c # d # cs) =
     (if is_high c \<and> is_low d then c # d # go_text cs
      else (if is_high c \<or> is_low c then 0xFFFD else c) # go_text (d # cs))"

definition utf8 :: "jsstr \<Rightarrow> gobytes" where
  "utf8 s = map of_nat (utf8_bytes s)"

text \<open>The first code point of a byte sequence and its width; an invalid byte is one replacement character.\<close>

definition cont_byte :: "nat \<Rightarrow> bool" where
  "cont_byte b \<longleftrightarrow> 0x80 \<le> b \<and> b < 0xC0"

fun decode_rune :: "nat list \<Rightarrow> nat \<times> nat" where
  "decode_rune [] = (0xFFFD, 1)"
| "decode_rune (b0 # r) =
     (if b0 < 0x80 then (b0, 1)
      else case r of
        [] \<Rightarrow> (0xFFFD, 1)
      | b1 # r1 \<Rightarrow>
          if 0xC2 \<le> b0 \<and> b0 \<le> 0xDF \<and> cont_byte b1 then ((b0 - 0xC0) * 64 + (b1 - 0x80), 2)
          else case r1 of
            [] \<Rightarrow> (0xFFFD, 1)
          | b2 # r2 \<Rightarrow>
              if 0xE0 \<le> b0 \<and> b0 \<le> 0xEF \<and> cont_byte b1 \<and> cont_byte b2
                \<and> (b0 = 0xE0 \<longrightarrow> 0xA0 \<le> b1) \<and> (b0 = 0xED \<longrightarrow> b1 \<le> 0x9F)
              then ((b0 - 0xE0) * 4096 + (b1 - 0x80) * 64 + (b2 - 0x80), 3)
              else case r2 of
                [] \<Rightarrow> (0xFFFD, 1)
              | b3 # _ \<Rightarrow>
                  if 0xF0 \<le> b0 \<and> b0 \<le> 0xF4 \<and> cont_byte b1 \<and> cont_byte b2 \<and> cont_byte b3
                    \<and> (b0 = 0xF0 \<longrightarrow> 0x90 \<le> b1) \<and> (b0 = 0xF4 \<longrightarrow> b1 \<le> 0x8F)
                  then ((b0 - 0xF0) * 262144 + (b1 - 0x80) * 4096 + (b2 - 0x80) * 64 + (b3 - 0x80), 4)
                  else (0xFFFD, 1))"

definition rune_units :: "nat \<Rightarrow> jsstr" where
  "rune_units n =
     (if n < 0x10000 then [of_nat n]
      else [of_nat (0xD800 + (n - 0x10000) div 1024), of_nat (0xDC00 + (n - 0x10000) mod 1024)])"

lemma decode_rune_width: "0 < snd (decode_rune bs)"
  by (cases bs rule: decode_rune.cases) (auto split: list.split)

function go_decode :: "nat list \<Rightarrow> jsstr" where
  "go_decode [] = []"
| "go_decode (b # bs) =
     rune_units (fst (decode_rune (b # bs))) @ go_decode (drop (snd (decode_rune (b # bs))) (b # bs))"
  by pat_completeness auto
termination
  by (relation "measure length") (use decode_rune_width in \<open>auto simp del: decode_rune.simps\<close>)

declare go_decode.simps [simp del]

lemma go_decode_Nil [simp]: "go_decode [] = []"
  by (simp add: go_decode.simps)

lemma go_decode_step:
  assumes "decode_rune (bs @ r) = (n, length bs)" and "bs \<noteq> []"
  shows "go_decode (bs @ r) = rune_units n @ go_decode r"
  using assms by (cases bs) (simp_all add: go_decode.simps(2) del: decode_rune.simps)

lemma low_sextets:
  "n div 4096 * 4096 + n div 64 mod 64 * 64 + n mod 64 = (n::nat)"
  "n div 262144 * 262144 + n div 4096 mod 64 * 4096 + n div 64 mod 64 * 64 + n mod 64 = n"
proof -
  have 1: "n div 4096 * 64 + n div 64 mod 64 = n div 64" for n :: nat
    using div_mult_mod_eq [of "n div 64" 64] by (simp only: div_mult2_eq [symmetric]) simp
  have "(n div 4096 * 64 + n div 64 mod 64) * 64 + n mod 64 = n" unfolding 1 by simp
  then show "n div 4096 * 4096 + n div 64 mod 64 * 64 + n mod 64 = n" by (simp add: add_mult_distrib)
  moreover have "n div 262144 * 64 + n div 4096 mod 64 = n div 4096"
    using div_mult_mod_eq [of "n div 4096" 64] by (simp only: div_mult2_eq [symmetric]) simp
  then have "(n div 262144 * 64 + n div 4096 mod 64) * 4096 = n div 4096 * 4096" by simp
  then have "n div 262144 * 262144 + n div 4096 mod 64 * 4096 = n div 4096 * 4096"
    by (simp add: add_mult_distrib)
  ultimately show "n div 262144 * 262144 + n div 4096 mod 64 * 4096 + n div 64 mod 64 * 64 + n mod 64 = n" by simp
qed

lemma decode_unit:
  assumes "\<not> is_high c" and "\<not> is_low c"
  shows "decode_rune (unit_bytes c @ r) = (unat c, length (unit_bytes c))"
proof -
  define n where "n = unat c"
  have n: "n < 65536" using unsigned_less [of c] by (simp add: n_def)
  have s: "n < 0xD800 \<or> 0xE000 \<le> n"
    using assms by (auto simp: is_high_def is_low_def word_le_nat_alt n_def)
  consider "n < 0x80" | "0x80 \<le> n" "n < 0x800" | "0x800 \<le> n" by linarith
  then show ?thesis
  proof cases
    case 1
    then show ?thesis using assms by (simp add: unit_bytes_def n_def [symmetric])
  next
    case 2
    have "2 \<le> n div 64" "n div 64 < 32" using 2 by (simp_all add: less_mult_imp_div_less)
    then show ?thesis using assms 2 by (simp add: unit_bytes_def n_def [symmetric] cont_byte_def)
  next
    case 3
    have d: "n div 64 div 64 = n div 4096" by (simp add: div_mult2_eq [symmetric])
    have u: "n div 4096 < 16" using n by (simp add: less_mult_imp_div_less)
    have mid: "n div 64 mod 64 = n div 64 - n div 4096 * 64"
      using minus_div_mult_eq_mod [of "n div 64" 64] d by simp
    have lo: "32 \<le> n div 64 mod 64" if "n div 4096 = 0"
      using div_le_mono [OF 3, of 64] that by (simp add: mid)
    have hi: "n div 64 mod 64 < 32" if "n div 4096 = 13"
    proof -
      have "n < 14 * 4096" using that dividend_less_times_div [of 4096 n] by simp
      with s have "n \<le> 55295" by simp
      from div_le_mono [OF this, of 64] that show ?thesis by (simp add: mid)
    qed
    note low_sextets [of n]
    with u lo hi 3 assms show ?thesis
      by (auto simp: unit_bytes_def n_def [symmetric] cont_byte_def)
  qed
qed

lemma decode_pair:
  assumes "is_high c" and "is_low d"
  defines "n \<equiv> 0x10000 + (unat c - 0xD800) * 1024 + (unat d - 0xDC00)"
  shows "decode_rune (pair_bytes c d @ r) = (n, length (pair_bytes c d)) \<and> rune_units n = [c, d]"
proof
  have r: "unat c - 0xD800 < 1024" "unat d - 0xDC00 < 1024" "0xD800 \<le> unat c" "0xDC00 \<le> unat d"
    using surrogate_range [of c] surrogate_range [of d] assms(1,2)
    by (auto simp: is_high_def is_low_def word_le_nat_alt)
  have n: "0x10000 \<le> n" "n < 0x110000" unfolding n_def using r by linarith+
  have d1: "n div 64 div 64 = n div 4096" "n div 4096 div 64 = n div 262144" by (simp_all add: div_mult2_eq [symmetric])
  have u: "n div 262144 < 5" using n(2) by (simp add: less_mult_imp_div_less)
  have mid: "n div 4096 mod 64 = n div 4096 - n div 262144 * 64"
    using minus_div_mult_eq_mod [of "n div 4096" 64] d1 by simp
  have lo: "16 \<le> n div 4096 mod 64" if "n div 262144 = 0"
    using div_le_mono [OF n(1), of 4096] that by (simp add: mid)
  have hi: "n div 4096 mod 64 \<le> 15" if "n div 262144 = 4"
  proof -
    have "n \<le> 0x10FFFF" using n(2) by simp
    from div_le_mono [OF this, of 4096] that show ?thesis by (simp add: mid)
  qed
  note low_sextets(2) [of n]
  with u lo hi show "decode_rune (pair_bytes c d @ r) = (n, length (pair_bytes c d))"
    by (auto simp: pair_bytes_def n_def [symmetric] cont_byte_def)
  have "n - 0x10000 = unat d - 0xDC00 + (unat c - 0xD800) * 1024" by (simp add: n_def)
  with r(2) have "(n - 0x10000) div 1024 = unat c - 0xD800" "(n - 0x10000) mod 1024 = unat d - 0xDC00"
    by (simp_all del: add_diff_assoc2)
  then have "0xD800 + (n - 0x10000) div 1024 = unat c" "0xDC00 + (n - 0x10000) mod 1024 = unat d"
    using r by simp_all
  then show "rune_units n = [c, d]"
    using n(1) by (simp only: rune_units_def) simp
qed

lemma rune_units_word: "rune_units (unat (c :: 16 word)) = [c]"
  using unsigned_less [of c] by (simp add: rune_units_def)

lemma decode_unit_bytes:
  "go_decode (unit_bytes c @ r) = (if is_high c \<or> is_low c then 0xFFFD else c) # go_decode r"
proof (cases "is_high c \<or> is_low c")
  case True
  then have b: "unit_bytes c = [0xEF, 0xBF, 0xBD]" by (simp add: unit_bytes_def)
  have "decode_rune (unit_bytes c @ r) = (0xFFFD, length (unit_bytes c))"
    by (simp add: b cont_byte_def)
  from go_decode_step [OF this] True b show ?thesis by (simp add: rune_units_def)
next
  case False
  then have "unit_bytes c \<noteq> []" by (auto simp: unit_bytes_def Let_def)
  from go_decode_step [OF decode_unit this] False show ?thesis by (simp add: rune_units_word)
qed

lemma go_decode_append: "go_decode (utf8_bytes s @ r) = go_text s @ go_decode r"
proof (induction s rule: go_text.induct)
  case (3 c d cs)
  show ?case
  proof (cases "is_high c \<and> is_low d")
    case True
    then have "go_decode (pair_bytes c d @ utf8_bytes cs @ r) = [c, d] @ go_decode (utf8_bytes cs @ r)"
      using decode_pair [of c d] go_decode_step [of "pair_bytes c d"] by (simp add: pair_bytes_def Let_def)
    with True 3 show ?thesis by simp
  next
    case False
    with 3 show ?thesis by (auto simp: decode_unit_bytes)
  qed
qed (simp_all add: decode_unit_bytes)

text \<open>Decoding what was encoded gives the text back.\<close>

lemma go_decode_utf8 [simp]: "go_decode (utf8_bytes s) = go_text s"
  using go_decode_append [of s "[]"] by simp

lemma utf8_eq_iff: "utf8_bytes s = utf8_bytes t \<Longrightarrow> go_text s = go_text t"
  by (metis go_decode_utf8)

lemma go_text_Nil [simp]: "go_text s = [] \<longleftrightarrow> s = []"
  by (cases s rule: go_text.cases) auto

lemma go_text_idem [simp]: "go_text (go_text s) = go_text s"
proof (induction s rule: go_text.induct)
  case (2 c)
  have "\<not> is_high 0xFFFD" "\<not> is_low 0xFFFD" by (simp_all add: is_high_def is_low_def)
  then show ?case by simp
next
  case (3 c d cs)
  have f: "\<not> is_high 0xFFFD" "\<not> is_low 0xFFFD" by (simp_all add: is_high_def is_low_def)
  obtain x xs where x: "go_text (d # cs) = x # xs" by (cases "go_text (d # cs)") simp_all
  show ?case
  proof (cases "is_high c \<and> is_low d")
    case True
    with 3 show ?thesis by simp
  next
    case False
    with 3 x f show ?thesis by auto
  qed
qed simp

text \<open>Encoding does not tell apart what \<open>go_text\<close> identifies.\<close>

lemma utf8_bytes_go_text [simp]: "utf8_bytes (go_text s) = utf8_bytes s"
proof (induction s rule: go_text.induct)
  case (2 c)
  have "unit_bytes (0xFFFD) = [0xEF, 0xBF, 0xBD]" by code_simp
  then show ?case by (simp add: unit_bytes_def)
next
  case (3 c d cs)
  have f: "\<not> is_high 0xFFFD" "unit_bytes 0xFFFD = [0xEF, 0xBF, 0xBD]" by code_simp+
  obtain x xs where x: "go_text (d # cs) = x # xs" by (cases "go_text (d # cs)") simp_all
  have u: "unit_bytes c = [0xEF, 0xBF, 0xBD]" if "is_high c \<or> is_low c" using that by (simp add: unit_bytes_def)
  show ?case
  proof (cases "is_high c \<and> is_low d")
    case True
    with 3 show ?thesis by simp
  next
    case False
    with 3(2) x have "utf8_bytes (x # xs) = utf8_bytes (d # cs)" by simp
    with False x f u show ?thesis by auto
  qed
qed simp


section \<open>JSON\<close>

text \<open>Strings are quoted for use inside HTML, too.\<close>

definition go_quote_unit :: "16 word \<Rightarrow> jsstr" where
  "go_quote_unit c =
     (if c = 8 then [0x5C, 0x62]
      else if c = 9 then [0x5C, 0x74]
      else if c = 10 then [0x5C, 0x6E]
      else if c = 12 then [0x5C, 0x66]
      else if c = 13 then [0x5C, 0x72]
      else if c = 0x22 then [0x5C, 0x22]
      else if c = 0x5C then [0x5C, 0x5C]
      else if c < 0x20 \<or> c \<in> {0x26, 0x3C, 0x3E, 0x2028, 0x2029} then unicode_escape c
      else [c])"

definition go_quote :: "jsstr \<Rightarrow> jsstr" where
  "go_quote s = 0x22 # concat (map go_quote_unit s) @ [0x22]"

definition go_marshal :: "jsval \<Rightarrow> jsstr" where
  "go_marshal v = write_with go_quote v"

lemma pstr_go_quote_unit: "pstr (go_quote_unit c @ t) = push_unit c (pstr t)"
proof (cases "c < 0x20 \<or> c \<in> {0x26, 0x3C, 0x3E, 0x2028, 0x2029}")
  case True
  have "pstr (unicode_escape c @ t) = push_unit c (pstr t)"
    using pescape_unicode [of c t] by (simp add: unicode_escape_def Let_def)
  with True show ?thesis by (auto simp: go_quote_unit_def pescape_def unescape_def)
next
  case False
  then show ?thesis by (auto simp: go_quote_unit_def pescape_def unescape_def)
qed

lemma pstr_go_quote: "pstr (concat (map go_quote_unit s) @ 0x22 # rest) = Inr (s, rest)"
  by (induction s) (simp_all add: pstr_go_quote_unit push_unit_def)

interpretation go_writer: json_writer go_quote
  by unfold_locales (simp_all add: go_quote_def pstr_go_quote)

lemma go_marshal_read: "json_ok (clean v) \<Longrightarrow> json_parse (go_marshal v) = Inr (clean v)"
  unfolding go_marshal_def by (rule go_writer.written_read_clean)


section \<open>Times\<close>

definition SECOND_NS :: int where "SECOND_NS = 1000000000"
definition DAY_NS :: int where "DAY_NS = 24 * 60 * 60 * 1000000000"

text \<open>
  \<open>time.Time.MarshalJSON\<close> of an instant in nanoseconds, in a zone that many minutes east of
  Greenwich: \<open>2006-01-02T15:04:05.999999999Z07:00\<close>, the zeros at the end of the fraction left out.
\<close>

definition nine_digits :: "nat \<Rightarrow> jsstr" where
  "nine_digits n = three_digits (n div 1000000) @ three_digits (n div 1000 mod 1000) @ three_digits (n mod 1000)"

definition go_fraction :: "nat \<Rightarrow> jsstr" where
  "go_fraction n =
     (if n = 0 then [] else 0x2E # rev (dropWhile (\<lambda>c. c = digit 0) (rev (nine_digits n))))"

definition go_zone :: "int \<Rightarrow> jsstr" where
  "go_zone off =
     (if off = 0 then js ''Z''
      else (if off < 0 then js ''-'' else js ''+'') @ two_digits (nat \<bar>off\<bar> div 60) @ js '':'' @ two_digits (nat \<bar>off\<bar> mod 60))"

definition go_time :: "int \<Rightarrow> int \<Rightarrow> jsstr" where
  "go_time off t =
     (let local = t + off * 60 * SECOND_NS; r = nat (local mod DAY_NS); sec = r div 1000000000
      in case civil (local div DAY_NS) of (y, m, d) \<Rightarrow>
        iso_year y @ js ''-'' @ two_digits m @ js ''-'' @ two_digits d @ js ''T''
        @ two_digits (sec div 3600) @ js '':'' @ two_digits (sec div 60 mod 60) @ js '':'' @ two_digits (sec mod 60)
        @ go_fraction (r mod 1000000000) @ go_zone off)"

text \<open>\<open>time.Parse(time.RFC3339, s)\<close>, on text of exactly that form, with or without a fraction.\<close>

definition take_nanos :: "jsstr \<Rightarrow> (nat \<times> jsstr) option" where
  "take_nanos s =
     (case s of
        c # r \<Rightarrow>
          if c = 0x2E
          then (let ds = takeWhile is_digit r
                in if ds = [] then None
                   else Some (digits_val (take 9 (ds @ replicate 8 48)), dropWhile is_digit r))
          else Some (0, s)
      | [] \<Rightarrow> Some (0, s))"

definition go_parse_time :: "jsstr \<Rightarrow> int option" where
  "go_parse_time s0 =
     (case take_field 4 0x2D s0 of None \<Rightarrow> None | Some (y, s1) \<Rightarrow>
      case take_field 2 0x2D s1 of None \<Rightarrow> None | Some (m, s2) \<Rightarrow>
      case take_field 2 0x54 s2 of None \<Rightarrow> None | Some (d, s3) \<Rightarrow>
      case take_field 2 0x3A s3 of None \<Rightarrow> None | Some (h, s4) \<Rightarrow>
      case take_field 2 0x3A s4 of None \<Rightarrow> None | Some (mi, s5) \<Rightarrow>
      case take_digits 2 s5 of None \<Rightarrow> None | Some (sec, s6) \<Rightarrow>
      case take_nanos s6 of None \<Rightarrow> None | Some (ns, s7) \<Rightarrow>
      case take_offset s7 of None \<Rightarrow> None | Some off \<Rightarrow>
        if date_ok (int y) m d \<and> h < 24 \<and> mi < 60 \<and> sec < 60
        then Some (day_number (int y) m d * DAY_NS
               + int ((h * 60 + mi) * 60 + sec) * SECOND_NS + int ns - off * 60 * SECOND_NS)
        else None)"

end
