(* ===== verification/ServerStore.thy ===== *)
theory ServerStore
  imports SdkTransport GoText "HOL-Library.Multiset"
begin

text \<open>
  The server's data (\<open>internal/session/model.go\<close>) and its store
  (\<open>internal/session/repository.go\<close>): two tables of sessions and events and one of batches that
  could not be stored, with one definition per method of \<open>Repository\<close>. The columns, their defaults
  and constraints are those of \<open>internal/db/migrations\<close>.

  The server is written in Go. A Go string that came in as JSON is the text it encodes (a
  surrogate on its own having become the replacement character); the texts of the device metadata are
  byte strings, because they are cut at a byte position. Times are nanoseconds (PostgreSQL keeps
  microseconds). A column of JSON keeps the value; the order of the keys of an object, which
  PostgreSQL does not keep, is kept here. What the store
  needs from outside is the record \<open>engine\<close>: which operations on the database fail (they change
  nothing), in which order rows that the \<open>ORDER BY\<close> of a query does not tell apart come, the
  identifiers \<open>uuid.New()\<close> makes, the texts \<open>uuid.Parse\<close> accepts, and when the queue fails. An operation of the database is
  atomic; \<open>Save\<close> writes every column of the row that is not omitted, inserting it if there is none.
\<close>

section \<open>Errors and rows\<close>

text \<open>An error with the text \<open>fmt.Errorf\<close> puts before it.\<close>

datatype go_error = DbError | NotFound | Unmarshal | Wrapped string go_error

type_synonym 'a gores = "go_error + 'a"

record session_row =
  s_id :: jsstr
  s_bat_session_id :: jsstr
  s_identifier :: jsstr
  s_user_email :: jsstr
  s_user_name :: jsstr
  s_start_url :: jsstr
  s_environment :: jsstr
  s_service_name :: jsstr
  s_started_at :: int
  s_ended_at :: "int option"
  s_duration_ms :: "int option"
  s_event_count :: int
  s_trigger :: jsstr
  s_share_token :: "jsstr option"
  s_screen_width :: int
  s_screen_height :: int
  s_viewport_width :: int
  s_viewport_height :: int
  s_device_pixel_ratio :: jsnum
  s_language :: gobytes
  s_timezone :: gobytes
  s_user_agent :: gobytes
  s_browser :: jsstr
  s_browser_version :: gobytes
  s_os :: jsstr
  s_device_type :: jsstr
  s_created_at :: int

record event_row =
  e_id :: jsstr
  e_session_id :: jsstr
  e_seq :: int
  e_type :: int
  e_data :: jsval
  e_timestamp :: int
  e_created_at :: int

text \<open>The payload of a failed batch is the JSON of the request; here, the value that JSON encodes.\<close>

record failed_row =
  f_id :: jsstr
  f_session_id :: jsstr
  f_payload :: jsval
  f_error :: go_error
  f_retry_count :: int
  f_resolved :: bool
  f_created_at :: int
  f_resolved_at :: "int option"

text \<open>The texts of a filter come from an address, as bytes.\<close>

record ListFilter =
  lf_identifier :: gobytes
  lf_service_name :: gobytes
  lf_environment :: gobytes
  lf_start_date :: "int option"
  lf_end_date :: "int option"
  lf_limit :: int
  lf_offset :: int

text \<open>The sanitized device metadata.\<close>

record client_row =
  c_screen_width :: int
  c_screen_height :: int
  c_viewport_width :: int
  c_viewport_height :: int
  c_device_pixel_ratio :: jsnum
  c_language :: gobytes
  c_timezone :: gobytes
  c_user_agent :: gobytes


section \<open>The database\<close>

record engine =
  db_fault :: "nat \<Rightarrow> bool"
  order_events :: "event_row list \<Rightarrow> event_row list"
  order_sessions :: "session_row list \<Rightarrow> session_row list"
  order_failed :: "failed_row list \<Rightarrow> failed_row list"
  order_names :: "jsstr set \<Rightarrow> jsstr list"
  ack_fails :: "nat \<Rightarrow> bool"
  enqueue_fails :: "nat \<Rightarrow> bool"
  new_uuid :: "nat \<Rightarrow> jsstr"
  uuid_parses :: "jsstr \<Rightarrow> bool"

record server =
  sv_now :: int
  sv_ops :: nat
  sv_uuids :: nat
  t_sessions :: "session_row list"
  t_events :: "event_row list"
  t_failed :: "failed_row list"
  sv_messages :: nat
  sv_queue :: "(nat \<times> jsval) list"
  sv_pending :: "(nat \<times> jsval) list"

text \<open>\<open>ORDER BY timestamp ASC, created_at ASC\<close>, \<open>started_at DESC\<close> and \<open>created_at DESC\<close>\<close>

definition event_before :: "event_row \<Rightarrow> event_row \<Rightarrow> bool" where
  "event_before a b \<longleftrightarrow> e_timestamp a < e_timestamp b
     \<or> e_timestamp a = e_timestamp b \<and> e_created_at a \<le> e_created_at b"

definition engine_contract :: "engine \<Rightarrow> bool" where
  "engine_contract eng \<longleftrightarrow>
     (\<forall>es. mset (order_events eng es) = mset es \<and> sorted_wrt event_before (order_events eng es))
   \<and> (\<forall>ss. mset (order_sessions eng ss) = mset ss
        \<and> sorted_wrt (\<lambda>a b. s_started_at b \<le> s_started_at a) (order_sessions eng ss))
   \<and> (\<forall>fs. mset (order_failed eng fs) = mset fs
        \<and> sorted_wrt (\<lambda>a b. f_created_at b \<le> f_created_at a) (order_failed eng fs))
   \<and> (\<forall>A. finite A \<longrightarrow> set (order_names eng A) = A \<and> distinct (order_names eng A))"

text \<open>One operation on the database, which may fail.\<close>

definition db_op :: "engine \<Rightarrow> (server \<Rightarrow> server \<times> 'a gores) \<Rightarrow> server \<Rightarrow> server \<times> 'a gores" where
  "db_op eng f st =
     (let st1 = st\<lparr>sv_ops := Suc (sv_ops st)\<rparr>
      in if db_fault eng (sv_ops st) then (st1, Inl DbError) else f st1)"

text \<open>The rest of a function after a call that returns an error or a value.\<close>

definition next_op ::
    "server \<times> 'a gores \<Rightarrow> ('a \<Rightarrow> server \<Rightarrow> server \<times> 'b gores) \<Rightarrow> server \<times> 'b gores"
where
  "next_op p f = (case p of (st, Inl e) \<Rightarrow> (st, Inl e) | (st, Inr x) \<Rightarrow> f x st)"

text \<open>\<open>fmt.Errorf("what: %w", err)\<close>\<close>

definition wrap_err :: "string \<Rightarrow> server \<times> 'a gores \<Rightarrow> server \<times> 'a gores" where
  "wrap_err what p = (case p of (st, Inl e) \<Rightarrow> (st, Inl (Wrapped what e)) | (st, Inr x) \<Rightarrow> (st, Inr x))"

lemma next_op_simps [simp]:
  "next_op (st, Inl e) f = (st, Inl e)" "next_op (st, Inr x) f = f x st"
  by (simp_all add: next_op_def)

lemma wrap_err_simps [simp]:
  "wrap_err w (st, Inl e) = (st, Inl (Wrapped w e))" "wrap_err w (st, Inr x) = (st, Inr x)"
  by (simp_all add: wrap_err_def)


section \<open>Sessions\<close>

text \<open>The columns \<open>UpsertSession\<close> leaves alone are those of the old row.\<close>

definition omitOnUpsert :: "session_row \<Rightarrow> session_row \<Rightarrow> session_row" where
  "omitOnUpsert old s = s\<lparr>s_share_token := s_share_token old,
     s_screen_width := s_screen_width old, s_screen_height := s_screen_height old,
     s_viewport_width := s_viewport_width old, s_viewport_height := s_viewport_height old,
     s_device_pixel_ratio := s_device_pixel_ratio old, s_language := s_language old,
     s_timezone := s_timezone old, s_user_agent := s_user_agent old, s_browser := s_browser old,
     s_browser_version := s_browser_version old, s_os := s_os old, s_device_type := s_device_type old\<rparr>"

text \<open>A row before anything was written to it: \<open>NULL\<close>s, read back as zero values.\<close>

definition blank_session :: session_row where
  "blank_session = \<lparr>s_id = [], s_bat_session_id = [], s_identifier = [], s_user_email = [],
     s_user_name = [], s_start_url = [], s_environment = [], s_service_name = [], s_started_at = 0,
     s_ended_at = None, s_duration_ms = None, s_event_count = 0, s_trigger = [], s_share_token = None,
     s_screen_width = 0, s_screen_height = 0, s_viewport_width = 0, s_viewport_height = 0,
     s_device_pixel_ratio = JInt 0, s_language = [], s_timezone = [], s_user_agent = [],
     s_browser = [], s_browser_version = [], s_os = [], s_device_type = [], s_created_at = 0\<rparr>"

definition where_session :: "jsstr \<Rightarrow> (session_row \<Rightarrow> session_row) \<Rightarrow> session_row list \<Rightarrow> session_row list" where
  "where_session i f rows = map (\<lambda>r. if s_id r = i then f r else r) rows"

definition UpsertSession :: "engine \<Rightarrow> session_row \<Rightarrow> server \<Rightarrow> server \<times> unit gores" where
  "UpsertSession eng s = db_op eng (\<lambda>st.
     (st\<lparr>t_sessions :=
        (if s_id s \<in> s_id ` set (t_sessions st)
         then where_session (s_id s) (\<lambda>old. omitOnUpsert old s) (t_sessions st)
         else t_sessions st @ [omitOnUpsert blank_session s])\<rparr>, Inr ()))"

definition SetClientMetadata ::
    "engine \<Rightarrow> jsstr \<Rightarrow> client_row \<Rightarrow> jsstr \<times> gobytes \<times> jsstr \<times> jsstr \<Rightarrow> server \<Rightarrow> server \<times> unit gores"
where
  "SetClientMetadata eng i m ua = db_op eng (\<lambda>st.
     (case ua of (browser, version, os, device) \<Rightarrow>
       (st\<lparr>t_sessions := where_session i (\<lambda>r. r\<lparr>
          s_screen_width := c_screen_width m, s_screen_height := c_screen_height m,
          s_viewport_width := c_viewport_width m, s_viewport_height := c_viewport_height m,
          s_device_pixel_ratio := c_device_pixel_ratio m, s_language := c_language m,
          s_timezone := c_timezone m, s_user_agent := c_user_agent m, s_browser := browser,
          s_browser_version := version, s_os := os, s_device_type := device\<rparr>) (t_sessions st)\<rparr>, Inr ())))"

definition IncrementEventCount :: "engine \<Rightarrow> jsstr \<Rightarrow> int \<Rightarrow> server \<Rightarrow> server \<times> unit gores" where
  "IncrementEventCount eng i delta = db_op eng (\<lambda>st.
     (st\<lparr>t_sessions := where_session i (\<lambda>r. r\<lparr>s_event_count := s_event_count r + delta\<rparr>) (t_sessions st)\<rparr>, Inr ()))"

definition UpdateSessionEnd :: "engine \<Rightarrow> session_row \<Rightarrow> server \<Rightarrow> server \<times> unit gores" where
  "UpdateSessionEnd eng s = db_op eng (\<lambda>st.
     (st\<lparr>t_sessions := where_session (s_id s)
        (\<lambda>r. r\<lparr>s_ended_at := s_ended_at s, s_duration_ms := s_duration_ms s\<rparr>) (t_sessions st)\<rparr>, Inr ()))"

text \<open>The unique index on the token refuses one that another session has.\<close>

definition SetShareToken :: "engine \<Rightarrow> jsstr \<Rightarrow> jsstr \<Rightarrow> server \<Rightarrow> server \<times> unit gores" where
  "SetShareToken eng i token = db_op eng (\<lambda>st.
     (if i \<in> s_id ` set (t_sessions st)
         \<and> (\<exists>r\<in>set (t_sessions st). s_id r \<noteq> i \<and> s_share_token r = Some token)
      then (st, Inl DbError)
      else (st\<lparr>t_sessions := where_session i (\<lambda>r. r\<lparr>s_share_token := Some token\<rparr>) (t_sessions st)\<rparr>, Inr ())))"

definition GetByID :: "engine \<Rightarrow> jsstr \<Rightarrow> server \<Rightarrow> server \<times> session_row gores" where
  "GetByID eng i = db_op eng (\<lambda>st.
     (st, case find (\<lambda>r. s_id r = i) (t_sessions st) of None \<Rightarrow> Inl NotFound | Some r \<Rightarrow> Inr r))"

definition GetByShareToken :: "engine \<Rightarrow> jsstr \<Rightarrow> server \<Rightarrow> server \<times> session_row gores" where
  "GetByShareToken eng token = db_op eng (\<lambda>st.
     (st, case find (\<lambda>r. s_share_token r = Some token) (t_sessions st) of
            None \<Rightarrow> Inl NotFound | Some r \<Rightarrow> Inr r))"

definition filter_matches :: "ListFilter \<Rightarrow> session_row \<Rightarrow> bool" where
  "filter_matches f r \<longleftrightarrow>
     (lf_identifier f = [] \<or> utf8 (s_identifier r) = lf_identifier f)
   \<and> (lf_service_name f = [] \<or> utf8 (s_service_name r) = lf_service_name f)
   \<and> (lf_environment f = [] \<or> utf8 (s_environment r) = lf_environment f)
   \<and> (case lf_start_date f of None \<Rightarrow> True | Some t \<Rightarrow> t \<le> s_started_at r)
   \<and> (case lf_end_date f of None \<Rightarrow> True | Some t \<Rightarrow> s_started_at r \<le> t)"

definition effective_limit :: "int \<Rightarrow> int" where
  "effective_limit limit = (if limit \<le> 0 \<or> 100 < limit then 50 else limit)"

text \<open>An offset that is not positive is not part of the query.\<close>

definition list_sessions :: "engine \<Rightarrow> ListFilter \<Rightarrow> server \<Rightarrow> server \<times> (session_row list \<times> int) gores" where
  "list_sessions eng f st =
     next_op (db_op eng (\<lambda>st. (st, Inr (int (length (filter (filter_matches f) (t_sessions st)))))) st) (\<lambda>total.
       db_op eng (\<lambda>st. (st, Inr
         (take (nat (effective_limit (lf_limit f)))
           (drop (nat (lf_offset f)) (order_sessions eng (filter (filter_matches f) (t_sessions st)))), total))))"

definition repo_DeleteSession :: "engine \<Rightarrow> jsstr \<Rightarrow> server \<Rightarrow> server \<times> unit gores" where
  "repo_DeleteSession eng i = db_op eng (\<lambda>st.
     (st\<lparr>t_events := filter (\<lambda>e. e_session_id e \<noteq> i) (t_events st),
         t_sessions := filter (\<lambda>r. s_id r \<noteq> i) (t_sessions st)\<rparr>, Inr ()))"

definition repo_PurgeOlderThan :: "engine \<Rightarrow> int \<Rightarrow> server \<Rightarrow> server \<times> int gores" where
  "repo_PurgeOlderThan eng cutoff st =
     next_op (db_op eng (\<lambda>st. (st, Inr (map s_id (filter (\<lambda>r. s_started_at r < cutoff) (t_sessions st))))) st) (\<lambda>ids st.
       if ids = [] then (st, Inr 0)
       else db_op eng (\<lambda>st.
         (st\<lparr>t_events := filter (\<lambda>e. e_session_id e \<notin> set ids) (t_events st),
             t_sessions := filter (\<lambda>r. s_id r \<notin> set ids) (t_sessions st)\<rparr>, Inr (int (length ids)))) st)"


section \<open>Events\<close>

text \<open>Every event refers to a session that exists.\<close>

definition InsertEvents :: "engine \<Rightarrow> event_row list \<Rightarrow> server \<Rightarrow> server \<times> unit gores" where
  "InsertEvents eng es = db_op eng (\<lambda>st.
     (if \<exists>e\<in>set es. e_session_id e \<notin> s_id ` set (t_sessions st) then (st, Inl DbError)
      else (st\<lparr>t_events := t_events st @ es\<rparr>, Inr ())))"

definition GetEvents :: "engine \<Rightarrow> jsstr \<Rightarrow> server \<Rightarrow> server \<times> event_row list gores" where
  "GetEvents eng i = db_op eng (\<lambda>st.
     (st, Inr (order_events eng (filter (\<lambda>e. e_session_id e = i) (t_events st)))))"


section \<open>Statistics\<close>

record stats_row =
  st_total_sessions :: int
  st_sessions_today :: int
  st_sessions_this_week :: int
  st_failed_ingest_count :: int
  st_active_services :: "jsstr list"
  st_recent_sessions :: "session_row list"

text \<open>Midnight, and midnight six days before.\<close>

definition todayStart :: "int \<Rightarrow> int" where "todayStart now = now - now mod DAY_NS"

definition weekStart :: "int \<Rightarrow> int" where "weekStart now = todayStart now - 6 * DAY_NS"

definition db_count :: "engine \<Rightarrow> ('a \<Rightarrow> bool) \<Rightarrow> (server \<Rightarrow> 'a list) \<Rightarrow> server \<Rightarrow> server \<times> int gores" where
  "db_count eng P tab = db_op eng (\<lambda>st. (st, Inr (int (length (filter P (tab st))))))"

definition GetStats :: "engine \<Rightarrow> server \<Rightarrow> server \<times> stats_row gores" where
  "GetStats eng st =
     (let today = todayStart (sv_now st); week = weekStart (sv_now st) in
      next_op (db_count eng (\<lambda>_. True) t_sessions st) (\<lambda>total st.
      next_op (db_count eng (\<lambda>r. today \<le> s_started_at r) t_sessions st) (\<lambda>n_today st.
      next_op (db_count eng (\<lambda>r. week \<le> s_started_at r) t_sessions st) (\<lambda>n_week st.
      next_op (db_count eng (\<lambda>f. \<not> f_resolved f) t_failed st) (\<lambda>n_failed st.
      next_op (db_op eng (\<lambda>st. (st, Inr (order_names eng (s_service_name ` set (t_sessions st))))) st) (\<lambda>names st.
      next_op (db_op eng (\<lambda>st. (st, Inr (take 5 (order_sessions eng (t_sessions st))))) st) (\<lambda>recent st.
        (st, Inr \<lparr>st_total_sessions = total, st_sessions_today = n_today, st_sessions_this_week = n_week,
            st_failed_ingest_count = n_failed, st_active_services = names,
            st_recent_sessions = recent\<rparr>))))))))"


section \<open>Failed batches\<close>

text \<open>A missing creation time is filled in.\<close>

definition repo_SaveFailed :: "engine \<Rightarrow> failed_row \<Rightarrow> server \<Rightarrow> server \<times> unit gores" where
  "repo_SaveFailed eng f = db_op eng (\<lambda>st.
     (st\<lparr>t_failed := t_failed st @ [if f_created_at f = 0 then f\<lparr>f_created_at := sv_now st\<rparr> else f]\<rparr>, Inr ()))"

definition repo_ListFailed :: "engine \<Rightarrow> bool \<Rightarrow> server \<Rightarrow> server \<times> failed_row list gores" where
  "repo_ListFailed eng onlyUnresolved = db_op eng (\<lambda>st.
     (st, Inr (order_failed eng (if onlyUnresolved then filter (\<lambda>f. \<not> f_resolved f) (t_failed st) else t_failed st))))"

definition GetFailed :: "engine \<Rightarrow> jsstr \<Rightarrow> server \<Rightarrow> server \<times> failed_row gores" where
  "GetFailed eng i = db_op eng (\<lambda>st.
     (st, case find (\<lambda>f. f_id f = i) (t_failed st) of None \<Rightarrow> Inl NotFound | Some f \<Rightarrow> Inr f))"

definition MarkFailedResolved :: "engine \<Rightarrow> jsstr \<Rightarrow> server \<Rightarrow> server \<times> unit gores" where
  "MarkFailedResolved eng i = db_op eng (\<lambda>st.
     (st\<lparr>t_failed := map (\<lambda>f. if f_id f = i then f\<lparr>f_resolved := True, f_resolved_at := Some (sv_now st)\<rparr> else f)
        (t_failed st)\<rparr>, Inr ()))"

end
