(* ===== verification/ServerService.thy ===== *)
theory ServerService
  imports ServerStore
begin

text \<open>
  The server's operations: reading a batch from JSON (\<open>internal/session/model.go\<close>,
  \<open>writer_handler.go\<close>), recognising the browser (\<open>useragent.go\<close>), storing and serving sessions
  (\<open>service.go\<close>), and the worker that takes batches from the queue
  (\<open>internal/worker/service.go\<close>). A queue message is the JSON value of the request. Keys of a
  JSON object are matched as they are written in the sources (Go would also take other capitalizations), and a
  body is one JSON value and nothing after it (Go would not look at what follows); \<open>JSON.stringify\<close> writes
  nothing else.
\<close>

section \<open>Requests\<close>

record IngestRequest =
  in_session_id :: jsstr
  in_bat_session_id :: jsstr
  in_identifier :: jsstr
  in_user_email :: jsstr
  in_user_name :: jsstr
  in_start_url :: jsstr
  in_environment :: jsstr
  in_service_name :: jsstr
  in_trigger :: jsstr
  in_share_token :: jsstr
  in_client :: "ClientMeta option"
  in_events :: "RawEvent list"

text \<open>
  \<open>encoding/json\<close>: a missing or \<open>null\<close> member leaves the zero value, one of another type is an
  error, numbers for integers have to fit, and a surrogate on its own becomes the replacement
  character. \<open>json.RawMessage\<close> keeps what it is given.
\<close>

fun go_str :: "jsval \<Rightarrow> jsstr gores" where
  "go_str (JStr s) = Inr (go_text s)"
| "go_str JNull = Inr []"
| "go_str JUndef = Inr []"
| "go_str _ = Inl Unmarshal"

fun go_int :: "jsval \<Rightarrow> int gores" where
  "go_int (JNum (JInt n)) = (if - (2 ^ 63) \<le> n \<and> n < 2 ^ 63 then Inr n else Inl Unmarshal)"
| "go_int JNull = Inr 0"
| "go_int JUndef = Inr 0"
| "go_int _ = Inl Unmarshal"

fun go_float :: "jsval \<Rightarrow> jsnum gores" where
  "go_float (JNum x) = Inr x"
| "go_float JNull = Inr (JInt 0)"
| "go_float JUndef = Inr (JInt 0)"
| "go_float _ = Inl Unmarshal"

definition bindG :: "'a gores \<Rightarrow> ('a \<Rightarrow> 'b gores) \<Rightarrow> 'b gores" where
  "bindG r f = (case r of Inl e \<Rightarrow> Inl e | Inr x \<Rightarrow> f x)"

lemma bindG_simps [simp]: "bindG (Inl e) f = Inl e" "bindG (Inr x) f = f x"
  by (simp_all add: bindG_def)

definition member :: "(jsstr \<times> jsval) list \<Rightarrow> string \<Rightarrow> jsval" where
  "member kvs k = (case map_of kvs (js k) of None \<Rightarrow> JUndef | Some v \<Rightarrow> v)"

fun mapG :: "('a \<Rightarrow> 'b gores) \<Rightarrow> 'a list \<Rightarrow> 'b list gores" where
  "mapG f [] = Inr []"
| "mapG f (x # xs) = bindG (f x) (\<lambda>y. bindG (mapG f xs) (\<lambda>ys. Inr (y # ys)))"

fun unmarshal_event :: "jsval \<Rightarrow> RawEvent gores" where
  "unmarshal_event (JObj kvs) =
     bindG (go_int (member kvs ''type'')) (\<lambda>ty.
     bindG (go_int (member kvs ''timestamp'')) (\<lambda>ts.
       Inr \<lparr>ev_type = ty, ev_data = member kvs ''data'', ev_timestamp = ts\<rparr>))"
| "unmarshal_event JNull = Inr \<lparr>ev_type = 0, ev_data = JUndef, ev_timestamp = 0\<rparr>"
| "unmarshal_event _ = Inl Unmarshal"

fun unmarshal_client :: "jsval \<Rightarrow> ClientMeta option gores" where
  "unmarshal_client (JObj kvs) =
     bindG (go_int (member kvs ''screen_width'')) (\<lambda>sw.
     bindG (go_int (member kvs ''screen_height'')) (\<lambda>sh.
     bindG (go_int (member kvs ''viewport_width'')) (\<lambda>vw.
     bindG (go_int (member kvs ''viewport_height'')) (\<lambda>vh.
     bindG (go_float (member kvs ''device_pixel_ratio'')) (\<lambda>dpr.
     bindG (go_str (member kvs ''language'')) (\<lambda>lang.
     bindG (go_str (member kvs ''timezone'')) (\<lambda>tz.
     bindG (go_str (member kvs ''user_agent'')) (\<lambda>ua.
       Inr (Some \<lparr>screen_width = sw, screen_height = sh, viewport_width = vw, viewport_height = vh,
          device_pixel_ratio = dpr, cm_language = lang, cm_timezone = tz, user_agent = ua\<rparr>)))))))))"
| "unmarshal_client JNull = Inr None"
| "unmarshal_client JUndef = Inr None"
| "unmarshal_client _ = Inl Unmarshal"

fun unmarshal_events :: "jsval \<Rightarrow> RawEvent list gores" where
  "unmarshal_events (JArr vs) = mapG unmarshal_event vs"
| "unmarshal_events JNull = Inr []"
| "unmarshal_events JUndef = Inr []"
| "unmarshal_events _ = Inl Unmarshal"

definition zero_request :: IngestRequest where
  "zero_request = \<lparr>in_session_id = [], in_bat_session_id = [], in_identifier = [], in_user_email = [],
     in_user_name = [], in_start_url = [], in_environment = [], in_service_name = [], in_trigger = [],
     in_share_token = [], in_client = None, in_events = []\<rparr>"

fun unmarshal_request :: "jsval \<Rightarrow> IngestRequest gores" where
  "unmarshal_request (JObj kvs) =
     bindG (go_str (member kvs ''session_id'')) (\<lambda>sid.
     bindG (go_str (member kvs ''bat_session_id'')) (\<lambda>bat.
     bindG (go_str (member kvs ''identifier'')) (\<lambda>ident.
     bindG (go_str (member kvs ''user_email'')) (\<lambda>email.
     bindG (go_str (member kvs ''user_name'')) (\<lambda>name.
     bindG (go_str (member kvs ''start_url'')) (\<lambda>url.
     bindG (go_str (member kvs ''environment'')) (\<lambda>env.
     bindG (go_str (member kvs ''service_name'')) (\<lambda>svc.
     bindG (go_str (member kvs ''trigger'')) (\<lambda>trig.
     bindG (go_str (member kvs ''share_token'')) (\<lambda>tok.
     bindG (unmarshal_client (member kvs ''client'')) (\<lambda>cl.
     bindG (unmarshal_events (member kvs ''events'')) (\<lambda>evs.
       Inr \<lparr>in_session_id = sid, in_bat_session_id = bat, in_identifier = ident, in_user_email = email,
          in_user_name = name, in_start_url = url, in_environment = env, in_service_name = svc,
          in_trigger = trig, in_share_token = tok, in_client = cl, in_events = evs\<rparr>))))))))))))"
| "unmarshal_request JNull = Inr zero_request"
| "unmarshal_request _ = Inl Unmarshal"

text \<open>\<open>json.Marshal(req)\<close>; an event without data has \<open>null\<close> there.\<close>

definition marshal_request :: "IngestRequest \<Rightarrow> jsval" where
  "marshal_request r = JObj
     [(js ''session_id'', JStr (in_session_id r)), (js ''bat_session_id'', JStr (in_bat_session_id r)),
      (js ''identifier'', JStr (in_identifier r)), (js ''user_email'', JStr (in_user_email r)),
      (js ''user_name'', JStr (in_user_name r)), (js ''start_url'', JStr (in_start_url r)),
      (js ''environment'', JStr (in_environment r)), (js ''service_name'', JStr (in_service_name r)),
      (js ''trigger'', JStr (in_trigger r)), (js ''share_token'', JStr (in_share_token r)),
      (js ''client'', case in_client r of None \<Rightarrow> JNull | Some m \<Rightarrow> client_json m),
      (js ''events'', JArr (map (\<lambda>e. event_json (if ev_data e = JUndef then e\<lparr>ev_data := JNull\<rparr> else e))
         (in_events r)))]"


section \<open>Device metadata\<close>

definition maxDimension :: int where "maxDimension = 16384"
definition maxDPR :: int where "maxDPR = 8"
definition maxUALen :: nat where "maxUALen = 512"
definition maxLangLen :: nat where "maxLangLen = 35"
definition maxTZLen :: nat where "maxTZLen = 64"

definition clampInt :: "int \<Rightarrow> int \<Rightarrow> int \<Rightarrow> int" where
  "clampInt v lo hi = (if v < lo then lo else if hi < v then hi else v)"

definition num_below :: "jsnum \<Rightarrow> int \<Rightarrow> bool" where
  "num_below x n \<longleftrightarrow> (case num_frac x of (a, b) \<Rightarrow> a < n * b)"

definition num_above :: "jsnum \<Rightarrow> int \<Rightarrow> bool" where
  "num_above x n \<longleftrightarrow> (case num_frac x of (a, b) \<Rightarrow> n * b < a)"

definition clampFloat :: "jsnum \<Rightarrow> int \<Rightarrow> int \<Rightarrow> jsnum" where
  "clampFloat v lo hi = (if num_below v lo then JInt lo else if num_above v hi then JInt hi else v)"

definition truncate :: "gobytes \<Rightarrow> nat \<Rightarrow> gobytes" where
  "truncate s n = (if length s \<le> n then s else take n s)"

definition Sanitized :: "ClientMeta \<Rightarrow> client_row" where
  "Sanitized c =
     \<lparr>c_screen_width = clampInt (screen_width c) 0 maxDimension,
      c_screen_height = clampInt (screen_height c) 0 maxDimension,
      c_viewport_width = clampInt (viewport_width c) 0 maxDimension,
      c_viewport_height = clampInt (viewport_height c) 0 maxDimension,
      c_device_pixel_ratio = clampFloat (device_pixel_ratio c) 0 maxDPR,
      c_language = truncate (utf8 (cm_language c)) maxLangLen,
      c_timezone = truncate (utf8 (cm_timezone c)) maxTZLen,
      c_user_agent = truncate (utf8 (user_agent c)) maxUALen\<rparr>"

text \<open>What follows the first occurrence of a marker.\<close>

fun after_marker :: "gobytes \<Rightarrow> jsstr \<Rightarrow> gobytes option" where
  "after_marker [] m = (if m = [] then Some [] else None)"
| "after_marker (c # cs) m =
     (if startsWith (c # cs) m then Some (drop (length m) (c # cs)) else after_marker cs m)"

fun tokenVersion :: "gobytes \<Rightarrow> jsstr list \<Rightarrow> gobytes" where
  "tokenVersion ua [] = []"
| "tokenVersion ua (m # ms) =
     (case after_marker ua m of
        None \<Rightarrow> tokenVersion ua ms
      | Some rest \<Rightarrow> takeWhile (\<lambda>c. c \<notin> set (js '' ;)'')) rest)"

definition detectBrowser :: "gobytes \<Rightarrow> jsstr \<times> gobytes" where
  "detectBrowser ua =
     (let has = (\<lambda>m. includes_str ua (js m)) in
      if has ''Edg/'' \<or> has ''Edge/'' \<or> has ''EdgiOS/''
      then (js ''Edge'', tokenVersion ua [js ''Edg/'', js ''Edge/'', js ''EdgiOS/''])
      else if has ''OPR/'' \<or> has ''Opera/''
      then (js ''Opera'', tokenVersion ua [js ''OPR/'', js ''Opera/''])
      else if has ''SamsungBrowser/''
      then (js ''Samsung Internet'', tokenVersion ua [js ''SamsungBrowser/''])
      else if has ''Firefox/'' \<or> has ''FxiOS/''
      then (js ''Firefox'', tokenVersion ua [js ''Firefox/'', js ''FxiOS/''])
      else if has ''CriOS/''
      then (js ''Chrome'', tokenVersion ua [js ''CriOS/''])
      else if has ''Chrome/'' \<or> has ''Chromium/''
      then (js ''Chrome'', tokenVersion ua [js ''Chrome/'', js ''Chromium/''])
      else if has ''Safari/'' \<and> has ''Version/''
      then (js ''Safari'', tokenVersion ua [js ''Version/''])
      else ([], []))"

definition detectOS :: "gobytes \<Rightarrow> jsstr" where
  "detectOS ua =
     (let has = (\<lambda>m. includes_str ua (js m)) in
      if has ''Windows NT'' then js ''Windows''
      else if has ''iPhone'' \<or> has ''iPad'' \<or> has ''iPod'' then js ''iOS''
      else if has ''Mac OS X'' \<or> has ''Macintosh'' then js ''macOS''
      else if has ''Android'' then js ''Android''
      else if has ''CrOS'' then js ''ChromeOS''
      else if has ''Linux'' then js ''Linux''
      else [])"

definition detectDeviceType :: "gobytes \<Rightarrow> jsstr" where
  "detectDeviceType ua =
     (let has = (\<lambda>m. includes_str ua (js m)) in
      if has ''iPad'' \<or> has ''Tablet'' then js ''tablet''
      else if has ''Mobi'' \<or> has ''iPhone'' \<or> has ''Android''
      then (if has ''Android'' \<and> \<not> has ''Mobi'' then js ''tablet'' else js ''mobile'')
      else js ''desktop'')"

definition parseUserAgent :: "gobytes \<Rightarrow> jsstr \<times> gobytes \<times> jsstr \<times> jsstr" where
  "parseUserAgent ua =
     (if ua = [] then ([], [], [], [])
      else (case detectBrowser ua of (browser, version) \<Rightarrow>
              (browser, version, detectOS ua, detectDeviceType ua)))"


section \<open>Storing a batch\<close>

definition defaultStr :: "jsstr \<Rightarrow> jsstr \<Rightarrow> jsstr" where
  "defaultStr s fallback = (if s = [] then fallback else s)"

definition session_of :: "IngestRequest \<Rightarrow> int \<Rightarrow> session_row" where
  "session_of req now = blank_session\<lparr>s_id := in_session_id req, s_bat_session_id := in_bat_session_id req,
     s_identifier := in_identifier req, s_user_email := in_user_email req, s_user_name := in_user_name req,
     s_start_url := in_start_url req, s_environment := defaultStr (in_environment req) (js ''production''),
     s_service_name := in_service_name req, s_trigger := defaultStr (in_trigger req) (js ''manual''),
     s_started_at := now, s_created_at := now\<rparr>"

definition new_events :: "engine \<Rightarrow> nat \<Rightarrow> int \<Rightarrow> IngestRequest \<Rightarrow> event_row list" where
  "new_events eng n now req =
     map (\<lambda>(i, e). \<lparr>e_id = new_uuid eng (n + i), e_session_id = in_session_id req, e_seq = int i,
            e_type = ev_type e, e_data = ev_data e, e_timestamp = ev_timestamp e, e_created_at = now\<rparr>)
       (enumerate 0 (in_events req))"

definition Ingest :: "engine \<Rightarrow> IngestRequest \<Rightarrow> server \<Rightarrow> server \<times> unit gores" where
  "Ingest eng req st =
     (let now = sv_now st; sid = in_session_id req in
      next_op (wrap_err ''upsert session'' (UpsertSession eng (session_of req now) st)) (\<lambda>_ st.
      next_op (if in_share_token req \<noteq> []
               then wrap_err ''set share token'' (SetShareToken eng sid (in_share_token req) st)
               else (st, Inr ())) (\<lambda>_ st.
      next_op (case in_client req of
                 None \<Rightarrow> (st, Inr ())
               | Some c \<Rightarrow> (let meta = Sanitized c
                   in wrap_err ''set client metadata''
                        (SetClientMetadata eng sid meta (parseUserAgent (c_user_agent meta)) st))) (\<lambda>_ st.
      let es = new_events eng (sv_uuids st) now req;
          st = st\<lparr>sv_uuids := sv_uuids st + length es\<rparr>
      in next_op (wrap_err ''insert events'' (InsertEvents eng es st)) (\<lambda>_ st.
           IncrementEventCount eng sid (int (length es)) st)))))"

text \<open>Go divides integers towards zero.\<close>

definition go_div :: "int \<Rightarrow> int \<Rightarrow> int" where
  "go_div a b = sgn a * sgn b * (\<bar>a\<bar> div \<bar>b\<bar>)"

definition FinalizeSession :: "engine \<Rightarrow> jsstr \<Rightarrow> server \<Rightarrow> server \<times> unit gores" where
  "FinalizeSession eng i st =
     next_op (GetByID eng i st) (\<lambda>sess st.
       let now = sv_now st
       in UpdateSessionEnd eng (sess\<lparr>s_ended_at := Some now,
            s_duration_ms := Some (go_div (now - s_started_at sess) 1000000)\<rparr>) st)"

definition PurgeOlderThan :: "engine \<Rightarrow> int \<Rightarrow> server \<Rightarrow> server \<times> int gores" where
  "PurgeOlderThan eng retention st =
     (if retention \<le> 0 then (st, Inr 0) else repo_PurgeOlderThan eng (sv_now st - retention) st)"


section \<open>Sharing\<close>

definition rrwebPluginType :: int where "rrwebPluginType = 6"

definition CreateShareToken :: "engine \<Rightarrow> jsstr \<Rightarrow> server \<Rightarrow> server \<times> jsstr gores" where
  "CreateShareToken eng i st =
     next_op (wrap_err ''session not found'' (GetByID eng i st)) (\<lambda>sess st.
       if s_share_token sess \<noteq> None \<and> s_share_token sess \<noteq> Some []
       then (st, Inr (the (s_share_token sess)))
       else (let token = new_uuid eng (sv_uuids st); st = st\<lparr>sv_uuids := Suc (sv_uuids st)\<rparr>
             in next_op (wrap_err ''set share token'' (SetShareToken eng i token st)) (\<lambda>_ st. (st, Inr token))))"

record public_row =
  p_id :: jsstr
  p_service_name :: jsstr
  p_environment :: jsstr
  p_started_at :: int
  p_duration_ms :: "int option"
  p_event_count :: int

definition ToPublic :: "session_row \<Rightarrow> public_row" where
  "ToPublic s = \<lparr>p_id = s_id s, p_service_name = s_service_name s, p_environment = s_environment s,
     p_started_at = s_started_at s, p_duration_ms = s_duration_ms s, p_event_count = s_event_count s\<rparr>"

definition GetPublicSession :: "engine \<Rightarrow> jsstr \<Rightarrow> server \<Rightarrow> server \<times> public_row gores" where
  "GetPublicSession eng token st =
     next_op (GetByShareToken eng token st) (\<lambda>sess st. (st, Inr (ToPublic sess)))"

definition GetPublicEvents :: "engine \<Rightarrow> jsstr \<Rightarrow> server \<Rightarrow> server \<times> event_row list gores" where
  "GetPublicEvents eng token st =
     next_op (GetByShareToken eng token st) (\<lambda>sess st.
     next_op (GetEvents eng (s_id sess) st) (\<lambda>es st.
       (st, Inr (filter (\<lambda>e. e_type e \<noteq> rrwebPluginType) es))))"


section \<open>Failed batches\<close>

definition RetryFailed :: "engine \<Rightarrow> jsstr \<Rightarrow> server \<Rightarrow> server \<times> unit gores" where
  "RetryFailed eng i st =
     next_op (wrap_err ''failed ingest not found'' (GetFailed eng i st)) (\<lambda>f st.
     next_op (wrap_err ''invalid payload'' (st, unmarshal_request (f_payload f))) (\<lambda>req st.
     next_op (wrap_err ''retry failed'' (Ingest eng req st)) (\<lambda>_ st.
       MarkFailedResolved eng i st)))"

fun retry_each :: "engine \<Rightarrow> failed_row list \<Rightarrow> int \<Rightarrow> server \<Rightarrow> server \<times> int" where
  "retry_each eng [] n st = (st, n)"
| "retry_each eng (f # fs) n st =
     (case RetryFailed eng (f_id f) st of
        (st1, Inr _) \<Rightarrow> retry_each eng fs (n + 1) st1
      | (st1, Inl _) \<Rightarrow> retry_each eng fs n st1)"

definition RetryAllFailed :: "engine \<Rightarrow> server \<Rightarrow> server \<times> int gores" where
  "RetryAllFailed eng st =
     next_op (repo_ListFailed eng True st) (\<lambda>items st.
       case retry_each eng items 0 st of (st1, n) \<Rightarrow> (st1, Inr n))"


section \<open>The queue and the worker\<close>

definition Enqueue :: "engine \<Rightarrow> IngestRequest \<Rightarrow> server \<Rightarrow> server \<times> bool" where
  "Enqueue eng req st =
     (let n = sv_messages st; st1 = st\<lparr>sv_messages := Suc n\<rparr>
      in if enqueue_fails eng n then (st1, False)
         else (st1\<lparr>sv_queue := sv_queue st @ [(n, marshal_request req)]\<rparr>, True))"

definition Ack :: "engine \<Rightarrow> nat \<Rightarrow> server \<Rightarrow> server" where
  "Ack eng mid st =
     (if ack_fails eng mid then st else st\<lparr>sv_pending := filter (\<lambda>m. fst m \<noteq> mid) (sv_pending st)\<rparr>)"

text \<open>The binding tags of the request, and the handler of \<open>POST /v1/record\<close>: the status it answers with.\<close>

definition binding_ok :: "IngestRequest \<Rightarrow> bool" where
  "binding_ok req \<longleftrightarrow> in_session_id req \<noteq> [] \<and> in_identifier req \<noteq> [] \<and> in_service_name req \<noteq> []
     \<and> in_events req \<noteq> []"

definition writer_Ingest :: "engine \<Rightarrow> jsstr \<Rightarrow> server \<Rightarrow> server \<times> int" where
  "writer_Ingest eng body st =
     (case json_parse body of
        Inl _ \<Rightarrow> (st, 400)
      | Inr v \<Rightarrow>
          (case unmarshal_request v of
             Inl _ \<Rightarrow> (st, 400)
           | Inr req \<Rightarrow>
               if \<not> binding_ok req then (st, 400)
               else if \<not> uuid_parses eng (in_session_id req) then (st, 400)
               else (case Enqueue eng req st of
                       (st1, False) \<Rightarrow> (st1, 500)
                     | (st1, True) \<Rightarrow> (st1, 204))))"

definition saveFailed :: "engine \<Rightarrow> IngestRequest \<Rightarrow> go_error \<Rightarrow> int \<Rightarrow> server \<Rightarrow> server" where
  "saveFailed eng req err retries st =
     fst (repo_SaveFailed eng
       \<lparr>f_id = new_uuid eng (sv_uuids st), f_session_id = in_session_id req, f_payload = marshal_request req,
        f_error = err, f_retry_count = retries, f_resolved = False, f_created_at = 0, f_resolved_at = None\<rparr>
       (st\<lparr>sv_uuids := Suc (sv_uuids st)\<rparr>))"

definition delays :: "int list" where
  "delays = [0, 2 * SECOND_NS, 8 * SECOND_NS, 32 * SECOND_NS]"

fun process_from :: "engine \<Rightarrow> nat \<Rightarrow> IngestRequest \<Rightarrow> int \<Rightarrow> int list \<Rightarrow> server \<Rightarrow> server" where
  "process_from eng mid req attempt [] st = st"
| "process_from eng mid req attempt (delay # ds) st =
     (case Ingest eng req (st\<lparr>sv_now := sv_now st + delay\<rparr>) of
        (st1, Inr _) \<Rightarrow> Ack eng mid st1
      | (st1, Inl err) \<Rightarrow>
          if ds = [] then Ack eng mid (saveFailed eng req err (attempt + 1) st1)
          else process_from eng mid req (attempt + 1) ds st1)"

definition process :: "engine \<Rightarrow> nat \<Rightarrow> IngestRequest \<Rightarrow> server \<Rightarrow> server" where
  "process eng mid req st = process_from eng mid req 0 delays st"

text \<open>What a worker does with a message, and one round of its loop.\<close>

definition handle_message :: "engine \<Rightarrow> nat \<times> jsval \<Rightarrow> server \<Rightarrow> server" where
  "handle_message eng m st =
     (case unmarshal_request (snd m) of
        Inl _ \<Rightarrow> Ack eng (fst m) st
      | Inr req \<Rightarrow> process eng (fst m) req st)"

definition runWorker :: "engine \<Rightarrow> server \<Rightarrow> server" where
  "runWorker eng st =
     (case sv_queue st of
        [] \<Rightarrow> st
      | m # rest \<Rightarrow> handle_message eng m (st\<lparr>sv_queue := rest, sv_pending := sv_pending st @ [m]\<rparr>))"

text \<open>At startup, at most a hundred messages that were read and not acknowledged.\<close>

definition reclaimPending :: "engine \<Rightarrow> server \<Rightarrow> server" where
  "reclaimPending eng st = fold (handle_message eng) (take 100 (sv_pending st)) st"

end
