(* ===== verification/ServerProps.thy ===== *)
theory ServerProps
  imports ServerService SdkSession
begin

text \<open>
  The tables of the server: the invariant every operation keeps, whatever the database does, and
  what storing the first and a later batch of a session does to them.
\<close>

section \<open>Operations that do not fail\<close>

definition healthy :: "engine \<Rightarrow> bool" where
  "healthy eng \<longleftrightarrow> (\<forall>n. \<not> db_fault eng n)"

lemma db_op_healthy: "healthy eng \<Longrightarrow> db_op eng f st = f (st\<lparr>sv_ops := Suc (sv_ops st)\<rparr>)"
  by (simp add: db_op_def healthy_def)

lemma db_op_cases:
  obtains "db_fault eng (sv_ops st)" "db_op eng f st = (st\<lparr>sv_ops := Suc (sv_ops st)\<rparr>, Inl DbError)"
  | "\<not> db_fault eng (sv_ops st)" "db_op eng f st = f (st\<lparr>sv_ops := Suc (sv_ops st)\<rparr>)"
  by (cases "db_fault eng (sv_ops st)") (auto simp: db_op_def)


section \<open>Rows of the session table\<close>

definition row_of :: "jsstr \<Rightarrow> server \<Rightarrow> session_row option" where
  "row_of i st = find (\<lambda>r. s_id r = i) (t_sessions st)"

lemma omitOnUpsert_keeps [simp]:
  "s_id (omitOnUpsert old s) = s_id s" "s_event_count (omitOnUpsert old s) = s_event_count s"
  "s_started_at (omitOnUpsert old s) = s_started_at s" "s_share_token (omitOnUpsert old s) = s_share_token old"
  "s_identifier (omitOnUpsert old s) = s_identifier s" "s_environment (omitOnUpsert old s) = s_environment s"
  "s_service_name (omitOnUpsert old s) = s_service_name s" "s_trigger (omitOnUpsert old s) = s_trigger s"
  "s_duration_ms (omitOnUpsert old s) = s_duration_ms s"
  by (simp_all add: omitOnUpsert_def)

lemma session_of_fields [simp]:
  "s_id (session_of req now) = in_session_id req" "s_event_count (session_of req now) = 0"
  "s_started_at (session_of req now) = now" "s_identifier (session_of req now) = in_identifier req"
  "s_service_name (session_of req now) = in_service_name req" "s_duration_ms (session_of req now) = None"
  by (simp_all add: session_of_def blank_session_def)

lemma where_session_ids [simp]:
  "(\<And>r. s_id r = i \<Longrightarrow> s_id (f r) = i) \<Longrightarrow> map s_id (where_session i f rows) = map s_id rows"
  by (auto simp: where_session_def)

lemma where_session_id_set:
  assumes "\<And>r. s_id r = i \<Longrightarrow> s_id (f r) = i"
  shows "s_id ` set (where_session i f rows) = s_id ` set rows"
proof -
  have "set (map s_id (where_session i f rows)) = set (map s_id rows)"
    by (simp only: where_session_ids [OF assms])
  then show ?thesis by simp
qed

lemma find_where_session:
  assumes "\<And>r. s_id r = i \<Longrightarrow> s_id (f r) = i"
  shows "find (\<lambda>r. s_id r = j) (where_session i f rows)
    = map_option (\<lambda>r. if s_id r = i then f r else r) (find (\<lambda>r. s_id r = j) rows)"
  using assms by (induction rows) (auto simp: where_session_def)

lemma find_None: "find (\<lambda>r. s_id r = i) rows = None \<longleftrightarrow> i \<notin> s_id ` set rows"
  by (auto simp: find_None_iff)

lemma find_Some_id: "find (\<lambda>r. s_id r = i) rows = Some r \<Longrightarrow> s_id r = i \<and> r \<in> set rows"
  by (auto simp: find_Some_iff)

lemma row_of_unique:
  "distinct (map s_id (t_sessions st)) \<Longrightarrow> r \<in> set (t_sessions st) \<Longrightarrow> row_of (s_id r) st = Some r"
  unfolding row_of_def
proof (induction "t_sessions st" arbitrary: st)
  case (Cons x xs)
  have "find (\<lambda>y. s_id y = s_id r) xs = Some r" if "r \<in> set xs"
    using Cons.hyps(1) [of "st\<lparr>t_sessions := xs\<rparr>"] Cons.prems that Cons.hyps(2) [symmetric] by simp
  moreover have "s_id x \<noteq> s_id r" if "r \<in> set xs"
    using Cons.prems(1) that Cons.hyps(2) [symmetric] by force
  ultimately show ?case using Cons.prems(2) Cons.hyps(2) [symmetric] by auto
qed simp


section \<open>Consistency of the tables\<close>

definition tokens_unique :: "session_row list \<Rightarrow> bool" where
  "tokens_unique rows \<longleftrightarrow> (\<forall>r\<in>set rows. \<forall>r'\<in>set rows. \<forall>t.
     s_share_token r = Some t \<longrightarrow> s_share_token r' = Some t \<longrightarrow> s_id r = s_id r')"

definition store_inv :: "server \<Rightarrow> bool" where
  "store_inv st \<longleftrightarrow> distinct (map s_id (t_sessions st)) \<and> tokens_unique (t_sessions st)
     \<and> (\<forall>e\<in>set (t_events st). e_session_id e \<in> s_id ` set (t_sessions st))"

lemma tokens_uniqueD:
  "tokens_unique rows \<Longrightarrow> r \<in> set rows \<Longrightarrow> r' \<in> set rows \<Longrightarrow> s_share_token r = Some t
     \<Longrightarrow> s_share_token r' = Some t \<Longrightarrow> s_id r = s_id r'"
  unfolding tokens_unique_def by blast

lemma tokens_unique_snoc:
  assumes "tokens_unique rows" and "s_share_token x = None"
  shows "tokens_unique (rows @ [x])"
  unfolding tokens_unique_def
proof (intro ballI allI impI)
  fix r r' t
  assume "r \<in> set (rows @ [x])" "r' \<in> set (rows @ [x])" and t: "s_share_token r = Some t" "s_share_token r' = Some t"
  then have "r \<in> set rows" "r' \<in> set rows" using assms(2) by auto
  then show "s_id r = s_id r'" using tokens_uniqueD [OF assms(1)] t by blast
qed

lemma tokens_unique_like:
  assumes "tokens_unique rows"
    and "\<And>r. r \<in> set rows' \<Longrightarrow> \<exists>q\<in>set rows. s_id q = s_id r \<and> s_share_token q = s_share_token r"
  shows "tokens_unique rows'"
  unfolding tokens_unique_def
proof (intro ballI allI impI)
  fix r r' t
  assume r: "r \<in> set rows'" "r' \<in> set rows'" and t: "s_share_token r = Some t" "s_share_token r' = Some t"
  obtain q where q: "q \<in> set rows" "s_id q = s_id r" "s_share_token q = s_share_token r"
    using assms(2) [OF r(1)] by blast
  obtain q' where q': "q' \<in> set rows" "s_id q' = s_id r'" "s_share_token q' = s_share_token r'"
    using assms(2) [OF r(2)] by blast
  show "s_id r = s_id r'"
    using tokens_uniqueD [OF assms(1) q(1) q'(1), of t] q q' t by simp
qed

lemma tokens_unique_set:
  assumes "tokens_unique rows" and "\<forall>r\<in>set rows. s_id r \<noteq> i \<longrightarrow> s_share_token r \<noteq> Some t"
  shows "tokens_unique (where_session i (\<lambda>r. r\<lparr>s_share_token := Some t\<rparr>) rows)"
  unfolding tokens_unique_def
proof (intro ballI allI impI)
  fix r r' x
  let ?rows = "where_session i (\<lambda>r. r\<lparr>s_share_token := Some t\<rparr>) rows"
  assume r: "r \<in> set ?rows" "r' \<in> set ?rows" and t: "s_share_token r = Some x" "s_share_token r' = Some x"
  have row: "if s_id q = i then s_share_token q = Some t else q \<in> set rows" if "q \<in> set ?rows" for q
    using that by (fastforce simp: where_session_def)
  have other: "q \<in> set rows \<and> s_share_token q \<noteq> Some t" if "q \<in> set ?rows" "s_id q \<noteq> i" for q
    using row [OF that(1)] that(2) assms(2) by simp
  have own: "s_share_token q = Some t" if "q \<in> set ?rows" "s_id q = i" for q
    using row [OF that(1)] that(2) by simp
  show "s_id r = s_id r'"
  proof (cases "s_id r = i \<or> s_id r' = i")
    case True
    then have "x = t" using own [OF r(1)] own [OF r(2)] t by auto
    then show ?thesis using other [OF r(1)] other [OF r(2)] t by metis
  next
    case False
    then show ?thesis using tokens_uniqueD [OF assms(1)] other [OF r(1)] other [OF r(2)] t by blast
  qed
qed

lemma store_inv_cong:
  "t_sessions st' = t_sessions st \<Longrightarrow> t_events st' = t_events st \<Longrightarrow> store_inv st' = store_inv st"
  by (simp add: store_inv_def)

lemma store_inv_update [simp]:
  "store_inv (st\<lparr>sv_ops := n\<rparr>) = store_inv st" "store_inv (st\<lparr>sv_uuids := n\<rparr>) = store_inv st"
  "store_inv (st\<lparr>sv_now := t\<rparr>) = store_inv st" "store_inv (st\<lparr>t_failed := fs\<rparr>) = store_inv st"
  "store_inv (st\<lparr>sv_queue := q\<rparr>) = store_inv st" "store_inv (st\<lparr>sv_pending := q\<rparr>) = store_inv st"
  "store_inv (st\<lparr>sv_messages := n\<rparr>) = store_inv st"
  by (simp_all add: store_inv_def)

text \<open>An update of one session that keeps its identifier and its token.\<close>

lemma store_inv_where:
  assumes "store_inv st"
    and "\<And>r. s_id r = i \<Longrightarrow> s_id (f r) = i \<and> s_share_token (f r) = s_share_token r"
  shows "store_inv (st\<lparr>t_sessions := where_session i f (t_sessions st)\<rparr>)"
proof -
  have ids: "map s_id (where_session i f (t_sessions st)) = map s_id (t_sessions st)"
    "s_id ` set (where_session i f (t_sessions st)) = s_id ` set (t_sessions st)"
    using assms(2) by (simp_all add: where_session_id_set)
  have "tokens_unique (where_session i f (t_sessions st))"
  proof (rule tokens_unique_like)
    show "tokens_unique (t_sessions st)" using assms(1) by (simp add: store_inv_def)
    fix r
    assume "r \<in> set (where_session i f (t_sessions st))"
    then show "\<exists>q\<in>set (t_sessions st). s_id q = s_id r \<and> s_share_token q = s_share_token r"
      using assms(2) by (auto simp: where_session_def)
  qed
  with assms(1) ids show ?thesis by (simp add: store_inv_def)
qed

lemma store_inv_db_op:
  assumes "store_inv st" and "\<And>st. store_inv st \<Longrightarrow> store_inv (fst (f st))"
  shows "store_inv (fst (db_op eng f st))"
  using assms by (cases rule: db_op_cases [of eng st f]) simp_all

lemma store_inv_next_op:
  assumes "store_inv (fst p)" and "\<And>x st. store_inv st \<Longrightarrow> store_inv (fst (f x st))"
  shows "store_inv (fst (next_op p f))"
  using assms by (cases p; cases "snd p") simp_all

lemma fst_wrap_err [simp]: "fst (wrap_err w p) = fst p"
  by (cases p; cases "snd p") simp_all

lemma store_inv_Upsert: "store_inv st \<Longrightarrow> store_inv (fst (UpsertSession eng s st))"
  unfolding UpsertSession_def
proof (erule store_inv_db_op)
  fix st
  assume inv: "store_inv st"
  show "store_inv (fst (st\<lparr>t_sessions := if s_id s \<in> s_id ` set (t_sessions st)
      then where_session (s_id s) (\<lambda>old. omitOnUpsert old s) (t_sessions st)
      else t_sessions st @ [omitOnUpsert blank_session s]\<rparr>, Inr ()))"
  proof (cases "s_id s \<in> s_id ` set (t_sessions st)")
    case True
    then show ?thesis using store_inv_where [OF inv, of "s_id s" "\<lambda>old. omitOnUpsert old s"] by simp
  next
    case False
    have "s_share_token (omitOnUpsert blank_session s) = None" by (simp add: blank_session_def)
    then have "tokens_unique (t_sessions st @ [omitOnUpsert blank_session s])"
      using inv by (simp add: store_inv_def tokens_unique_snoc)
    with inv False show ?thesis by (auto simp: store_inv_def)
  qed
qed

lemma store_inv_SetShareToken: "store_inv st \<Longrightarrow> store_inv (fst (SetShareToken eng i t st))"
  unfolding SetShareToken_def
proof (erule store_inv_db_op)
  fix st
  assume inv: "store_inv st"
  let ?rows = "where_session i (\<lambda>r. r\<lparr>s_share_token := Some t\<rparr>) (t_sessions st)"
  show "store_inv (fst (if i \<in> s_id ` set (t_sessions st)
      \<and> (\<exists>r\<in>set (t_sessions st). s_id r \<noteq> i \<and> s_share_token r = Some t)
      then (st, Inl DbError) else (st\<lparr>t_sessions := ?rows\<rparr>, Inr ())))"
  proof (cases "i \<in> s_id ` set (t_sessions st)
      \<and> (\<exists>r\<in>set (t_sessions st). s_id r \<noteq> i \<and> s_share_token r = Some t)")
    case True
    with inv show ?thesis by simp
  next
    case False
    have ids: "map s_id ?rows = map s_id (t_sessions st)" "s_id ` set ?rows = s_id ` set (t_sessions st)"
      by (simp_all add: where_session_id_set)
    have "tokens_unique ?rows \<or> i \<notin> s_id ` set (t_sessions st)"
      using tokens_unique_set [of "t_sessions st" i t] inv False by (auto simp: store_inv_def)
    moreover have "?rows = t_sessions st" if "i \<notin> s_id ` set (t_sessions st)"
      using that by (auto simp: where_session_def intro!: map_idI)
    ultimately have "tokens_unique ?rows" using inv by (auto simp: store_inv_def)
    with inv ids False show ?thesis by (simp add: store_inv_def)
  qed
qed

lemma store_inv_SetClient: "store_inv st \<Longrightarrow> store_inv (fst (SetClientMetadata eng i m ua st))"
  unfolding SetClientMetadata_def
  by (erule store_inv_db_op) (auto simp: split_beta intro!: store_inv_where)

lemma store_inv_Increment: "store_inv st \<Longrightarrow> store_inv (fst (IncrementEventCount eng i n st))"
  unfolding IncrementEventCount_def by (erule store_inv_db_op) (auto intro!: store_inv_where)

lemma store_inv_End: "store_inv st \<Longrightarrow> store_inv (fst (UpdateSessionEnd eng s st))"
  unfolding UpdateSessionEnd_def by (erule store_inv_db_op) (auto intro!: store_inv_where)

lemma store_inv_Insert: "store_inv st \<Longrightarrow> store_inv (fst (InsertEvents eng es st))"
  unfolding InsertEvents_def by (erule store_inv_db_op) (auto simp: store_inv_def)

lemma store_inv_filter:
  "store_inv st \<Longrightarrow> store_inv (st\<lparr>t_events := filter (\<lambda>e. e_session_id e \<notin> A) (t_events st),
     t_sessions := filter (\<lambda>r. s_id r \<notin> A) (t_sessions st)\<rparr>)"
  using tokens_unique_like [of "t_sessions st" "filter (\<lambda>r. s_id r \<notin> A) (t_sessions st)"]
  by (auto simp: store_inv_def distinct_map_filter)

lemma store_inv_Delete: "store_inv st \<Longrightarrow> store_inv (fst (repo_DeleteSession eng i st))"
  unfolding repo_DeleteSession_def
  by (erule store_inv_db_op) (use store_inv_filter [of _ "{i}"] in simp)

lemma store_inv_Purge: "store_inv st \<Longrightarrow> store_inv (fst (PurgeOlderThan eng ret st))"
  unfolding PurgeOlderThan_def repo_PurgeOlderThan_def
  by (auto intro!: store_inv_next_op store_inv_db_op store_inv_filter)

lemma store_inv_reads [simp]:
  "store_inv (fst (GetByID eng i st)) = store_inv st"
  "store_inv (fst (GetByShareToken eng t st)) = store_inv st"
  "store_inv (fst (GetFailed eng i st)) = store_inv st"
  "store_inv (fst (repo_ListFailed eng b st)) = store_inv st"
  "store_inv (fst (repo_SaveFailed eng f st)) = store_inv st"
  "store_inv (fst (MarkFailedResolved eng i st)) = store_inv st"
  by (simp_all add: GetByID_def GetByShareToken_def GetFailed_def repo_ListFailed_def repo_SaveFailed_def
      MarkFailedResolved_def db_op_def Let_def)

lemma store_inv_Ingest: "store_inv st \<Longrightarrow> store_inv (fst (Ingest eng req st))"
  unfolding Ingest_def Let_def
  by (intro store_inv_next_op)
     (auto simp: store_inv_Upsert store_inv_SetShareToken store_inv_SetClient store_inv_Insert
       store_inv_Increment split: option.split)

lemma store_inv_Finalize: "store_inv st \<Longrightarrow> store_inv (fst (FinalizeSession eng i st))"
  unfolding FinalizeSession_def Let_def by (intro store_inv_next_op) (simp_all add: store_inv_End)

lemma store_inv_Share: "store_inv st \<Longrightarrow> store_inv (fst (CreateShareToken eng i st))"
  unfolding CreateShareToken_def Let_def
  by (intro store_inv_next_op) (auto intro!: store_inv_next_op simp: store_inv_SetShareToken)

lemma store_inv_Retry: "store_inv st \<Longrightarrow> store_inv (fst (RetryFailed eng i st))"
  unfolding RetryFailed_def by (intro store_inv_next_op) (simp_all add: store_inv_Ingest)

lemma store_inv_retry_each: "store_inv st \<Longrightarrow> store_inv (fst (retry_each eng fs n st))"
proof (induction fs arbitrary: n st)
  case (Cons f fs)
  then show ?case using store_inv_Retry [OF Cons.prems, of eng "f_id f"]
    by (auto split: prod.splits sum.splits)
qed simp

lemma store_inv_RetryAll: "store_inv st \<Longrightarrow> store_inv (fst (RetryAllFailed eng st))"
  unfolding RetryAllFailed_def
  by (intro store_inv_next_op) (auto simp: split_beta store_inv_retry_each)

lemma store_inv_Ack [simp]: "store_inv (Ack eng mid st) = store_inv st"
  by (simp add: Ack_def)

lemma store_inv_saveFailed [simp]: "store_inv (saveFailed eng req e n st) = store_inv st"
  by (simp add: saveFailed_def)

lemma store_inv_process_from: "store_inv st \<Longrightarrow> store_inv (process_from eng mid req n ds st)"
proof (induction ds arbitrary: n st)
  case (Cons d ds)
  obtain st1 r where i: "Ingest eng req (st\<lparr>sv_now := sv_now st + d\<rparr>) = (st1, r)" by fastforce
  have "store_inv st1" using store_inv_Ingest [of "st\<lparr>sv_now := sv_now st + d\<rparr>" eng req] Cons.prems i by simp
  with Cons.IH i show ?case by (cases r) simp_all
qed simp

lemma store_inv_handle: "store_inv st \<Longrightarrow> store_inv (handle_message eng m st)"
  by (simp add: handle_message_def process_def store_inv_process_from split: sum.split)

lemma store_inv_reclaim: "store_inv st \<Longrightarrow> store_inv (reclaimPending eng st)"
proof -
  have "store_inv st \<Longrightarrow> store_inv (fold (handle_message eng) ms st)" for ms st
    by (induction ms arbitrary: st) (simp_all add: store_inv_handle)
  then show "store_inv st \<Longrightarrow> store_inv (reclaimPending eng st)" by (simp add: reclaimPending_def)
qed

lemma store_inv_writer [simp]: "store_inv (fst (writer_Ingest eng body st)) = store_inv st"
  by (auto simp: writer_Ingest_def Enqueue_def Let_def split: sum.split)

text \<open>What the SDK, the dashboard, the workers and time do to the server.\<close>

datatype server_op =
    PostRecord jsstr
  | WorkerRound
  | WorkerStarts
  | ShareSession jsstr
  | EraseSession jsstr
  | EndSession jsstr
  | RetryBatch jsstr
  | RetryBatches
  | Purge int
  | TimePasses int

fun serve :: "engine \<Rightarrow> server_op \<Rightarrow> server \<Rightarrow> server" where
  "serve eng (PostRecord body) st = fst (writer_Ingest eng body st)"
| "serve eng WorkerRound st = runWorker eng st"
| "serve eng WorkerStarts st = reclaimPending eng st"
| "serve eng (ShareSession i) st = fst (CreateShareToken eng i st)"
| "serve eng (EraseSession i) st = fst (repo_DeleteSession eng i st)"
| "serve eng (EndSession i) st = fst (FinalizeSession eng i st)"
| "serve eng (RetryBatch i) st = fst (RetryFailed eng i st)"
| "serve eng RetryBatches st = fst (RetryAllFailed eng st)"
| "serve eng (Purge ret) st = fst (PurgeOlderThan eng ret st)"
| "serve eng (TimePasses d) st = st\<lparr>sv_now := sv_now st + d\<rparr>"

definition fresh_server :: "server \<Rightarrow> bool" where
  "fresh_server st \<longleftrightarrow> t_sessions st = [] \<and> t_events st = []"

inductive server_step :: "engine \<Rightarrow> server \<Rightarrow> server \<Rightarrow> bool" for eng where
  "server_step eng st (serve eng op st)"

inductive_cases server_stepE: "server_step eng st st'"

lemma serve_inv: "store_inv st \<Longrightarrow> store_inv (serve eng op st)"
  by (cases op) (simp_all add: runWorker_def store_inv_handle store_inv_reclaim store_inv_Share store_inv_Delete
      store_inv_Finalize store_inv_Retry store_inv_RetryAll store_inv_Purge split: list.split)

interpretation store: invariant_system fresh_server "server_step eng" store_inv for eng
proof unfold_locales
  fix st
  assume "fresh_server st"
  then show "store_inv st" by (simp add: fresh_server_def store_inv_def tokens_unique_def)
next
  fix st st'
  assume "store_inv st" and "server_step eng st st'"
  then show "store_inv st'" by (auto elim: server_stepE intro: serve_inv)
qed

lemma serve_steps: "(server_step eng)\<^sup>*\<^sup>* st (fold (serve eng) ops st)"
proof (induction ops arbitrary: st)
  case (Cons op ops)
  then show ?case
    by (auto intro: converse_rtranclp_into_rtranclp server_step.intros)
qed simp

lemma served_inv: "fresh_server st \<Longrightarrow> store_inv (fold (serve eng) ops st)"
  by (rule store.reachable_inv [OF _ serve_steps])


section \<open>A batch is stored\<close>

definition token_free :: "IngestRequest \<Rightarrow> server \<Rightarrow> bool" where
  "token_free req st \<longleftrightarrow>
     (\<forall>r\<in>set (t_sessions st). s_id r \<noteq> in_session_id req \<longrightarrow> s_share_token r \<noteq> Some (in_share_token req))"

text \<open>The token of a session's row after a batch.\<close>

definition token_after :: "IngestRequest \<Rightarrow> server \<Rightarrow> jsstr option" where
  "token_after req st =
     (if in_share_token req \<noteq> [] then Some (in_share_token req)
      else (case row_of (in_session_id req) st of None \<Rightarrow> None | Some r \<Rightarrow> s_share_token r))"

text \<open>The session table as a map, and each operation on it as an update of that map.\<close>

definition upsert_rows :: "session_row \<Rightarrow> session_row list \<Rightarrow> session_row list" where
  "upsert_rows s rows =
     (if s_id s \<in> s_id ` set rows then where_session (s_id s) (\<lambda>old. omitOnUpsert old s) rows
      else rows @ [omitOnUpsert blank_session s])"

lemma find_snoc:
  "find P (xs @ [x]) = (case find P xs of None \<Rightarrow> if P x then Some x else None | Some y \<Rightarrow> Some y)"
  by (induction xs) auto

lemma row_where:
  assumes "\<And>r. s_id r = i \<Longrightarrow> s_id (f r) = i"
  shows "row_of j (st\<lparr>t_sessions := where_session i f rows\<rparr>)
    = (if j = i then map_option f (row_of i (st\<lparr>t_sessions := rows\<rparr>)) else row_of j (st\<lparr>t_sessions := rows\<rparr>))"
proof -
  have e: "find (\<lambda>r. s_id r = j) (where_session i f rows)
      = map_option (\<lambda>r. if s_id r = i then f r else r) (find (\<lambda>r. s_id r = j) rows)"
    by (rule find_where_session) (rule assms)
  have r: "s_id r = j" if "find (\<lambda>r. s_id r = j) rows = Some r" for r
    using find_Some_id [OF that] by simp
  have "map_option (\<lambda>r. if s_id r = i then f r else r) (find (\<lambda>r. s_id r = j) rows)
      = (if j = i then map_option f (find (\<lambda>r. s_id r = j) rows) else find (\<lambda>r. s_id r = j) rows)"
    using r by (cases "find (\<lambda>r. s_id r = j) rows") auto
  then show ?thesis unfolding row_of_def by (simp add: e)
qed

lemma row_upsert:
  "row_of j (st\<lparr>t_sessions := upsert_rows s rows\<rparr>) =
     (if j = s_id s then Some (omitOnUpsert (case row_of j (st\<lparr>t_sessions := rows\<rparr>) of None \<Rightarrow> blank_session | Some q \<Rightarrow> q) s)
      else row_of j (st\<lparr>t_sessions := rows\<rparr>))"
proof (cases "s_id s \<in> s_id ` set rows")
  case True
  then have "row_of (s_id s) (st\<lparr>t_sessions := rows\<rparr>) \<noteq> None"
    using find_None [of "s_id s" rows] by (simp add: row_of_def)
  with True show ?thesis
    using row_where [where i = "s_id s" and f = "\<lambda>old. omitOnUpsert old s" and j = j and st = st and rows = rows]
    by (auto simp: upsert_rows_def)
next
  case False
  then have "find (\<lambda>r. s_id r = s_id s) rows = None" by (simp add: find_None)
  with False show ?thesis by (auto simp: upsert_rows_def row_of_def find_snoc split: option.split)
qed

definition token_rows :: "IngestRequest \<Rightarrow> session_row list \<Rightarrow> session_row list" where
  "token_rows req rows =
     (if in_share_token req \<noteq> []
      then where_session (in_session_id req) (\<lambda>r. r\<lparr>s_share_token := Some (in_share_token req)\<rparr>) rows else rows)"

definition client_update :: "ClientMeta \<Rightarrow> session_row \<Rightarrow> session_row" where
  "client_update c r =
     (let m = Sanitized c in case parseUserAgent (c_user_agent m) of (browser, version, os, device) \<Rightarrow>
        r\<lparr>s_screen_width := c_screen_width m, s_screen_height := c_screen_height m,
          s_viewport_width := c_viewport_width m, s_viewport_height := c_viewport_height m,
          s_device_pixel_ratio := c_device_pixel_ratio m, s_language := c_language m,
          s_timezone := c_timezone m, s_user_agent := c_user_agent m, s_browser := browser,
          s_browser_version := version, s_os := os, s_device_type := device\<rparr>)"

definition client_rows :: "IngestRequest \<Rightarrow> session_row list \<Rightarrow> session_row list" where
  "client_rows req rows =
     (case in_client req of None \<Rightarrow> rows | Some c \<Rightarrow> where_session (in_session_id req) (client_update c) rows)"

lemma client_update_keeps [simp]:
  "s_id (client_update c r) = s_id r" "s_event_count (client_update c r) = s_event_count r"
  "s_started_at (client_update c r) = s_started_at r" "s_share_token (client_update c r) = s_share_token r"
  "s_service_name (client_update c r) = s_service_name r" "s_duration_ms (client_update c r) = s_duration_ms r"
  by (simp_all add: client_update_def Let_def split: prod.split)

lemma SetClient_healthy:
  "healthy eng \<Longrightarrow> SetClientMetadata eng i (Sanitized c) (parseUserAgent (c_user_agent (Sanitized c))) st
     = (st\<lparr>sv_ops := Suc (sv_ops st), t_sessions := where_session i (client_update c) (t_sessions st)\<rparr>, Inr ())"
  by (cases "parseUserAgent (c_user_agent (Sanitized c))")
     (simp add: SetClientMetadata_def db_op_healthy client_update_def [abs_def] Let_def)

definition ingest_rows :: "IngestRequest \<Rightarrow> int \<Rightarrow> session_row list \<Rightarrow> session_row list" where
  "ingest_rows req now rows =
     where_session (in_session_id req) (\<lambda>r. r\<lparr>s_event_count := s_event_count r + int (length (in_events req))\<rparr>)
       (client_rows req (token_rows req (upsert_rows (session_of req now) rows)))"

lemma upsert_has_id: "s_id s \<in> s_id ` set (upsert_rows s rows)"
  by (auto simp: upsert_rows_def where_session_id_set)

lemma upsert_token_free:
  assumes "\<forall>r\<in>set rows. s_id r \<noteq> s_id s \<longrightarrow> s_share_token r \<noteq> Some t"
  shows "\<forall>r\<in>set (upsert_rows s rows). s_id r \<noteq> s_id s \<longrightarrow> s_share_token r \<noteq> Some t"
proof
  fix r
  assume "r \<in> set (upsert_rows s rows)"
  then have "s_id r = s_id s \<or> r \<in> set rows"
    by (fastforce simp: upsert_rows_def where_session_def split: if_splits)
  with assms show "s_id r \<noteq> s_id s \<longrightarrow> s_share_token r \<noteq> Some t" by blast
qed

lemma token_client_ids:
  "s_id ` set (client_rows req (token_rows req rows)) = s_id ` set rows"
  by (simp add: client_rows_def token_rows_def where_session_id_set split: option.split)

lemma length_new_events [simp]: "length (new_events eng n now req) = length (in_events req)"
  by (simp add: new_events_def)

lemma new_events_session: "e \<in> set (new_events eng n now req) \<Longrightarrow> e_session_id e = in_session_id req"
  by (auto simp: new_events_def)

lemma finish_healthy:
  assumes "healthy eng" and "\<forall>e\<in>set es. e_session_id e \<in> s_id ` set (t_sessions st)"
  shows "next_op (wrap_err w (InsertEvents eng es (st\<lparr>sv_uuids := u\<rparr>))) (\<lambda>_ st. IncrementEventCount eng i n st)
    = (st\<lparr>sv_ops := Suc (Suc (sv_ops st)),
          t_sessions := where_session i (\<lambda>r. r\<lparr>s_event_count := s_event_count r + n\<rparr>) (t_sessions st),
          t_events := t_events st @ es, sv_uuids := u\<rparr>, Inr ())"
proof -
  have "\<not> (\<exists>e\<in>set es. e_session_id e \<notin> s_id ` set (t_sessions st))" using assms(2) by blast
  then have "InsertEvents eng es (st\<lparr>sv_uuids := u\<rparr>)
      = (st\<lparr>sv_uuids := u, sv_ops := Suc (sv_ops st), t_events := t_events st @ es\<rparr>, Inr ())"
    by (simp add: InsertEvents_def db_op_healthy [OF assms(1)])
  then show ?thesis by (simp add: IncrementEventCount_def db_op_healthy [OF assms(1)])
qed

text \<open>Storing a batch when the database does not fail.\<close>

lemma Ingest_healthy:
  assumes "healthy eng" and "token_free req st"
  shows "\<exists>n. Ingest eng req st =
    (st\<lparr>sv_ops := n, t_sessions := ingest_rows req (sv_now st) (t_sessions st),
        t_events := t_events st @ new_events eng (sv_uuids st) (sv_now st) req,
        sv_uuids := sv_uuids st + length (in_events req)\<rparr>, Inr ())"
proof -
  let ?s = "session_of req (sv_now st)" and ?i = "in_session_id req" and ?t = "in_share_token req"
  let ?rows = "upsert_rows ?s (t_sessions st)"
  define st1 where "st1 = st\<lparr>sv_ops := Suc (sv_ops st), t_sessions := ?rows\<rparr>"
  define st2 where "st2 = st1\<lparr>sv_ops := (if ?t \<noteq> [] then Suc (sv_ops st1) else sv_ops st1),
    t_sessions := token_rows req ?rows\<rparr>"
  define st3 where "st3 = st2\<lparr>sv_ops := (if in_client req = None then sv_ops st2 else Suc (sv_ops st2)),
    t_sessions := client_rows req (token_rows req ?rows)\<rparr>"
  have up: "UpsertSession eng ?s st = (st1, Inr ())"
    by (simp add: UpsertSession_def db_op_healthy [OF assms(1)] upsert_rows_def st1_def)
  have free: "\<not> (\<exists>r\<in>set ?rows. s_id r \<noteq> ?i \<and> s_share_token r = Some ?t)"
    using upsert_token_free [of "t_sessions st" ?s ?t] assms(2) by (auto simp: token_free_def)
  have "SetShareToken eng ?i ?t st1 = (st2, Inr ())" if "?t \<noteq> []"
    using that free unfolding SetShareToken_def db_op_healthy [OF assms(1)] st2_def token_rows_def
    by (auto simp: st1_def)
  moreover have "st2 = st1" if "?t = []" using that by (simp add: st2_def st1_def token_rows_def)
  ultimately have tok: "(if ?t \<noteq> [] then wrap_err ''set share token'' (SetShareToken eng ?i ?t st1) else (st1, Inr ()))
      = (st2, Inr ())"
    by simp
  have cl: "(case in_client req of None \<Rightarrow> (st2, Inr ())
      | Some c \<Rightarrow> wrap_err ''set client metadata''
          (SetClientMetadata eng ?i (Sanitized c) (parseUserAgent (c_user_agent (Sanitized c))) st2))
      = (st3, Inr ())"
    by (simp add: SetClient_healthy [OF assms(1)] client_rows_def st3_def st2_def split: option.split)
  have has: "?i \<in> s_id ` set (client_rows req (token_rows req ?rows))"
    using upsert_has_id [of ?s "t_sessions st"] by (simp add: token_client_ids)
  have "Ingest eng req st = (let es = new_events eng (sv_uuids st3) (sv_now st) req; st = st3\<lparr>sv_uuids := sv_uuids st3 + length es\<rparr>
      in next_op (wrap_err ''insert events'' (InsertEvents eng es st)) (\<lambda>_ st.
           IncrementEventCount eng ?i (int (length es)) st))"
    by (simp only: Ingest_def Let_def up wrap_err_simps next_op_simps tok cl)
  moreover have "\<forall>e\<in>set (new_events eng (sv_uuids st3) (sv_now st) req). e_session_id e \<in> s_id ` set (t_sessions st3)"
    using has by (auto simp: st3_def dest: new_events_session)
  ultimately have run: "Ingest eng req st = (st3\<lparr>sv_ops := Suc (Suc (sv_ops st3)),
      t_sessions := where_session ?i (\<lambda>r. r\<lparr>s_event_count := s_event_count r + int (length (in_events req))\<rparr>) (t_sessions st3),
      t_events := t_events st3 @ new_events eng (sv_uuids st3) (sv_now st) req,
      sv_uuids := sv_uuids st3 + length (in_events req)\<rparr>, Inr ())"
    using finish_healthy [OF assms(1)] by (simp add: Let_def)
  show ?thesis
    unfolding run
    by (intro exI [of _ "Suc (Suc (sv_ops st3))"]) (simp add: st3_def st2_def st1_def ingest_rows_def)
qed

lemma ingest_row_other:
  assumes "j \<noteq> in_session_id req"
  shows "row_of j (st\<lparr>t_sessions := ingest_rows req now rows\<rparr>) = row_of j (st\<lparr>t_sessions := rows\<rparr>)"
  using assms by (simp add: ingest_rows_def client_rows_def token_rows_def row_where row_upsert split: option.split)

lemma ingest_row:
  "\<exists>row. row_of (in_session_id req) (st\<lparr>t_sessions := ingest_rows req now (t_sessions st)\<rparr>) = Some row
     \<and> s_id row = in_session_id req \<and> s_event_count row = int (length (in_events req)) \<and> s_started_at row = now
     \<and> s_service_name row = in_service_name req \<and> s_duration_ms row = None \<and> s_share_token row = token_after req st"
proof -
  have "s_share_token blank_session = None" by (simp add: blank_session_def)
  moreover have "st\<lparr>t_sessions := t_sessions st\<rparr> = st" by simp
  ultimately show ?thesis
    by (auto simp: ingest_rows_def client_rows_def token_rows_def row_where row_upsert token_after_def
        split: option.splits)
qed

lemma row_of_rows: "t_sessions st = rows \<Longrightarrow> row_of i (st'\<lparr>t_sessions := rows\<rparr>) = row_of i st"
  by (simp add: row_of_def)

text \<open>The batch as the store holds it.\<close>

definition raw_event :: "event_row \<Rightarrow> RawEvent" where
  "raw_event e = \<lparr>ev_type = e_type e, ev_data = e_data e, ev_timestamp = e_timestamp e\<rparr>"

lemma raw_new_events: "map raw_event (new_events eng n now req) = in_events req"
proof -
  have "raw_event \<circ> (\<lambda>(i, e). \<lparr>e_id = new_uuid eng (n + i), e_session_id = in_session_id req, e_seq = int i,
      e_type = ev_type e, e_data = ev_data e, e_timestamp = ev_timestamp e, e_created_at = now\<rparr>) = (\<lambda>p. snd p)"
    by (rule ext) (simp add: raw_event_def split_beta)
  then show ?thesis by (simp add: new_events_def)
qed

lemma new_events_seq: "map e_seq (new_events eng n now req) = map int [0..<length (in_events req)]"
  by (rule nth_equalityI) (simp_all add: new_events_def nth_enumerate_eq)

definition session_events :: "jsstr \<Rightarrow> server \<Rightarrow> event_row list" where
  "session_events i st = filter (\<lambda>e. e_session_id e = i) (t_events st)"

lemma ordered_events:
  assumes "engine_contract eng"
  shows "mset (map f (order_events eng es)) = mset (map f es)"
proof -
  have "mset (order_events eng es) = mset es" using assms by (simp add: engine_contract_def)
  then show ?thesis by simp
qed

lemma GetEvents_healthy:
  "healthy eng \<Longrightarrow> GetEvents eng i st = (st\<lparr>sv_ops := Suc (sv_ops st)\<rparr>, Inr (order_events eng (session_events i st)))"
  by (simp add: GetEvents_def db_op_healthy session_events_def)

lemma session_events_new:
  "t_events st' = t_events st @ new_events eng n now req \<Longrightarrow>
     session_events (in_session_id req) st' = session_events (in_session_id req) st @ new_events eng n now req"
  by (auto simp: session_events_def intro!: filter_True dest: new_events_session)

text \<open>Events with different timestamps come back in the order of their timestamps.\<close>

lemma order_events_sorted:
  assumes "engine_contract eng" and "sorted_wrt (<) (map e_timestamp es)"
  shows "order_events eng es = es"
proof -
  let ?os = "order_events eng es"
  have m: "mset ?os = mset es" and o: "sorted_wrt event_before ?os"
    using assms(1) by (auto simp: engine_contract_def)
  have "sorted_wrt (\<lambda>a b. e_timestamp a \<le> e_timestamp b) ?os"
    by (rule sorted_wrt_mono_rel [OF _ o]) (auto simp: event_before_def)
  then have "sorted (map e_timestamp ?os)" by (simp add: sorted_wrt_map)
  moreover have "sorted (map e_timestamp es)" "distinct (map e_timestamp es)"
    using assms(2) by (simp_all add: strict_sorted_iff)
  moreover have "mset (map e_timestamp ?os) = mset (map e_timestamp es)" by (simp add: m)
  ultimately have eq: "map e_timestamp ?os = map e_timestamp es"
    by (metis properties_for_sort)
  have "set ?os = set es" using m by (rule mset_eq_setD)
  moreover have "inj_on e_timestamp (set es)"
    using \<open>distinct (map e_timestamp es)\<close> by (simp add: distinct_map)
  ultimately show ?thesis using eq by (simp add: map_inj_on)
qed


section \<open>A second batch\<close>

lemma token_free_again:
  assumes "token_free req st" and "in_session_id req' = in_session_id req" and "in_share_token req' = in_share_token req"
    and "t_sessions st' = ingest_rows req now (t_sessions st)" and "store_inv st" and "store_inv st'"
  shows "token_free req' st'"
  unfolding token_free_def
proof (intro ballI impI)
  fix r
  assume r: "r \<in> set (t_sessions st')" "s_id r \<noteq> in_session_id req'"
  have "row_of (s_id r) st' = Some r"
    using row_of_unique [OF _ r(1)] assms(6) by (simp add: store_inv_def)
  moreover have "row_of (s_id r) (st'\<lparr>t_sessions := ingest_rows req now (t_sessions st)\<rparr>) = row_of (s_id r) st"
    using ingest_row_other [where j = "s_id r" and req = req and st = st' and now = now and rows = "t_sessions st"]
      r(2) assms(2) row_of_rows [of st "t_sessions st" "s_id r" st'] by simp
  moreover have "st'\<lparr>t_sessions := ingest_rows req now (t_sessions st)\<rparr> = st'" by (simp add: assms(4) [symmetric])
  ultimately have "row_of (s_id r) st = Some r" by simp
  then have "r \<in> set (t_sessions st)" by (auto simp: row_of_def dest: find_Some_id)
  with assms(1-3) r(2) show "s_share_token r \<noteq> Some (in_share_token req')" by (simp add: token_free_def)
qed

lemma no_session_no_events:
  "store_inv st \<Longrightarrow> row_of i st = None \<Longrightarrow> session_events i st = []"
  by (force simp: store_inv_def row_of_def find_None session_events_def filter_empty_conv)

text \<open>
  Property C20 (a later batch of a session). When the server stores a second batch of a session it
  keeps the events of both, as often as they were sent, but the session's number of events
  becomes that of the last batch alone and its start the time of the last batch: \<open>UpsertSession\<close>
  writes the row again, and those two columns are not among the ones it leaves alone.
\<close>

theorem later_batch_resets_count:
  assumes "fresh_server st0" and "st = fold (serve eng) ops st0" and "healthy eng" and "engine_contract eng"
    and "row_of i st = None" and "in_session_id req1 = i" and "in_session_id req2 = i"
    and "in_share_token req2 = in_share_token req1" and "token_free req1 st"
    and "Ingest eng req1 st = (st1, r1)" and "Ingest eng req2 (st1\<lparr>sv_now := t\<rparr>) = (st2, r2)"
  shows "r1 = Inr () \<and> r2 = Inr () \<and> (\<exists>row es. row_of i st2 = Some row
    \<and> s_event_count row = int (length (in_events req2)) \<and> s_started_at row = t
    \<and> snd (GetEvents eng i st2) = Inr es \<and> mset (map raw_event es) = mset (in_events req1) + mset (in_events req2))"
proof -
  have inv: "store_inv st" using served_inv [OF assms(1)] assms(2) by simp
  let ?st1 = "st1\<lparr>sv_now := t\<rparr>"
  have inv1: "store_inv ?st1" using store_inv_Ingest [OF inv, of eng req1] assms(10) by simp
  have 1: "r1 = Inr ()" "t_sessions ?st1 = ingest_rows req1 (sv_now st) (t_sessions st)"
    "t_events ?st1 = t_events st @ new_events eng (sv_uuids st) (sv_now st) req1"
    using Ingest_healthy [OF assms(3,9)] assms(10) by auto
  have free: "token_free req2 ?st1"
    by (rule token_free_again [OF assms(9) _ assms(8) 1(2) inv inv1]) (simp add: assms(6,7))
  from Ingest_healthy [OF assms(3) free] obtain n where 2: "r2 = Inr ()"
    "st2 = ?st1\<lparr>sv_ops := n, t_sessions := ingest_rows req2 t (t_sessions ?st1),
        t_events := t_events ?st1 @ new_events eng (sv_uuids ?st1) t req2,
        sv_uuids := sv_uuids ?st1 + length (in_events req2)\<rparr>"
    using assms(11) by auto
  obtain row where row: "row_of i (?st1\<lparr>t_sessions := ingest_rows req2 t (t_sessions ?st1)\<rparr>) = Some row"
    "s_event_count row = int (length (in_events req2))" "s_started_at row = t"
    using ingest_row [where req = req2 and st = ?st1 and now = t] assms(7) by auto
  have "row_of i st2 = Some row" using row(1) by (simp add: 2(2) row_of_def)
  moreover have "session_events i st2 = new_events eng (sv_uuids st) (sv_now st) req1 @ new_events eng (sv_uuids ?st1) t req2"
    using session_events_new [of st2 ?st1 eng "sv_uuids ?st1" t req2] session_events_new [OF 1(3)]
      no_session_no_events [OF inv assms(5)] assms(6,7) by (simp add: 2(2))
  then have "mset (map raw_event (order_events eng (session_events i st2))) = mset (in_events req1) + mset (in_events req2)"
    by (simp add: ordered_events [OF assms(4)] del: mset_map) (simp add: raw_new_events)
  ultimately show ?thesis using 1(1) 2(1) row by (simp add: GetEvents_healthy [OF assms(3)])
qed


section \<open>A concrete engine\<close>

fun insert_by :: "('a \<Rightarrow> 'a \<Rightarrow> bool) \<Rightarrow> 'a \<Rightarrow> 'a list \<Rightarrow> 'a list" where
  "insert_by le x [] = [x]"
| "insert_by le x (y # ys) = (if le x y then x # y # ys else y # insert_by le x ys)"

definition order_by :: "('a \<Rightarrow> 'a \<Rightarrow> bool) \<Rightarrow> 'a list \<Rightarrow> 'a list" where
  "order_by le xs = foldr (insert_by le) xs []"

lemma mset_insert_by: "mset (insert_by le x ys) = add_mset x (mset ys)"
  by (induction ys) auto

lemma sorted_insert_by:
  assumes "\<And>a b. le a b \<or> le b a" and "\<And>a b c. le a b \<Longrightarrow> le b c \<Longrightarrow> le a c"
  shows "sorted_wrt le ys \<Longrightarrow> sorted_wrt le (insert_by le x ys)"
proof (induction ys)
  case (Cons y ys)
  have "set (insert_by le x ys) = insert x (set ys)"
    using mset_insert_by [of le x ys] by (metis set_mset_add_mset_insert set_mset_mset)
  with Cons assms show ?case by (auto intro: assms(2))
qed simp

lemma order_by_spec:
  assumes "\<And>a b. le a b \<or> le b a" and "\<And>a b c. le a b \<Longrightarrow> le b c \<Longrightarrow> le a c"
  shows "mset (order_by le xs) = mset xs \<and> sorted_wrt le (order_by le xs)"
  unfolding order_by_def
  by (induction xs) (simp_all add: mset_insert_by sorted_insert_by [OF assms])

definition demo_engine :: engine where
  "demo_engine = \<lparr>db_fault = (\<lambda>_. False), order_events = order_by event_before,
     order_sessions = order_by (\<lambda>a b. s_started_at b \<le> s_started_at a),
     order_failed = order_by (\<lambda>a b. f_created_at b \<le> f_created_at a),
     order_names = (\<lambda>A. SOME xs. set xs = A \<and> distinct xs), ack_fails = (\<lambda>_. False),
     enqueue_fails = (\<lambda>_. False), new_uuid = demo_uuid, uuid_parses = (\<lambda>_. True)\<rparr>"

definition demo_server :: server where
  "demo_server = \<lparr>sv_now = 0, sv_ops = 0, sv_uuids = 0, t_sessions = [], t_events = [], t_failed = [],
     sv_messages = 0, sv_queue = [], sv_pending = []\<rparr>"

lemma order_by_key:
  fixes k :: "'a \<Rightarrow> int"
  shows "mset (order_by (\<lambda>a b. k b \<le> k a) xs) = mset xs \<and> sorted_wrt (\<lambda>a b. k b \<le> k a) (order_by (\<lambda>a b. k b \<le> k a) xs)"
  by (rule order_by_spec) auto

lemma order_by_events:
  "mset (order_by event_before es) = mset es \<and> sorted_wrt event_before (order_by event_before es)"
  by (rule order_by_spec) (auto simp: event_before_def)

lemma demo_engine_contract: "engine_contract demo_engine"
proof -
  have "set (SOME xs. set xs = A \<and> distinct xs) = A \<and> distinct (SOME xs. set xs = A \<and> distinct xs)"
    if "finite A" for A :: "jsstr set"
    by (rule someI_ex, rule finite_distinct_list, rule that)
  then show ?thesis by (simp add: engine_contract_def demo_engine_def order_by_events order_by_key)
qed

lemma demo_healthy: "healthy demo_engine"
  by (simp add: healthy_def demo_engine_def)

lemma demo_server_fresh: "fresh_server demo_server"
  by (simp add: fresh_server_def demo_server_def)

definition demo_raw :: "int \<Rightarrow> int \<Rightarrow> RawEvent" where
  "demo_raw ty ts = \<lparr>ev_type = ty, ev_data = JObj [], ev_timestamp = ts\<rparr>"

definition demo_request :: "RawEvent list \<Rightarrow> IngestRequest" where
  "demo_request evs = zero_request\<lparr>in_session_id := js ''s'', in_identifier := js ''jane'',
     in_service_name := js ''web'', in_share_token := js ''t'', in_events := evs\<rparr>"

lemma demo_request_fields [simp]:
  "in_session_id (demo_request evs) = js ''s''" "in_share_token (demo_request evs) = js ''t''"
  "in_events (demo_request evs) = evs" "in_client (demo_request evs) = None"
  by (simp_all add: demo_request_def zero_request_def)

theorem later_batch_resets_count_witness:
  "\<exists>st1 st2 row es. Ingest demo_engine (demo_request [demo_raw 2 10, demo_raw 3 20]) demo_server = (st1, Inr ())
     \<and> Ingest demo_engine (demo_request [demo_raw 3 30]) (st1\<lparr>sv_now := 7\<rparr>) = (st2, Inr ())
     \<and> row_of (js ''s'') st2 = Some row \<and> s_event_count row = 1 \<and> s_started_at row = 7
     \<and> snd (GetEvents demo_engine (js ''s'') st2) = Inr es \<and> length es = 3"
proof -
  let ?r1 = "demo_request [demo_raw 2 10, demo_raw 3 20]" and ?r2 = "demo_request [demo_raw 3 30]"
  obtain st1 r1 where 1: "Ingest demo_engine ?r1 demo_server = (st1, r1)" by fastforce
  obtain st2 r2 where 2: "Ingest demo_engine ?r2 (st1\<lparr>sv_now := 7\<rparr>) = (st2, r2)" by fastforce
  have e: "row_of (js ''s'') demo_server = None" "token_free ?r1 demo_server"
    "demo_server = fold (serve demo_engine) [] demo_server"
    by (simp_all add: row_of_def demo_server_def token_free_def)
  from later_batch_resets_count [OF demo_server_fresh e(3) demo_healthy demo_engine_contract e(1) _ _ _ e(2) 1 2]
  obtain row es where r: "r1 = Inr ()" "r2 = Inr ()" "row_of (js ''s'') st2 = Some row" "s_event_count row = 1"
    "s_started_at row = 7" "snd (GetEvents demo_engine (js ''s'') st2) = Inr es"
    "mset (map raw_event es) = mset [demo_raw 2 10, demo_raw 3 20] + mset [demo_raw 3 30]" by auto
  have "length (map raw_event es) = 3"
    unfolding size_mset [symmetric] r(7) by simp
  with 1 2 r show ?thesis by auto
qed

end
