(* ===== verification/ServerQueue.thy ===== *)
theory ServerQueue
  imports ServerProps
begin

text \<open>
  From the request to the table: a batch the server has accepted goes through the queue unchanged, and
  a worker stores it or keeps it for a retry; and what a share link shows.
\<close>

section \<open>The queue carries requests unchanged\<close>

definition int64 :: "int \<Rightarrow> bool" where
  "int64 n \<longleftrightarrow> - (2 ^ 63) \<le> n \<and> n < 2 ^ 63"

definition text_ok :: "jsstr \<Rightarrow> bool" where
  "text_ok s \<longleftrightarrow> go_text s = s"

definition meta_ok :: "ClientMeta \<Rightarrow> bool" where
  "meta_ok m \<longleftrightarrow> int64 (screen_width m) \<and> int64 (screen_height m) \<and> int64 (viewport_width m)
     \<and> int64 (viewport_height m) \<and> text_ok (cm_language m) \<and> text_ok (cm_timezone m) \<and> text_ok (user_agent m)"

definition request_ok :: "IngestRequest \<Rightarrow> bool" where
  "request_ok r \<longleftrightarrow> list_all text_ok [in_session_id r, in_bat_session_id r, in_identifier r, in_user_email r,
       in_user_name r, in_start_url r, in_environment r, in_service_name r, in_trigger r, in_share_token r]
     \<and> (case in_client r of None \<Rightarrow> True | Some m \<Rightarrow> meta_ok m)
     \<and> (\<forall>e\<in>set (in_events r). int64 (ev_type e) \<and> int64 (ev_timestamp e))"

text \<open>Data that was missing is \<open>null\<close> after the queue.\<close>

definition null_event :: "RawEvent \<Rightarrow> RawEvent" where
  "null_event e = (if ev_data e = JUndef then e\<lparr>ev_data := JNull\<rparr> else e)"

definition null_data :: "IngestRequest \<Rightarrow> IngestRequest" where
  "null_data r = r\<lparr>in_events := map null_event (in_events r)\<rparr>"

lemma go_int_ok: "int64 n \<Longrightarrow> go_int (jint n) = Inr n"
  by (simp add: int64_def)

lemma go_str_ok: "text_ok s \<Longrightarrow> go_str (JStr s) = Inr s"
  by (simp add: text_ok_def)

lemma unmarshal_event_json:
  "int64 (ev_type e) \<Longrightarrow> int64 (ev_timestamp e) \<Longrightarrow> unmarshal_event (event_json e) = Inr e"
  by (simp add: event_json_def member_def go_int_ok del: go_int.simps)

lemma unmarshal_client_json: "meta_ok m \<Longrightarrow> unmarshal_client (client_json m) = Inr (Some m)"
  by (simp add: client_json_def member_def meta_ok_def go_int_ok go_str_ok del: go_int.simps go_str.simps)

lemma mapG_ok: "(\<And>x. x \<in> set xs \<Longrightarrow> f x = Inr (g x)) \<Longrightarrow> mapG f xs = Inr (map g xs)"
  by (induction xs) simp_all

lemma marshal_round_trip:
  assumes "request_ok req"
  shows "unmarshal_request (marshal_request req) = Inr (null_data req)"
proof -
  have "mapG unmarshal_event (map (\<lambda>e. event_json (null_event e)) (in_events req)) = Inr (map null_event (in_events req))"
    using assms by (subst mapG_ok [where g = "\<lambda>v. case unmarshal_event v of Inr e \<Rightarrow> e | Inl _ \<Rightarrow> undefined"])
      (auto simp: request_ok_def unmarshal_event_json null_event_def)
  then have "unmarshal_events (JArr (map (\<lambda>e. event_json (if ev_data e = JUndef then e\<lparr>ev_data := JNull\<rparr> else e)) (in_events req)))
      = Inr (map null_event (in_events req))"
    by (simp add: null_event_def)
  moreover have "unmarshal_client (case in_client req of None \<Rightarrow> JNull | Some m \<Rightarrow> client_json m) = Inr (in_client req)"
    using assms by (simp add: request_ok_def unmarshal_client_json split: option.splits)
  ultimately show ?thesis
    using assms
    by (cases req) (simp add: marshal_request_def member_def request_ok_def go_str_ok null_data_def
        del: go_str.simps unmarshal_events.simps)
qed

lemma go_int_typed: "go_int v = Inr n \<Longrightarrow> int64 n"
  by (cases v rule: go_int.cases) (auto simp: int64_def split: if_splits)

lemma go_str_typed: "go_str v = Inr s \<Longrightarrow> text_ok s"
  by (cases v rule: go_str.cases) (auto simp: text_ok_def)

lemma bindG_eq_Inr: "bindG r f = Inr y \<longleftrightarrow> (\<exists>x. r = Inr x \<and> f x = Inr y)"
  by (cases r) simp_all

lemma unmarshal_event_typed:
  "unmarshal_event v = Inr e \<Longrightarrow> int64 (ev_type e) \<and> int64 (ev_timestamp e)"
  by (cases v rule: unmarshal_event.cases) (auto simp: bindG_eq_Inr int64_def dest!: go_int_typed)

lemma mapG_typed: "mapG f xs = Inr ys \<Longrightarrow> y \<in> set ys \<Longrightarrow> \<exists>x\<in>set xs. f x = Inr y"
  by (induction xs arbitrary: ys) (auto simp: bindG_eq_Inr)

lemma unmarshal_events_typed:
  "unmarshal_events v = Inr es \<Longrightarrow> e \<in> set es \<Longrightarrow> int64 (ev_type e) \<and> int64 (ev_timestamp e)"
  by (cases v rule: unmarshal_events.cases) (auto dest!: mapG_typed unmarshal_event_typed)

lemma unmarshal_client_typed: "unmarshal_client v = Inr (Some m) \<Longrightarrow> meta_ok m"
  by (cases v rule: unmarshal_client.cases)
     (auto simp: bindG_eq_Inr meta_ok_def dest: go_int_typed go_str_typed)

lemma unmarshal_request_typed:
  assumes "unmarshal_request v = Inr req"
  shows "request_ok req"
proof (cases v rule: unmarshal_request.cases)
  case (1 kvs)
  with assms show ?thesis
    by (auto simp: bindG_eq_Inr request_ok_def dest: go_str_typed unmarshal_events_typed
        intro: unmarshal_client_typed split: option.split)
qed (use assms in \<open>auto simp: request_ok_def zero_request_def text_ok_def\<close>)


section \<open>A worker stores the batch or keeps it\<close>

lemma next_op_Inr:
  "next_op p f = (st', Inr y) \<longleftrightarrow> (\<exists>st1 x. p = (st1, Inr x) \<and> f x st1 = (st', Inr y))"
  by (cases p; cases "snd p") auto

lemma wrap_err_Inr: "wrap_err w p = (st, Inr x) \<longleftrightarrow> p = (st, Inr x)"
  by (cases p; cases "snd p") auto

lemma keeps_events:
  "UpsertSession eng s st = (st', r1) \<Longrightarrow> t_events st' = t_events st \<and> sv_now st' = sv_now st"
  "SetShareToken eng i t st = (st', r2) \<Longrightarrow> t_events st' = t_events st \<and> sv_now st' = sv_now st"
  "SetClientMetadata eng i m ua st = (st', r3) \<Longrightarrow> t_events st' = t_events st \<and> sv_now st' = sv_now st"
  "IncrementEventCount eng i n st = (st', r4) \<Longrightarrow> t_events st' = t_events st \<and> sv_now st' = sv_now st"
  by (auto simp: UpsertSession_def SetShareToken_def SetClientMetadata_def IncrementEventCount_def db_op_def Let_def
      split: if_splits prod.splits)

lemma Insert_success: "InsertEvents eng es st = (st', Inr ()) \<Longrightarrow> t_events st' = t_events st @ es"
  by (auto simp: InsertEvents_def db_op_def Let_def split: if_splits)

lemma Ingest_stores:
  assumes "Ingest eng req st = (st', Inr ())"
  shows "\<exists>n. t_events st' = t_events st @ new_events eng n (sv_now st) req"
  using assms unfolding Ingest_def Let_def
  by (auto simp: next_op_Inr wrap_err_Inr dest!: keeps_events Insert_success split: if_splits option.splits)

text \<open>What storing a batch leaves alone.\<close>

definition same_jobs :: "server \<Rightarrow> server \<Rightarrow> bool" where
  "same_jobs st st' \<longleftrightarrow> sv_queue st' = sv_queue st \<and> sv_pending st' = sv_pending st \<and> t_failed st' = t_failed st"

lemma same_jobs_refl [simp]: "same_jobs st st"
  by (simp add: same_jobs_def)

lemma same_jobs_next_op:
  assumes "same_jobs st (fst p)" and "\<And>x st. same_jobs st (fst (f x st))"
  shows "same_jobs st (fst (next_op p f))"
proof (cases p)
  case (Pair st1 r)
  then show ?thesis
    using assms(1) assms(2) [where st = st1] by (cases r) (auto simp: same_jobs_def)
qed

lemma same_jobs_ops [simp]:
  "same_jobs st (fst (UpsertSession eng s st))"
  "same_jobs st (fst (SetShareToken eng i t st))"
  "same_jobs st (fst (SetClientMetadata eng i m ua st))"
  "same_jobs st (fst (IncrementEventCount eng i n st))"
  "same_jobs st (fst (InsertEvents eng es st))"
  by (auto simp: same_jobs_def UpsertSession_def SetShareToken_def SetClientMetadata_def IncrementEventCount_def
      InsertEvents_def db_op_def Let_def split: prod.splits)

lemma same_jobs_uuids: "same_jobs (st\<lparr>sv_uuids := n\<rparr>) st' = same_jobs st st'"
  by (simp add: same_jobs_def)

lemma Ingest_jobs: "same_jobs st (fst (Ingest eng req st))"
proof -
  have ins: "same_jobs st (fst (InsertEvents eng es (st\<lparr>sv_uuids := n\<rparr>)))" for es n st
    by (rule same_jobs_uuids [THEN iffD1, OF same_jobs_ops(5)])
  show ?thesis
    unfolding Ingest_def Let_def
    by (intro same_jobs_next_op) (simp_all add: ins split: option.split)
qed

definition kept_for_retry :: "IngestRequest \<Rightarrow> int \<Rightarrow> server \<Rightarrow> bool" where
  "kept_for_retry req tries st \<longleftrightarrow> (\<exists>f\<in>set (t_failed st). f_payload f = marshal_request req \<and> \<not> f_resolved f
     \<and> f_retry_count f = tries)"

lemma Ack_fields [simp]:
  "t_events (Ack eng mid st) = t_events st" "t_failed (Ack eng mid st) = t_failed st"
  "sv_ops (Ack eng mid st) = sv_ops st" "sv_queue (Ack eng mid st) = sv_queue st"
  "t_sessions (Ack eng mid st) = t_sessions st"
  by (simp_all add: Ack_def)

lemma saveFailed_outcome:
  "kept_for_retry req tries (saveFailed eng req e tries st) \<or> db_fault eng (sv_ops (saveFailed eng req e tries st) - 1)"
  by (auto simp: saveFailed_def repo_SaveFailed_def db_op_def Let_def kept_for_retry_def)

lemma saveFailed_pending [simp]:
  "sv_pending (saveFailed eng req e tries st) = sv_pending st" "sv_queue (saveFailed eng req e tries st) = sv_queue st"
  by (simp_all add: saveFailed_def repo_SaveFailed_def db_op_def Let_def)

lemma kept_Ack [simp]: "kept_for_retry req tries (Ack eng mid st) = kept_for_retry req tries st"
  by (simp add: kept_for_retry_def)

lemma process_from_outcome:
  assumes "ds \<noteq> []" and "st' = process_from eng mid req k ds st"
  shows "((\<exists>n now. suffix (new_events eng n now req) (t_events st'))
      \<or> kept_for_retry req (k + int (length ds)) st' \<or> db_fault eng (sv_ops st' - 1))
    \<and> sv_queue st' = sv_queue st \<and> sv_pending st' = sv_pending (Ack eng mid st)"
  using assms
proof (induction ds arbitrary: k st)
  case (Cons d ds)
  let ?st = "st\<lparr>sv_now := sv_now st + d\<rparr>"
  obtain st1 r where i: "Ingest eng req ?st = (st1, r)" by fastforce
  have j: "sv_queue st1 = sv_queue st" "sv_pending st1 = sv_pending st"
    using Ingest_jobs [of ?st eng req] i by (simp_all add: same_jobs_def)
  show ?case
  proof (cases r)
    case (Inr u)
    with Ingest_stores [of eng req ?st st1] i have "\<exists>n. t_events st1 = t_events st @ new_events eng n (sv_now st + d) req"
      by simp
    then have "\<exists>n now. suffix (new_events eng n now req) (t_events st1)" by (auto simp: suffix_def)
    with Cons.prems i Inr j show ?thesis by (simp add: Ack_def)
  next
    case (Inl e)
    show ?thesis
    proof (cases ds)
      case Nil
      with saveFailed_outcome [of req "k + 1" eng e st1] Cons.prems i Inl j show ?thesis
        by (auto simp: Ack_def kept_for_retry_def)
    next
      case (Cons d' ds')
      then have "st' = process_from eng mid req (k + 1) ds st1" using Cons.prems(2) i Inl by simp
      with Cons.IH [of "k + 1" st1] Cons j show ?thesis by (simp add: Ack_def add.assoc)
    qed
  qed
qed simp

lemma null_data_ok [simp]: "request_ok req \<Longrightarrow> request_ok (null_data req)"
  by (auto simp: request_ok_def null_data_def null_event_def)

lemma null_data_idem [simp]: "null_data (null_data req) = null_data req"
  by (simp add: null_data_def null_event_def o_def)

text \<open>A batch that was kept is stored by a retry once the database works, and marked as resolved.\<close>

lemma retry_stores:
  assumes "healthy eng" and "find (\<lambda>f. f_id f = i) (t_failed st) = Some f"
    and "f_payload f = marshal_request req" and "request_ok req" and "token_free (null_data req) st"
  shows "\<exists>st'. RetryFailed eng i st = (st', Inr ())
    \<and> t_events st' = t_events st @ new_events eng (sv_uuids st) (sv_now st) (null_data req)
    \<and> (\<forall>f'\<in>set (t_failed st'). f_id f' = i \<longrightarrow> f_resolved f')"
proof -
  let ?st = "st\<lparr>sv_ops := Suc (sv_ops st)\<rparr>"
  have g: "GetFailed eng i st = (?st, Inr f)" using assms(2) by (simp add: GetFailed_def db_op_healthy [OF assms(1)])
  have "token_free (null_data req) ?st" using assms(5) by (simp add: token_free_def)
  from Ingest_healthy [OF assms(1) this] obtain st1 where
    "Ingest eng (null_data req) ?st = (st1, Inr ())"
    "t_events st1 = t_events st @ new_events eng (sv_uuids st) (sv_now st) (null_data req)" by auto
  moreover define st' where "st' = st1\<lparr>sv_ops := Suc (sv_ops st1),
    t_failed := map (\<lambda>f. if f_id f = i then f\<lparr>f_resolved := True, f_resolved_at := Some (sv_now st1)\<rparr> else f) (t_failed st1)\<rparr>"
  ultimately have "RetryFailed eng i st = (st', Inr ())"
    unfolding RetryFailed_def g wrap_err_simps next_op_simps assms(3) marshal_round_trip [OF assms(4)]
    by (simp add: MarkFailedResolved_def db_op_healthy [OF assms(1)] Let_def)
  moreover have "\<forall>f'\<in>set (t_failed st'). f_id f' = i \<longrightarrow> f_resolved f'"
    by (simp add: st'_def ball_Un)
  moreover have "t_events st' = t_events st @ new_events eng (sv_uuids st) (sv_now st) (null_data req)"
    using \<open>t_events st1 = _\<close> by (simp add: st'_def)
  ultimately show ?thesis by blast
qed

text \<open>
  Property C7 (an accepted batch is not lost). When the server answers a posted batch with success and a
  worker has taken it from the queue, then, whatever the database did meanwhile, the batch's
  events are in the table, or after four attempts the batch is kept as a failed one for the
  dashboard to retry; the one exception is that the database refuses that last record too. The
  message leaves the queue, and is not delivered again if it could be acknowledged.
\<close>

theorem accepted_batch_kept:
  assumes "sv_queue st = []" and "writer_Ingest eng body st = (st1, 204)" and "st2 = runWorker eng st1"
    and "\<forall>m\<in>set (sv_pending st). fst m \<noteq> sv_messages st"
  shows "\<exists>v req. json_parse body = Inr v \<and> unmarshal_request v = Inr req \<and> sv_queue st2 = []
    \<and> (ack_fails eng (sv_messages st) \<or> sv_pending st2 = sv_pending st)
    \<and> ((\<exists>n now. suffix (new_events eng n now (null_data req)) (t_events st2))
       \<or> kept_for_retry (null_data req) 4 st2 \<or> db_fault eng (sv_ops st2 - 1))"
proof -
  from assms(2) obtain v req where v: "json_parse body = Inr v" "unmarshal_request v = Inr req"
    and st1: "st1 = st\<lparr>sv_messages := Suc (sv_messages st), sv_queue := sv_queue st @ [(sv_messages st, marshal_request req)]\<rparr>"
    by (auto simp: writer_Ingest_def Enqueue_def Let_def split: sum.splits if_splits)
  have rt: "unmarshal_request (marshal_request req) = Inr (null_data req)"
    by (rule marshal_round_trip [OF unmarshal_request_typed [OF v(2)]])
  define st0 where "st0 = st\<lparr>sv_messages := Suc (sv_messages st), sv_queue := [],
    sv_pending := sv_pending st @ [(sv_messages st, marshal_request req)]\<rparr>"
  have "st2 = process_from eng (sv_messages st) (null_data req) 0 delays st0"
    unfolding assms(3) st0_def by (simp add: runWorker_def st1 assms(1) handle_message_def rt process_def)
  from process_from_outcome [OF _ this] have
    o: "(\<exists>n now. suffix (new_events eng n now (null_data req)) (t_events st2))
       \<or> kept_for_retry (null_data req) 4 st2 \<or> db_fault eng (sv_ops st2 - 1)"
      "sv_queue st2 = []" "sv_pending st2 = sv_pending (Ack eng (sv_messages st) st0)"
    by (simp_all add: delays_def st0_def)
  have "filter (\<lambda>m. fst m \<noteq> sv_messages st) (sv_pending st) = sv_pending st"
    using assms(4) by (simp add: filter_True)
  then have "ack_fails eng (sv_messages st) \<or> sv_pending st2 = sv_pending st"
    using o(3) by (simp add: Ack_def st0_def)
  with v o(1,2) show ?thesis by blast
qed


section \<open>Public replays\<close>

lemma GetPublicEvents_ok:
  assumes "GetPublicEvents eng tok st = (st', Inr es)"
  shows "\<exists>r. find (\<lambda>r. s_share_token r = Some tok) (t_sessions st) = Some r
    \<and> es = filter (\<lambda>e. e_type e \<noteq> rrwebPluginType) (order_events eng (session_events (s_id r) st))
    \<and> t_sessions st' = t_sessions st \<and> t_events st' = t_events st"
  using assms
  by (auto simp: GetPublicEvents_def GetByShareToken_def GetEvents_def db_op_def Let_def session_events_def
      split: if_splits option.splits)

text \<open>
  Property C8 (a public replay has no console). In every state the server reaches, whatever fails, a
  share token belongs to at most one session; what the public address returns for a token is
  exactly the events of that session that are no plugin events, which is what recorded
  console output is, and asking changes nothing.
\<close>

theorem public_replay_hides_console:
  assumes "fresh_server st0" and "st = fold (serve eng) ops st0" and "engine_contract eng"
    and "GetPublicEvents eng tok st = (st', Inr es)"
  shows "\<exists>r\<in>set (t_sessions st). s_share_token r = Some tok
    \<and> (\<forall>r'\<in>set (t_sessions st). s_share_token r' = Some tok \<longrightarrow> s_id r' = s_id r)
    \<and> (\<forall>e\<in>set es. e_type e \<noteq> 6 \<and> e_session_id e = s_id r)
    \<and> mset es = filter_mset (\<lambda>e. e_type e \<noteq> 6) (mset (session_events (s_id r) st))
    \<and> t_sessions st' = t_sessions st \<and> t_events st' = t_events st"
proof -
  have inv: "store_inv st" using served_inv [OF assms(1)] assms(2) by simp
  from GetPublicEvents_ok [OF assms(4)] obtain r where
    r: "find (\<lambda>r. s_share_token r = Some tok) (t_sessions st) = Some r"
    and es: "es = filter (\<lambda>e. e_type e \<noteq> rrwebPluginType) (order_events eng (session_events (s_id r) st))"
    and fr: "t_sessions st' = t_sessions st" "t_events st' = t_events st" by blast
  have m: "mset (order_events eng (session_events (s_id r) st)) = mset (session_events (s_id r) st)"
    using assms(3) by (simp add: engine_contract_def)
  then have "set (order_events eng (session_events (s_id r) st)) = set (session_events (s_id r) st)"
    by (rule mset_eq_setD)
  then have own: "\<forall>e\<in>set es. e_type e \<noteq> 6 \<and> e_session_id e = s_id r"
    by (simp add: es rrwebPluginType_def session_events_def)
  have all: "mset es = filter_mset (\<lambda>e. e_type e \<noteq> 6) (mset (session_events (s_id r) st))"
    by (simp add: es rrwebPluginType_def m)
  have rt: "r \<in> set (t_sessions st)" "s_share_token r = Some tok"
    using r by (auto simp: find_Some_iff)
  have "\<forall>r'\<in>set (t_sessions st). s_share_token r' = Some tok \<longrightarrow> s_id r' = s_id r"
    using tokens_uniqueD [OF _ _ rt(1) _ rt(2)] inv unfolding store_inv_def by blast
  with rt own all fr show ?thesis by blast
qed


section \<open>Concrete runs\<close>

lemma process_healthy:
  assumes "healthy eng" and "token_free req st"
  shows "\<exists>n. process eng mid req st = Ack eng mid
    (st\<lparr>sv_ops := n, t_sessions := ingest_rows req (sv_now st) (t_sessions st),
        t_events := t_events st @ new_events eng (sv_uuids st) (sv_now st) req,
        sv_uuids := sv_uuids st + length (in_events req)\<rparr>)"
  using Ingest_healthy [OF assms] by (auto simp: process_def delays_def)

definition demo_queued :: server where
  "demo_queued = demo_server\<lparr>sv_queue := [(0, marshal_request (demo_request [demo_raw 2 10, demo_raw 6 20]))]\<rparr>"

lemma demo_request_ok: "request_ok (demo_request [demo_raw 2 10, demo_raw 6 20])"
  "null_data (demo_request [demo_raw 2 10, demo_raw 6 20]) = demo_request [demo_raw 2 10, demo_raw 6 20]"
proof -
  have "text_ok (js ''s'')" "text_ok (js ''jane'')" "text_ok (js ''web'')" "text_ok (js ''t'')" "text_ok []"
    by (unfold text_ok_def) code_simp+
  then show "request_ok (demo_request [demo_raw 2 10, demo_raw 6 20])"
    by (simp add: request_ok_def demo_request_def zero_request_def demo_raw_def int64_def)
  show "null_data (demo_request [demo_raw 2 10, demo_raw 6 20]) = demo_request [demo_raw 2 10, demo_raw 6 20]"
    by (simp add: null_data_def null_event_def demo_request_def demo_raw_def)
qed

theorem public_replay_hides_console_witness:
  "\<exists>st es. st = fold (serve demo_engine) [WorkerRound] demo_queued \<and> length (t_events st) = 2
     \<and> snd (GetPublicEvents demo_engine (js ''t'') st) = Inr es \<and> map e_type es = [2]"
proof -
  let ?req = "demo_request [demo_raw 2 10, demo_raw 6 20]"
  define st where "st = fold (serve demo_engine) [WorkerRound] demo_queued"
  have f: "fresh_server demo_queued" by (simp add: fresh_server_def demo_queued_def demo_server_def)
  have "token_free ?req (demo_queued\<lparr>sv_queue := [], sv_pending := [(0, marshal_request ?req)]\<rparr>)"
    by (simp add: token_free_def demo_queued_def demo_server_def)
  from process_healthy [OF demo_healthy this, of 0] obtain n where
    st: "st = Ack demo_engine 0 (demo_queued\<lparr>sv_queue := [], sv_pending := [(0, marshal_request ?req)],
      sv_ops := n, t_sessions := ingest_rows ?req 0 [], t_events := new_events demo_engine 0 0 ?req, sv_uuids := 2\<rparr>)"
    using marshal_round_trip [OF demo_request_ok(1)]
    by (auto simp: st_def runWorker_def handle_message_def demo_request_ok(2) demo_queued_def demo_server_def numeral_2_eq_2)
  have ev: "t_events st = new_events demo_engine 0 0 ?req" and ss: "t_sessions st = ingest_rows ?req 0 []"
    by (simp_all add: st)
  obtain row where row: "row_of (js ''s'') st = Some row" "s_share_token row = Some (js ''t'')" "s_id row = js ''s''"
    using ingest_row [where req = ?req and st = demo_server and now = 0]
    by (auto simp: row_of_def ss demo_server_def token_after_def)
  have "row \<in> set (t_sessions st)" using row(1) by (auto simp: row_of_def dest: find_Some_id)
  then obtain r where r: "find (\<lambda>r. s_share_token r = Some (js ''t'')) (t_sessions st) = Some r"
    using row(2) by (cases "find (\<lambda>r. s_share_token r = Some (js ''t'')) (t_sessions st)") (auto simp: find_None_iff)
  obtain st' es where g: "GetPublicEvents demo_engine (js ''t'') st = (st', Inr es)"
    using r by (simp add: GetPublicEvents_def GetByShareToken_def GetEvents_def db_op_healthy [OF demo_healthy])
  from public_replay_hides_console [OF f st_def demo_engine_contract g] obtain q where
    q: "q \<in> set (t_sessions st)" "s_share_token q = Some (js ''t'')"
      "\<forall>r'\<in>set (t_sessions st). s_share_token r' = Some (js ''t'') \<longrightarrow> s_id r' = s_id q"
      "mset es = filter_mset (\<lambda>e. e_type e \<noteq> 6) (mset (session_events (s_id q) st))" by blast
  have "s_id q = js ''s''" using q(3) row(2,3) \<open>row \<in> set (t_sessions st)\<close> by metis
  then have "mset (map e_type es) = {#2#}"
    using q(4) by (simp add: session_events_def ev new_events_def demo_raw_def)
  then have "map e_type es = [2]" by (rule mset_single_iff [THEN iffD1])
  then show ?thesis using g ev by (intro exI [of _ st] exI [of _ es]) (simp add: st_def)
qed

theorem accepted_batch_kept_witness:
  "\<exists>st1 n now. writer_Ingest demo_engine (stringify (marshal_request (demo_request [demo_raw 2 10, demo_raw 6 20])))
       demo_server = (st1, 204)
     \<and> suffix (new_events demo_engine n now (demo_request [demo_raw 2 10, demo_raw 6 20])) (t_events (runWorker demo_engine st1))"
proof -
  let ?req = "demo_request [demo_raw 2 10, demo_raw 6 20]"
  have "json_ok (marshal_request ?req)"
    by (simp add: marshal_request_def demo_raw_def event_json_def)
  from json_round_trip [OF this] have p: "json_parse (stringify (marshal_request ?req)) = Inr (marshal_request ?req)" .
  have u: "unmarshal_request (marshal_request ?req) = Inr ?req"
    using marshal_round_trip [OF demo_request_ok(1)] by (simp add: demo_request_ok(2))
  have "binding_ok ?req" by (simp add: binding_ok_def demo_request_def zero_request_def)
  with p u obtain st1 where w: "writer_Ingest demo_engine (stringify (marshal_request ?req)) demo_server = (st1, 204)"
    by (simp add: writer_Ingest_def Enqueue_def demo_engine_def Let_def)
  have "sv_queue demo_server = []" "\<forall>m\<in>set (sv_pending demo_server). fst m \<noteq> sv_messages demo_server"
    by (simp_all add: demo_server_def)
  from accepted_batch_kept [OF this(1) w refl this(2)] p u
  have "(\<exists>n now. suffix (new_events demo_engine n now ?req) (t_events (runWorker demo_engine st1)))
      \<or> kept_for_retry ?req 4 (runWorker demo_engine st1)"
    using demo_healthy by (auto simp: demo_request_ok(2) healthy_def)
  moreover have "t_failed (runWorker demo_engine st1) = []"
  proof -
    have "st1 = demo_server\<lparr>sv_messages := 1, sv_queue := [(0, marshal_request ?req)]\<rparr>"
      using w p u \<open>binding_ok ?req\<close> by (auto simp: writer_Ingest_def Enqueue_def demo_engine_def demo_server_def Let_def)
    moreover have "token_free ?req (demo_server\<lparr>sv_messages := 1, sv_queue := [], sv_pending := [(0, marshal_request ?req)]\<rparr>)"
      by (simp add: token_free_def demo_server_def)
    note process_healthy [OF demo_healthy this, of 0]
    ultimately show ?thesis by (auto simp: runWorker_def handle_message_def u demo_server_def)
  qed
  ultimately show ?thesis using w by (auto simp: kept_for_retry_def)
qed

end
