(* ===== verification/RecorderTypes.thy ===== *)
theory RecorderTypes
  imports RecorderInv
begin

text \<open>
  The types the SDK declares, at run time. \<open>session.ts\<close> gives what it parses from
  \<open>sessionStorage\<close> the type \<open>StoredSession\<close> without looking, so the declared types of the
  module's variables and of the batches are a claim about every state the recorder reaches:
  here they are a predicate on states that every operation keeps.
\<close>

section \<open>The declared types as predicates\<close>

text \<open>\<open>string | null\<close>\<close>

definition string_or_null :: "jsval \<Rightarrow> bool" where
  "string_or_null v \<longleftrightarrow> v = JNull \<or> is_str v"

text \<open>
  \<open>StoredSession\<close>, as far as the SDK reads it: sessions stored before share tokens existed
  have no \<open>shareToken\<close>.
\<close>

definition stored_typed :: "jsval \<Rightarrow> bool" where
  "stored_typed v \<longleftrightarrow> (\<forall>k\<in>{js ''id'', js ''shareToken''}. truthy (js_opt_get v k) \<longrightarrow> is_str (js_opt_get v k))"

definition store_typed :: "storage \<Rightarrow> bool" where
  "store_typed s \<longleftrightarrow>
     (\<forall>raw v. st_items s SESSION_KEY = Some raw \<longrightarrow> json_parse raw = Inr v \<longrightarrow> stored_typed v)"

text \<open>\<open>BatchPayload\<close>; events and device metadata are such that JSON carries them unchanged.\<close>

definition payload_typed :: "BatchPayload \<Rightarrow> bool" where
  "payload_typed p \<longleftrightarrow> is_str (pl_session_id p) \<and> is_str (pl_identifier p)
     \<and> (pl_share_token p = JUndef \<or> is_str (pl_share_token p))
     \<and> (case pl_client p of None \<Rightarrow> True | Some m \<Rightarrow> client_ok m)
     \<and> (\<forall>e\<in>set (pl_events p). event_ok e)"

text \<open>The times a \<open>Date\<close> can represent.\<close>

definition date_range :: "int \<Rightarrow> bool" where
  "date_range t \<longleftrightarrow> \<bar>t\<bar> \<le> 8640000000000000"

text \<open>What the page gives the SDK, and what the SDK keeps and sends.\<close>

definition page_typed :: "sdk \<Rightarrow> bool" where
  "page_typed st \<longleftrightarrow> date_range (clock st) \<and> store_typed (session_store st)
     \<and> client_ok (collectClientMeta (ambient_env st))"

definition vars_typed :: "sdk \<Rightarrow> bool" where
  "vars_typed st \<longleftrightarrow> string_or_null (m_sessionId st) \<and> string_or_null (m_shareToken st)
     \<and> (case m_clientMeta st of None \<Rightarrow> True | Some m \<Rightarrow> client_ok m)"

definition segs_ok :: "RawEvent list list \<Rightarrow> bool" where
  "segs_ok segs \<longleftrightarrow> (\<forall>seg\<in>set segs. \<forall>e\<in>set seg. event_ok e)"

definition events_typed :: "sdk \<Rightarrow> bool" where
  "events_typed st \<longleftrightarrow> (\<forall>e\<in>set (m_buffer st). event_ok e) \<and> segs_ok (m_segments st)"

definition sent_typed :: "sdk \<Rightarrow> bool" where
  "sent_typed st \<longleftrightarrow> (\<forall>u\<in>set (sent st). payload_typed (up_payload u))"

definition sdk_typed :: "sdk \<Rightarrow> bool" where
  "sdk_typed st \<longleftrightarrow> page_typed st \<and> vars_typed st \<and> events_typed st \<and> sent_typed st"

lemmas sdk_typed_defs = sdk_typed_def page_typed_def vars_typed_def events_typed_def sent_typed_def

fun op_typed :: "sdk_op \<Rightarrow> bool" where
  "op_typed (Emit h e co) = event_ok e"
| "op_typed (ClockTo t) = date_range t"
| "op_typed _ = True"


section \<open>Sessions\<close>

lemma session_json_typed: "is_str i \<Longrightarrow> is_str t \<Longrightarrow> stored_typed (session_json i t e)"
  by (auto simp: stored_typed_def session_json_def js_opt_get_def)

lemma save_session_typed:
  assumes "store_typed (session_store b)" and "date_range (clock b)" and "is_str i" and "is_str t"
  shows "store_typed (session_store (fst (save_session i t b)))"
proof (cases "storage_ok b")
  case True
  obtain i' t' where s: "i = JStr i'" "t = JStr t'" using assms(3,4) by (cases i; cases t) simp_all
  have "\<bar>clock b + SESSION_TTL_MS\<bar> < 10 ^ 21"
    using assms(2) by (simp add: date_range_def SESSION_TTL_MS_def)
  from json_round_trip [OF json_ok_session [OF this, of i' t']] session_json_typed [OF assms(3,4)] True
  show ?thesis by (auto simp: store_typed_def save_session_def setItem_def storage_ok_def s)
next
  case False
  with assms(1) show ?thesis by (simp add: save_session_blocked)
qed

lemma read_stored_typed:
  assumes "store_typed s" and "st_items s SESSION_KEY = Some raw" and "read_stored now raw = Inr (Some v)"
  shows "stored_typed v \<and> is_str (js_opt_get v (js ''id''))"
proof -
  have "json_parse raw = Inr v"
    using assms(3) by (auto simp: read_stored_def bindR_eq_Inr split: if_splits)
  then have "stored_typed v" using assms(1,2) by (simp add: store_typed_def)
  with read_stored_id [OF assms(3)] show ?thesis by (simp add: stored_typed_def)
qed

lemma pick_token_typed:
  "stored_typed v \<Longrightarrow> pick_token uuid v b = (b', Inr tok) \<Longrightarrow> is_str tok"
  by (auto simp: stored_typed_def pick_token_def Let_def generateId_def split: if_splits)

definition handle_typed :: "SessionHandle \<Rightarrow> bool" where
  "handle_typed h \<longleftrightarrow> is_str (h_id h) \<and> is_str (h_shareToken h)"

lemma resume_stored_typed:
  assumes "resume_stored uuid v b = (b1, r)" and "stored_typed v" and "is_str (js_opt_get v (js ''id''))"
    and "store_typed (session_store b)" and "date_range (clock b)"
  shows "store_typed (session_store b1) \<and> (\<forall>h. r = Inr (Some h) \<longrightarrow> handle_typed h)"
proof -
  obtain c t where c: "pick_token uuid v b = (c, t)" by fastforce
  note fr = pick_token_frame [OF c]
  show ?thesis
  proof (cases t)
    case (Inl e)
    with assms c fr show ?thesis by (auto simp: resume_stored_def)
  next
    case (Inr tok)
    have tok: "is_str tok" using pick_token_typed [OF assms(2)] c Inr by simp
    have "store_typed (session_store (fst (save_session (js_opt_get v (js ''id'')) tok c)))"
      by (intro save_session_typed) (use assms(3-5) tok fr in simp_all)
    with assms(1,3) c Inr tok show ?thesis
      by (auto simp: resume_stored_def Let_def handle_typed_def split: prod.splits sum.splits)
  qed
qed

lemma try_resume_typed:
  assumes "try_resume uuid b = (b1, r)" and "store_typed (session_store b)" and "date_range (clock b)"
  shows "store_typed (session_store b1) \<and> (\<forall>h. r = Inr (Some h) \<longrightarrow> handle_typed h)"
proof -
  consider "b1 = b" "\<forall>h. r \<noteq> Inr (Some h)"
    | raw v where "st_items (session_store b) SESSION_KEY = Some raw"
        "read_stored (clock b) raw = Inr (Some v)" "resume_stored uuid v b = (b1, r)"
    using assms(1) by (auto simp: try_resume_def getItem_def split: sum.splits option.splits if_splits)
  then show ?thesis
  proof cases
    case 1
    with assms(2) show ?thesis by simp
  next
    case 2
    from read_stored_typed [OF assms(2) 2(1,2)] resume_stored_typed [OF 2(3)] assms(2,3)
    show ?thesis by simp
  qed
qed

lemma fresh_session_typed:
  assumes "fresh_session uuid b = (b1, r)" and "store_typed (session_store b)" and "date_range (clock b)"
  shows "store_typed (session_store b1) \<and> (\<forall>h. r = Inr h \<longrightarrow> handle_typed h)"
proof (cases "has_uuid b")
  case True
  let ?b = "b\<lparr>uuids_used := Suc (Suc (uuids_used b))\<rparr>"
  have "store_typed (session_store ?b)" "date_range (clock ?b)" using assms(2,3) by simp_all
  from save_session_typed [OF this, of "JStr x" "JStr y" for x y] True assms(1) show ?thesis
    by (auto simp: fresh_session_def generateId_def handle_typed_def)
next
  case False
  with assms show ?thesis by (auto simp: fresh_session_def generateId_def)
qed

lemma getOrCreateSession_typed:
  assumes "getOrCreateSession uuid b = (b1, r)" and "store_typed (session_store b)" and "date_range (clock b)"
  shows "store_typed (session_store b1) \<and> (\<forall>h. r = Inr h \<longrightarrow> handle_typed h)"
proof -
  obtain c q where q: "try_resume uuid b = (c, q)" by fastforce
  note c = try_resume_typed [OF q assms(2,3)]
  show ?thesis
  proof (cases "\<exists>h. q = Inr (Some h)")
    case True
    with c q assms(1) show ?thesis by (auto simp: getOrCreateSession_def)
  next
    case False
    with q assms(1) have "fresh_session uuid c = (b1, r)"
      by (auto simp: getOrCreateSession_def split: sum.splits option.splits)
    from fresh_session_typed [OF this] c try_resume_frame [OF q] False assms(3) show ?thesis by auto
  qed
qed


section \<open>Every operation keeps the types\<close>

lemma batch_typed:
  assumes "string_or_null sid" and "truthy sid" and "string_or_null tok"
    and "case cl of None \<Rightarrow> True | Some m \<Rightarrow> client_ok m" and "\<forall>e\<in>set evs. event_ok e"
  shows "payload_typed (batch_of c sid tok cl trig evs)"
  using assms by (cases sid; cases tok)
    (auto simp: payload_typed_def batch_of_def string_or_null_def split: option.split)

lemma upload_typed:
  assumes "sdk_typed st" and "\<forall>e\<in>set evs. event_ok e"
  shows "sdk_typed (upload evs tr ka st)"
proof (cases "m_config st = None \<or> \<not> truthy (m_sessionId st)")
  case True
  with assms(1) show ?thesis by (auto simp: upload_def split: option.split)
next
  case False
  then obtain c where c: "m_config st = Some c" "truthy (m_sessionId st)" by auto
  have "payload_typed (batch_of c (m_sessionId st) (m_shareToken st)
      (if m_clientMetaSent st then None else m_clientMeta st) tr evs)"
    by (rule batch_typed) (use assms c in \<open>auto simp: sdk_typed_defs\<close>)
  with assms c show ?thesis by (auto simp: upload_def Let_def sdk_typed_defs)
qed

lemma flush_typed: "sdk_typed st \<Longrightarrow> sdk_typed (flush f ka st)"
  using upload_typed [of "st\<lparr>m_buffer := []\<rparr>" "m_buffer st"]
  by (auto simp: flush_def sdk_typed_defs split: option.split)

lemma uploadBuffer_typed: "sdk_typed st \<Longrightarrow> sdk_typed (uploadBuffer tr ka st)"
  using upload_typed [of st "concat (m_segments st)"]
  by (auto simp: uploadBuffer_def Let_def sdk_typed_def events_typed_def segs_ok_def)

lemma report_typed: "sdk_typed st \<Longrightarrow> sdk_typed (fst (report st))"
  by (simp add: report_def Let_def flush_typed uploadBuffer_typed)

lemma sdk_typed_update [simp]:
  "sdk_typed (st\<lparr>widgets := ws\<rparr>) = sdk_typed st"
  "sdk_typed (st\<lparr>recordings := rs\<rparr>) = sdk_typed st"
  "sdk_typed (st\<lparr>page_hidden := hid\<rparr>) = sdk_typed st"
  by (simp_all add: sdk_typed_defs)

lemma widget_click_typed: "sdk_typed st \<Longrightarrow> sdk_typed (widget_click h st)"
  using report_typed [of st] by (cases rule: widget_click_cases [of h st]) simp_all

lemma segs_ok_prune: "segs_ok segs \<Longrightarrow> segs_ok (prune cutoff segs)"
  by (induction cutoff segs rule: prune.induct) (auto simp: segs_ok_def split: list.splits)

lemma segs_ok_push: "segs_ok segs \<Longrightarrow> event_ok e \<Longrightarrow> segs_ok (push_last e segs)"
  by (auto simp: push_last_def segs_ok_def dest: in_set_butlastD)

lemma segs_ok_snoc: "segs_ok segs \<Longrightarrow> event_ok e \<Longrightarrow> segs_ok (segs @ [[e]])"
  by (auto simp: segs_ok_def)

lemma emit_buffered_typed:
  assumes "sdk_typed st" and "event_ok e"
  shows "sdk_typed (emit_buffered e co st)"
  using assms
  by (simp add: emit_buffered_def pruneSegments_def sdk_typed_defs segs_ok_prune segs_ok_push segs_ok_snoc)

lemma emit_always_typed:
  assumes "sdk_typed st" and "event_ok e"
  shows "sdk_typed (emit_always h rc e st)"
proof -
  have "sdk_typed (st\<lparr>m_buffer := m_buffer st @ [e]\<rparr>)"
    using assms by (simp add: sdk_typed_defs ball_Un)
  then show ?thesis
    using assms by (simp add: emit_always_def Let_def flush_typed upload_typed)
qed

lemma emit_typed: "sdk_typed st \<Longrightarrow> event_ok e \<Longrightarrow> sdk_typed (emit h e co st)"
  by (simp add: emit_def emit_buffered_typed emit_always_typed split: option.split)

lemma stop_typed:
  assumes "sdk_typed st"
  shows "sdk_typed (stop st)"
proof -
  define st1 where "st1 = st\<lparr>intervals := drop_handle (m_flushTimer st) (intervals st),
      recordings := drop_handle (m_stopRecording st) (recordings st),
      widgets := drop_handle (m_unmountWidget st) (widgets st),
      listeners := listeners st - {OnVisibilityChange, OnBeforeUnload, OnErrorEvent, OnUnhandledRejection}\<rparr>"
  define st2 where "st2 = (if \<not> isBuffered st1 then flush True False st1 else st1)"
  have "sdk_typed st1" using assms by (simp add: st1_def sdk_typed_defs)
  then have "sdk_typed st2" by (simp add: st2_def flush_typed)
  then show ?thesis
    by (simp add: stop_def st1_def [symmetric] st2_def [symmetric] Let_def)
       (simp add: sdk_typed_defs string_or_null_def segs_ok_def)
qed

lemma start_typed [simp]:
  "sdk_typed (start_recording rc st) = sdk_typed st"
  "sdk_typed (start_buffered c st) = sdk_typed st"
  "sdk_typed (start_always c st) = sdk_typed st"
  "sdk_typed (fst (mount c st)) = sdk_typed st"
  by (simp_all add: start_buffered_def start_always_def start_recording_def mount_def Let_def sdk_typed_defs
      split: sum.split)

lemma init_typed:
  assumes "sdk_typed st"
  shows "sdk_typed (fst (init uuid c st))"
proof (cases "m_initialized st")
  case True
  with assms show ?thesis by (simp add: init_def)
next
  case False
  let ?st0 = "st\<lparr>m_initialized := True, m_config := Some c\<rparr>"
  obtain st1 r where r: "getOrCreateSession uuid ?st0 = (st1, r)" by fastforce
  have "store_typed (session_store ?st0)" "date_range (clock ?st0)"
    using assms by (simp_all add: sdk_typed_defs)
  note h = getOrCreateSession_typed [OF r this]
  have "sdk_typed ?st0" using assms by (simp add: sdk_typed_defs)
  moreover have "m_shareToken st1 = m_shareToken st" "m_clientMeta st1 = m_clientMeta st"
    using getOrCreateSession_more [OF r] by (cases st1; cases st; simp)+
  ultimately have st1: "sdk_typed st1"
    using session_frame [OF r] getOrCreateSession_clock [OF r] h by (simp add: sdk_typed_defs)
  show ?thesis
  proof (cases r)
    case (Inl e)
    with st1 r False show ?thesis by (simp add: init_def)
  next
    case (Inr x)
    have "sdk_typed (st1\<lparr>m_sessionId := h_id x, m_shareToken := h_shareToken x,
        m_clientMeta := (if captureClientMetadata c = Some False then None
                         else Some (collectClientMeta (ambient_env st1))),
        m_clientMetaSent := False\<rparr>)"
      using st1 h Inr by (simp add: sdk_typed_defs handle_typed_def string_or_null_def)
    with r Inr False show ?thesis by (simp add: init_def Let_def)
  qed
qed

lemma exec_typed:
  assumes "sdk_typed st" and "op_typed op"
  shows "sdk_typed (exec uuid op st)"
proof (cases op)
  case (Identify i)
  with assms(1) show ?thesis by (simp add: identify_def sdk_typed_defs split: option.split)
next
  case (ClockTo t)
  with assms show ?thesis by (simp add: sdk_typed_defs)
qed (use assms in \<open>simp_all add: init_typed emit_typed flush_typed report_typed widget_click_typed stop_typed
      uploadBuffer_typed on_listener_def onVisibilityChange_def onBeforeUnload_def onError_def\<close>)

text \<open>The recorder driven by operations of the right types, as an invariant system.\<close>

inductive typed_step :: "(nat \<Rightarrow> jsstr) \<Rightarrow> sdk \<Rightarrow> sdk \<Rightarrow> bool" for uuid where
  "op_typed op \<Longrightarrow> typed_step uuid st (exec uuid op st)"

inductive_cases typed_stepE: "typed_step uuid st st'"

interpretation typed: invariant_system "\<lambda>st. page_loaded st \<and> page_typed st" "typed_step uuid" sdk_typed for uuid
proof unfold_locales
  fix st
  assume "page_loaded st \<and> page_typed st"
  then show "sdk_typed st"
    by (simp add: page_loaded_def idle_def sdk_typed_def vars_typed_def events_typed_def sent_typed_def
        string_or_null_def segs_ok_def)
next
  fix st st'
  assume "sdk_typed st" and "typed_step uuid st st'"
  then show "sdk_typed st'" by (auto elim: typed_stepE intro: exec_typed)
qed

lemma run_typed_steps: "\<forall>op\<in>set ops. op_typed op \<Longrightarrow> (typed_step uuid)\<^sup>*\<^sup>* st (run uuid ops st)"
proof (induction ops rule: rev_induct)
  case (snoc op ops)
  then show ?case by (auto simp: run_snoc intro: rtranclp.rtrancl_into_rtrancl typed_step.intros)
qed simp

lemma report_result_typed:
  assumes "vars_typed st"
  shows "\<exists>sid tok url. snd (report st) = Inr \<lparr>rr_sessionId = JStr sid, rr_shareToken = JStr tok, rr_shareUrl = url\<rparr>"
proof -
  have "\<exists>s. js_or_else v (JStr []) = JStr s" if "string_or_null v" for v
    using that by (cases v) (auto simp: string_or_null_def js_or_else_def nullish_def)
  then obtain sid tok where "js_or_else (m_sessionId st) (JStr []) = JStr sid"
    "js_or_else (m_shareToken st) (JStr []) = JStr tok"
    using assms by (meson vars_typed_def)
  then show ?thesis by (simp add: report_def shareUrl_def Let_def)
qed

lemma payload_typed_ok: "payload_typed p \<Longrightarrow> payload_ok p"
  by (cases "pl_session_id p"; cases "pl_identifier p"; cases "pl_share_token p")
     (auto simp: payload_typed_def payload_ok_def)

text \<open>
  Property C10 (declared types). Let the page be loaded with a storage that is empty, holds
  text that is no JSON, or a session whose identifier and share token, where present, are
  strings. Then in every state the recorder reaches, whatever the host, the timers and the
  user do, \<open>_sessionId\<close> and \<open>_shareToken\<close> are strings or \<open>null\<close>, \<open>report()\<close> does not throw and
  returns strings, and every batch ever sent has the type \<open>BatchPayload\<close>: session and identifier are
  strings, the share token is a string or missing, and the events and device metadata are
  carried by JSON unchanged. What stands in the storage afterwards is such a session again,
  so that the next page starts in the same way.
\<close>

theorem uploads_well_typed:
  assumes "page_loaded st0" and "page_typed st0" and "\<forall>op\<in>set ops. op_typed op"
    and "st = run uuid ops st0"
  shows "string_or_null (m_sessionId st) \<and> string_or_null (m_shareToken st)
    \<and> (\<exists>sid tok url. snd (report st) = Inr \<lparr>rr_sessionId = JStr sid, rr_shareToken = JStr tok, rr_shareUrl = url\<rparr>)
    \<and> (\<forall>u\<in>set (sent st). payload_typed (up_payload u) \<and> payload_ok (up_payload u))
    \<and> page_typed st"
proof -
  have "sdk_typed st"
    unfolding assms(4) by (rule typed.reachable_inv [OF _ run_typed_steps]) (use assms in simp_all)
  then show ?thesis
    by (auto simp: sdk_typed_def sent_typed_def report_result_typed payload_typed_ok)
       (auto simp: vars_typed_def)
qed

lemma demo_page_typed: "page_typed demo_page"
  by (simp add: page_typed_def demo_page_def date_range_def store_typed_def empty_storage_def
      collectClientMeta_def client_ok_def)

theorem uploads_well_typed_witness:
  "list_all (\<lambda>u. payload_typed (up_payload u))
     (sent (run demo_uuid [Init demo_config, Emit 0 (demo_event 2 1000) True, Report] demo_page))
   \<and> sent (run demo_uuid [Init demo_config, Emit 0 (demo_event 2 1000) True, Report] demo_page) \<noteq> []"
proof
  let ?ops = "[Init demo_config, Emit 0 (demo_event 2 1000) True, Report]"
  have "\<forall>op\<in>set ?ops. op_typed op"
    by (simp add: event_ok_def demo_event_def)
  from uploads_well_typed [OF demo_page_loaded demo_page_typed this refl, of demo_uuid]
  show "list_all (\<lambda>u. payload_typed (up_payload u)) (sent (run demo_uuid ?ops demo_page))"
    unfolding list_all_iff by blast
  show "sent (run demo_uuid ?ops demo_page) \<noteq> []"
    using demo_session [of demo_config]
    by (simp add: run_def init_def demo_page_def isBuffered_def demo_config_def start_buffered_def
        start_recording_def mount_def mountWidget_def Let_def emit_def emit_buffered_def pruneSegments_def
        report_def uploadBuffer_def upload_def)
qed

end
