(* ===== verification/RecorderSettings.thy ===== *)
theory RecorderSettings
  imports RecorderInv
begin

text \<open>
  The configuration at work: the privacy options an active recording was started with, and whom
  and what every upload names.
\<close>

section \<open>Privacy options\<close>

definition options_of_config :: "recording \<Rightarrow> bool" where
  "options_of_config rc \<longleftrightarrow> rc_privacy rc = privacyOptions (rc_config rc)
     \<and> rc_plugins rc = buildPlugins (rc_config rc)"

definition consent_inv :: "sdk \<Rightarrow> bool" where
  "consent_inv st \<longleftrightarrow> (\<forall>hr\<in>set (recordings st). options_of_config (snd hr))
     \<and> (\<forall>c. m_config st = Some c \<longrightarrow> captureClientMetadata c = Some False \<longrightarrow> m_clientMeta st = None)"

lemma consent_cong:
  assumes "consent_inv st" and "recordings st' = recordings st" and "m_config st' = m_config st"
    and "m_clientMeta st' = m_clientMeta st"
  shows "consent_inv st'"
  using assms by (simp add: consent_inv_def)

lemma consent_uploads [simp]:
  "consent_inv (upload evs tr ka st) = consent_inv st"
  "consent_inv (flush f ka st) = consent_inv st"
  "consent_inv (uploadBuffer tr ka st) = consent_inv st"
  "consent_inv (fst (report st)) = consent_inv st"
  "consent_inv (st\<lparr>widgets := ws\<rparr>) = consent_inv st"
  "consent_inv (st\<lparr>page_hidden := hid\<rparr>) = consent_inv st"
  "consent_inv (st\<lparr>m_buffer := buf\<rparr>) = consent_inv st"
  "consent_inv (st\<lparr>m_segments := segs\<rparr>) = consent_inv st"
  "consent_inv (st\<lparr>clock := t\<rparr>) = consent_inv st"
  by (simp_all add: consent_inv_def report_def Let_def)

lemma consent_widget_click: "consent_inv st \<Longrightarrow> consent_inv (widget_click h st)"
  by (cases rule: widget_click_cases [of h st]) simp_all

lemma consent_snapshot_seen:
  "consent_inv st \<Longrightarrow> consent_inv (st\<lparr>recordings := set_snapshot_seen h (recordings st)\<rparr>)"
  by (auto simp: consent_inv_def set_snapshot_seen_def options_of_config_def)

lemma consent_emit: "consent_inv st \<Longrightarrow> consent_inv (emit h e co st)"
  by (simp add: emit_def emit_buffered_def emit_always_def pruneSegments_def Let_def consent_snapshot_seen
      split: option.split)

lemma consent_identify: "consent_inv st \<Longrightarrow> consent_inv (identify i st)"
  by (simp add: identify_def consent_inv_def split: option.split)

lemma consent_stop: "sdk_inv st \<Longrightarrow> consent_inv (stop st)"
  using stop_idle(1) [of st] by (simp add: consent_inv_def idle_def)

lemma consent_start:
  assumes "consent_inv st"
  shows "consent_inv (start_buffered c st)" and "consent_inv (start_always c st)"
    and "consent_inv (fst (mount c st))"
  using assms
  by (simp_all add: start_buffered_def start_always_def start_recording_def mount_def Let_def consent_inv_def
      options_of_config_def split: sum.split)

lemma consent_init:
  assumes "sdk_inv st" and "consent_inv st"
  shows "consent_inv (fst (init uuid c st))"
proof (cases "m_initialized st")
  case True
  with assms show ?thesis by (simp add: init_def)
next
  case False
  let ?st0 = "st\<lparr>m_initialized := True, m_config := Some c\<rparr>"
  obtain st1 r where r: "getOrCreateSession uuid ?st0 = (st1, r)" by fastforce
  have cm: "m_clientMeta st1 = m_clientMeta st"
    using getOrCreateSession_more [OF r] by (cases st1; cases st; simp)
  have e: "recordings st = []" "m_clientMeta st = None"
    using assms(1) False by (simp_all add: sdk_inv_def settings_inv_def idle_def)
  show ?thesis
  proof (cases r)
    case (Inl x)
    with r False e cm session_frame(2) [OF r] show ?thesis by (simp add: init_def consent_inv_def)
  next
    case (Inr x)
    have "consent_inv (st1\<lparr>m_sessionId := h_id x, m_shareToken := h_shareToken x,
        m_clientMeta := (if captureClientMetadata c = Some False then None
                         else Some (collectClientMeta (ambient_env st1))),
        m_clientMetaSent := False\<rparr>)"
      using e session_frame(2,7) [OF r] by (simp add: consent_inv_def)
    with r Inr False show ?thesis by (simp add: init_def Let_def consent_start)
  qed
qed

lemma exec_consent: "sdk_inv st \<Longrightarrow> consent_inv st \<Longrightarrow> consent_inv (exec uuid op st)"
  by (cases op)
     (simp_all add: consent_init consent_emit consent_widget_click consent_identify consent_stop
       on_listener_def onVisibilityChange_def onBeforeUnload_def onError_def)

interpretation consent: invariant_system page_loaded "sdk_step uuid" "\<lambda>st. sdk_inv st \<and> consent_inv st" for uuid
proof unfold_locales
  fix st
  assume "page_loaded st"
  then show "sdk_inv st \<and> consent_inv st"
    by (simp add: sdk.init_inv) (simp add: page_loaded_def idle_def consent_inv_def)
next
  fix st st'
  assume "sdk_inv st \<and> consent_inv st" and "sdk_step uuid st st'"
  then show "sdk_inv st' \<and> consent_inv st'" by (auto elim: sdk_stepE intro: exec_inv exec_consent)
qed

lemma same_settings_options:
  assumes "same_settings c d"
  shows "privacyOptions c = privacyOptions d" and "buildPlugins c = buildPlugins d"
  using assms by (cases c; cases d; simp add: same_settings_def privacyOptions_def buildPlugins_def)+

definition configured_by :: "sdk_op list \<Rightarrow> sdk \<Rightarrow> bool" where
  "configured_by ops st \<longleftrightarrow> (\<forall>c. m_config st = Some c \<longrightarrow> (\<exists>d. Init d \<in> set ops \<and> same_settings d c))"

lemma configured_exec:
  assumes "configured_by ops st"
  shows "configured_by (ops @ [op]) (exec uuid op st)"
proof -
  have keep: "configured_by (ops @ [op]) st'" if "m_config st' = m_config st \<or> m_config st' = None" for st'
    using assms that by (auto simp: configured_by_def)
  show ?thesis
  proof (cases op)
    case (Init d)
    with init_takes_config [of st uuid d] assms show ?thesis
      by (cases "m_initialized st") (auto simp: configured_by_def init_def)
  next
    case (Identify i)
    with assms show ?thesis
      by (auto simp: configured_by_def identify_def intro: same_settings_identify split: option.splits)
  qed (rule keep; simp add: emit_settings widget_click_settings report_def stop_def on_listener_def onVisibilityChange_def
      onBeforeUnload_def onError_def Let_def split: option.split)+
qed

lemma configured_run: "page_loaded st \<Longrightarrow> configured_by ops (run uuid ops st)"
  by (induction ops rule: rev_induct)
     (simp_all add: run_snoc configured_exec, simp add: configured_by_def page_loaded_def idle_def)

text \<open>
  Property C11 (privacy settings are in force). In every state the recorder reaches, an active recording was
  started with the options of the configuration in force, also after \<open>identify\<close> has changed it, and up to
  the identifier that configuration is one the host gave to \<open>init\<close>: inputs are masked unless
  \<open>maskInputs\<close> is \<open>false\<close>; the class and selector of masked text, of blocked elements and the class of
  ignored ones are those configured; the console plugin is absent where \<open>captureConsole\<close> is absent or
  \<open>false\<close>, captures log, info, warn and error where it is \<open>true\<close>, and exactly the listed levels where
  it is a list; and where \<open>captureClientMetadata\<close> is \<open>false\<close> the SDK holds no device metadata.
\<close>

theorem privacy_settings_in_force:
  assumes "page_loaded st0" and "st = run uuid ops st0" and "(h, rc) \<in> set (recordings st)"
  shows "\<exists>c d. m_config st = Some c \<and> Init d \<in> set ops \<and> c\<lparr>cfg_identifier := None\<rparr> = d\<lparr>cfg_identifier := None\<rparr>
    \<and> rc_privacy rc = \<lparr>pv_maskAllInputs = (maskInputs c \<noteq> Some False),
         pv_maskTextClass = maskTextClass c, pv_maskTextSelector = maskTextSelector c,
         pv_blockClass = blockClass c, pv_blockSelector = blockSelector c, pv_ignoreClass = ignoreClass c\<rparr>
    \<and> rc_plugins rc = (case captureConsole c of None \<Rightarrow> []
         | Some (CaptureAll b) \<Rightarrow> (if b then [[LLog, LInfo, LWarn, LError]] else [])
         | Some (CaptureLevels ls) \<Rightarrow> [ls])
    \<and> (captureClientMetadata c = Some False \<longrightarrow> m_clientMeta st = None)"
proof -
  have i: "sdk_inv st \<and> consent_inv st"
    unfolding assms(2) by (rule consent.reachable_inv [OF assms(1) run_steps])
  with assms(3) have "m_initialized st"
    by (cases "m_initialized st") (auto simp: sdk_inv_def settings_inv_def idle_def)
  with i assms(3) obtain c where c: "m_config st = Some c" "same_settings (rc_config rc) c"
    by (fastforce simp: sdk_inv_def settings_inv_def)
  have o: "rc_privacy rc = privacyOptions c" "rc_plugins rc = buildPlugins c"
    using i assms(3) same_settings_options [OF c(2)] by (auto simp: consent_inv_def options_of_config_def)
  obtain d where d: "Init d \<in> set ops" "same_settings d c"
    using configured_run [OF assms(1), of ops uuid] c(1) assms(2) by (auto simp: configured_by_def)
  have "or_default (maskInputs c) True = (maskInputs c \<noteq> Some False)"
    by (auto simp: or_default_def split: option.split)
  moreover have "buildPlugins c = (case captureConsole c of None \<Rightarrow> []
         | Some (CaptureAll b) \<Rightarrow> (if b then [[LLog, LInfo, LWarn, LError]] else [])
         | Some (CaptureLevels ls) \<Rightarrow> [ls])"
    by (simp add: buildPlugins_def split: option.split capture_console.split bool.split)
  moreover have "captureClientMetadata c = Some False \<longrightarrow> m_clientMeta st = None"
    using i c(1) by (auto simp: consent_inv_def)
  ultimately show ?thesis using c(1) o d
    by (intro exI [of _ c] exI [of _ d]) (simp add: privacyOptions_def same_settings_def)
qed

theorem privacy_settings_in_force_witness:
  "\<exists>h rc. (h, rc) \<in> set (recordings (run demo_uuid [Init (demo_config\<lparr>captureConsole := Some (CaptureLevels [LWarn]),
       blockClass := Some (js ''secret'')\<rparr>), Identify (js ''jane'')] demo_page))
     \<and> pv_maskAllInputs (rc_privacy rc) \<and> pv_blockClass (rc_privacy rc) = Some (js ''secret'')
     \<and> rc_plugins rc = [[LWarn]]"
proof -
  let ?c = "demo_config\<lparr>captureConsole := Some (CaptureLevels [LWarn]), blockClass := Some (js ''secret'')\<rparr>"
  let ?st = "run demo_uuid [Init ?c, Identify (js ''jane'')] demo_page"
  have d: "recordings ?st = [(0, \<lparr>rc_buffered = True, rc_config = ?c, rc_firstSnapshot = True,
      rc_privacy = privacyOptions ?c, rc_checkoutEveryNms = Some CHECKOUT_EVERY_NMS, rc_plugins = buildPlugins ?c\<rparr>)]
    \<and> m_config ?st = Some (?c\<lparr>cfg_identifier := Some (js ''jane'')\<rparr>)"
    using demo_session [of ?c]
    by (simp add: run_def init_def demo_page_def isBuffered_def demo_config_def start_buffered_def
        start_recording_def mount_def mountWidget_def identify_def Let_def)
  then obtain rc where rc: "(0, rc) \<in> set (recordings ?st)" by simp
  from privacy_settings_in_force [OF demo_page_loaded refl rc] d
  have "pv_maskAllInputs (rc_privacy rc) \<and> pv_blockClass (rc_privacy rc) = Some (js ''secret'')
      \<and> rc_plugins rc = [[LWarn]]"
    by (auto simp: demo_config_def)
  with rc show ?thesis by blast
qed


section \<open>What uploads name\<close>

definition names :: "BatRewindConfig \<Rightarrow> jsval \<Rightarrow> jsval \<Rightarrow> sent_upload \<Rightarrow> bool" where
  "names c sid tok u \<longleftrightarrow> up_endpoint u = endpoint c \<and> up_apiKey u = apiKey c
     \<and> pl_session_id (up_payload u) = sid \<and> pl_share_token (up_payload u) = js_or_else tok JUndef
     \<and> pl_identifier (up_payload u) = (case cfg_identifier c of Some i \<Rightarrow> JStr i | None \<Rightarrow> sid)"

definition attributed :: "sent_upload list \<Rightarrow> BatRewindConfig \<Rightarrow> jsval \<Rightarrow> jsval \<Rightarrow> sdk \<Rightarrow> bool" where
  "attributed base c sid tok st \<longleftrightarrow> m_initialized st \<and> m_config st = Some c \<and> m_sessionId st = sid
     \<and> m_shareToken st = tok \<and> (\<exists>new. sent st = base @ new \<and> (\<forall>u\<in>set new. names c sid tok u))"

lemma attributed_upload: "attributed base c sid tok st \<Longrightarrow> attributed base c sid tok (upload evs tr ka st)"
  by (auto simp: attributed_def upload_def Let_def names_def batch_of_def)

lemma attributed_update [simp]:
  "attributed base c sid tok (st\<lparr>m_buffer := buf\<rparr>) = attributed base c sid tok st"
  "attributed base c sid tok (st\<lparr>m_segments := segs\<rparr>) = attributed base c sid tok st"
  "attributed base c sid tok (st\<lparr>recordings := rs\<rparr>) = attributed base c sid tok st"
  "attributed base c sid tok (st\<lparr>widgets := ws\<rparr>) = attributed base c sid tok st"
  "attributed base c sid tok (st\<lparr>page_hidden := hid\<rparr>) = attributed base c sid tok st"
  "attributed base c sid tok (st\<lparr>clock := t\<rparr>) = attributed base c sid tok st"
  by (simp_all add: attributed_def)

lemma attributed_flush: "attributed base c sid tok st \<Longrightarrow> attributed base c sid tok (flush f ka st)"
  by (simp add: flush_def attributed_upload split: option.split)

lemma attributed_report:
  "attributed base c sid tok st \<Longrightarrow> attributed base c sid tok (uploadBuffer tr ka st)"
  "attributed base c sid tok st \<Longrightarrow> attributed base c sid tok (fst (report st))"
  by (simp_all add: uploadBuffer_def report_def attributed_upload attributed_flush Let_def)

lemma attributed_emit: "attributed base c sid tok st \<Longrightarrow> attributed base c sid tok (emit h e co st)"
  by (simp add: emit_def emit_buffered_def emit_always_def pruneSegments_def Let_def attributed_upload
      attributed_flush split: option.split)

fun ends_attribution :: "sdk_op \<Rightarrow> bool" where
  "ends_attribution Stop = True"
| "ends_attribution (Identify i) = True"
| "ends_attribution _ = False"

lemma attributed_exec:
  assumes "attributed base c sid tok st" and "\<not> ends_attribution op"
  shows "attributed base c sid tok (exec uuid op st)"
proof (cases op)
  case (WidgetClick h)
  then show ?thesis
    using attributed_report(2) [OF assms(1)] assms(1) by (cases rule: widget_click_cases [of h st]) simp_all
next
  case (Init d)
  with assms(1) show ?thesis by (simp add: attributed_def init_def)
qed (use assms in \<open>simp_all add: attributed_emit attributed_flush attributed_report on_listener_def
      onVisibilityChange_def onBeforeUnload_def onError_def\<close>)

lemma attributed_run:
  assumes "attributed base c sid tok st" and "\<forall>op\<in>set ops. \<not> ends_attribution op"
  shows "attributed base c sid tok (run uuid ops st)"
  using assms by (induction ops arbitrary: st) (simp_all add: run_Cons attributed_exec)

text \<open>
  Property C12 (uploads name the session and the user). After \<open>identify\<close>, until the next \<open>identify\<close> or
  \<open>stop\<close>, every upload goes to the configured endpoint with the configured key and
  carries the session, its share token and the new user identifier, whatever causes it; the
  uploads made before are not touched. Without a call of \<open>identify\<close> they name the
  configured identifier, or else the session.
\<close>

theorem uploads_name_session_and_user:
  assumes "page_loaded st0" and "st = run uuid history st0" and "m_initialized st"
    and "\<forall>op\<in>set ops. \<not> ends_attribution op"
  shows "\<exists>c new new'. m_config st = Some c
    \<and> sent (run uuid ops st) = sent st @ new \<and> (\<forall>u\<in>set new. names c (m_sessionId st) (m_shareToken st) u)
    \<and> sent (run uuid ops (identify i st)) = sent st @ new'
    \<and> (\<forall>u\<in>set new'. names (c\<lparr>cfg_identifier := Some i\<rparr>) (m_sessionId st) (m_shareToken st) u
          \<and> pl_identifier (up_payload u) = JStr i)"
proof -
  have "sdk_inv st" using run_inv assms(1,2) by simp
  with assms(3) obtain c where c: "m_config st = Some c" by (auto simp: sdk_inv_def settings_inv_def)
  with assms(3) have "attributed (sent st) c (m_sessionId st) (m_shareToken st) st"
    "attributed (sent st) (c\<lparr>cfg_identifier := Some i\<rparr>) (m_sessionId st) (m_shareToken st) (identify i st)"
    by (simp_all add: attributed_def identify_def)
  then have "attributed (sent st) c (m_sessionId st) (m_shareToken st) (run uuid ops st)"
    "attributed (sent st) (c\<lparr>cfg_identifier := Some i\<rparr>) (m_sessionId st) (m_shareToken st)
       (run uuid ops (identify i st))"
    by (simp_all add: attributed_run [OF _ assms(4)])
  then show ?thesis using c by (auto simp: attributed_def names_def)
qed

theorem uploads_name_session_and_user_witness:
  "\<exists>new. sent (run demo_uuid [Report] (identify (js ''jane'')
       (run demo_uuid [Init demo_config, Emit 0 (demo_event 2 1000) True] demo_page))) = new \<and> new \<noteq> []
     \<and> (\<forall>u\<in>set new. pl_identifier (up_payload u) = jstr ''jane'' \<and> up_apiKey u = js ''rew_x'')"
proof -
  let ?h = "[Init demo_config, Emit 0 (demo_event 2 1000) True]"
  let ?st = "run demo_uuid ?h demo_page"
  have d: "m_initialized ?st" "m_config ?st = Some demo_config" "sent ?st = []"
      "sent (run demo_uuid [Report] (identify (js ''jane'') ?st)) \<noteq> []"
    using demo_session [of demo_config]
    by (simp_all add: run_def init_def demo_page_def isBuffered_def demo_config_def start_buffered_def
        start_recording_def mount_def mountWidget_def Let_def emit_def emit_buffered_def pruneSegments_def
        report_def uploadBuffer_def upload_def identify_def)
  have "\<forall>op\<in>set [Report]. \<not> ends_attribution op" by simp
  from uploads_name_session_and_user [OF demo_page_loaded refl d(1) this, of "js ''jane''"] d show ?thesis
    by (auto simp: names_def demo_config_def)
qed

end
