(* ===== verification/RecorderReport.thy ===== *)
theory RecorderReport
  imports RecorderBuffer
begin

text \<open>
  What the \<open>buffered\<close> mode uploads and returns: reports, uncaught errors, starts that fail, and the
  device metadata of the first upload.
\<close>

section \<open>Reports\<close>

lemma report_link:
  assumes "m_config st = Some c" and "m_sessionId st = JStr i" and "m_shareToken st = JStr t"
  shows "snd (report st) = Inr \<lparr>rr_sessionId = JStr i, rr_shareToken = JStr t,
      rr_shareUrl = strip_slash (or_default (shareBaseUrl c) (endpoint c)) @ js ''/share/'' @ t\<rparr>"
proof -
  let ?st = "if isBuffered st then uploadBuffer Manual False st else flush True False st"
  have "m_config ?st = Some c" "m_sessionId ?st = JStr i" "m_shareToken ?st = JStr t"
    using assms by (auto simp: sdk_frame)
  then show ?thesis by (simp add: report_def Let_def shareUrl_def js_or_else_def nullish_def)
qed

text \<open>
  Property C4 (a report). When the recorder is initialized in \<open>buffered\<close> mode with a session identifier and a
  share token that are non-empty strings, \<open>report\<close> returns the identifier, the token and
  the link \<open><base>/share/<token>\<close>, where the base is \<open>shareBaseUrl\<close> or the endpoint without
  one trailing slash; it hands the transport exactly one batch, with the same identifier
  and the same token, the whole rolling buffer and the trigger \<open>manual\<close>, or none if nothing
  has been recorded; and it keeps the buffer.
\<close>

theorem report_uploads_rewind:
  assumes "m_config st = Some c" and "or_default (cfg_mode c) Buffered = Buffered"
    and "m_sessionId st = JStr i" and "i \<noteq> []" and "m_shareToken st = JStr t" and "t \<noteq> []"
  shows "snd (report st) = Inr \<lparr>rr_sessionId = JStr i, rr_shareToken = JStr t,
      rr_shareUrl = strip_slash (or_default (shareBaseUrl c) (endpoint c)) @ js ''/share/'' @ t\<rparr>
    \<and> m_segments (fst (report st)) = m_segments st
    \<and> (if concat (m_segments st) = [] then sent (fst (report st)) = sent st
       else \<exists>u. sent (fst (report st)) = sent st @ [u] \<and> pl_session_id (up_payload u) = JStr i
        \<and> pl_share_token (up_payload u) = JStr t \<and> pl_trigger (up_payload u) = Manual
        \<and> pl_events (up_payload u) = concat (m_segments st)
        \<and> pl_identifier (up_payload u) = JStr (or_default (cfg_identifier c) i))"
proof -
  have b: "isBuffered st" using assms(1,2) by (simp add: isBuffered_def)
  have run: "fst (report st) = (if concat (m_segments st) = [] then st
      else upload (concat (m_segments st)) Manual False st)"
    using assms(1,3,4) b by (simp add: report_def Let_def uploadBuffer_def del: concat_eq_Nil_conv)
  from report_link [OF assms(1,3,5)] show ?thesis
    using upload_sent [OF assms(1), of "concat (m_segments st)" Manual False] assms(3-6)
    by (simp add: run batch_of_def js_or_else_def nullish_def or_default_def
        del: concat_eq_Nil_conv split: option.split)
qed

definition demo_recorded :: sdk where
  "demo_recorded = demo_page\<lparr>m_initialized := True, m_config := Some demo_config,
     m_sessionId := jstr ''s'', m_shareToken := jstr ''t'', listeners := {OnErrorEvent, OnUnhandledRejection},
     m_segments := [[demo_event 2 1000, demo_event 3 1001]]\<rparr>"

theorem report_uploads_rewind_witness:
  "snd (report demo_recorded) = Inr \<lparr>rr_sessionId = jstr ''s'', rr_shareToken = jstr ''t'',
      rr_shareUrl = js ''http://w/share/t''\<rparr>
   \<and> (\<exists>u. sent (fst (report demo_recorded)) = [u]
        \<and> pl_events (up_payload u) = [demo_event 2 1000, demo_event 3 1001])"
proof -
  have e: "strip_slash (js ''http://w/'') @ js ''/share/'' @ js ''t'' = js ''http://w/share/t''" by code_simp
  show ?thesis
    using report_uploads_rewind [of demo_recorded demo_config "js ''s''" "js ''t''"] e
    by (auto simp: demo_recorded_def demo_page_def demo_config_def)
qed

text \<open>
  Property C33 (capture on error). While an error listener is registered and a session is known, an uncaught error or
  an unhandled rejection uploads the whole rolling buffer, whatever its size, with the
  trigger \<open>error\<close> and with \<open>keepalive\<close>; the buffer is kept, so a second error uploads the
  same events again.
\<close>

theorem errors_upload_whole_buffer:
  assumes "OnErrorEvent \<in> listeners st" and "m_config st = Some c" and "captureOnError c \<noteq> Some False"
    and "truthy (m_sessionId st)" and "concat (m_segments st) \<noteq> []"
  shows "\<exists>u v. sent (run uuid [WindowError, WindowError] st) = sent st @ [u, v]
    \<and> up_keepalive u \<and> pl_trigger (up_payload u) = ErrorTrigger
    \<and> pl_events (up_payload u) = concat (m_segments st) \<and> pl_events (up_payload v) = concat (m_segments st)
    \<and> m_segments (run uuid [WindowError, WindowError] st) = m_segments st"
proof -
  let ?up = "\<lambda>st. upload (concat (m_segments st)) ErrorTrigger True st"
  have one: "exec uuid WindowError st' = ?up st'"
    if "OnErrorEvent \<in> listeners st'" "m_config st' = Some c" "m_segments st' = m_segments st"
      "truthy (m_sessionId st')" for st'
    using that assms(3,5)
    by (simp add: on_listener_def onError_def uploadBuffer_def Let_def del: concat_eq_Nil_conv)
  have run: "run uuid [WindowError, WindowError] st = ?up (?up st)"
    using assms one [of st] one [of "?up st"] by (simp add: run_Cons del: exec.simps)
  show ?thesis
    unfolding run
    using upload_sent [of "?up st" c] upload_sent [of st c] assms(2,4) by (simp add: batch_of_def)
qed

theorem errors_upload_whole_buffer_witness:
  "\<exists>u v. sent (run demo_uuid [WindowError, WindowError] demo_recorded) = [u, v]
     \<and> up_keepalive u \<and> pl_events (up_payload v) = [demo_event 2 1000, demo_event 3 1001]"
  using errors_upload_whole_buffer [of demo_recorded demo_config demo_uuid]
  by (auto simp: demo_recorded_def demo_page_def demo_config_def)


section \<open>A failed start\<close>

lemma exec_initialized:
  assumes "m_initialized st" and "op \<noteq> Stop"
  shows "m_initialized (exec uuid op st)"
  using assms
  by (cases op) (simp_all add: init_def emit_settings widget_click_settings identify_def report_def Let_def
      on_listener_def onVisibilityChange_def onBeforeUnload_def onError_def split: option.split)

lemma run_initialized: "m_initialized st \<Longrightarrow> Stop \<notin> set ops \<Longrightarrow> m_initialized (run uuid ops st)"
  by (induction ops arbitrary: st) (auto simp: run_Cons exec_initialized)

lemma failed_init_initialized:
  assumes "init uuid c st = (st1, Inl e)"
  shows "m_initialized st1"
proof -
  have n: "\<not> m_initialized st" using assms by (auto simp: init_def)
  obtain st2 r where r: "getOrCreateSession uuid (st\<lparr>m_initialized := True, m_config := Some c\<rparr>) = (st2, r)"
    by fastforce
  have "m_initialized st2" using session_frame(10) [OF r] by simp
  with assms n r show ?thesis
    by (cases r) (auto simp: init_def Let_def mount_def start_buffered_def start_always_def
        start_recording_def split: if_splits sum.splits)
qed

text \<open>
  Property C34 (a failed start is not retried). If \<open>init\<close> throws (no \<open>crypto.randomUUID\<close> and no stored
  session, or no \<open>document.body\<close> to mount the widget in), the recorder counts as initialized all the same:
  after any sequence of calls of the host, events, timers and clicks without \<open>stop\<close>, a later \<open>init\<close>,
  whatever its configuration, returns without an error and without doing anything; a call of \<open>stop\<close> at any
  such point ends this, and the next \<open>init\<close> takes its configuration again.
\<close>

theorem failed_init_sticks:
  assumes "init uuid c st = (st1, Inl e)" and "Stop \<notin> set ops" and "st2 = run uuid ops st1"
  shows "m_initialized st2 \<and> init uuid c' st2 = (st2, Inr ())
    \<and> \<not> m_initialized (stop st2) \<and> m_config (fst (init uuid c' (stop st2))) = Some c'"
proof -
  have "m_initialized st2"
    unfolding assms(3) by (rule run_initialized [OF failed_init_initialized [OF assms(1)] assms(2)])
  moreover have n: "\<not> m_initialized (stop st2)" by (simp add: stop_def Let_def)
  ultimately show ?thesis using init_takes_config [OF n] by (simp add: init_def)
qed

theorem failed_init_sticks_witness:
  "\<exists>st1. init demo_uuid demo_config (demo_page\<lparr>has_uuid := False\<rparr>) = (st1, Inl TypeError)
     \<and> init demo_uuid demo_config (run demo_uuid [Identify (js ''jane''), Init demo_config, UnhandledRejection] st1)
         = (run demo_uuid [Identify (js ''jane''), Init demo_config, UnhandledRejection] st1, Inr ())"
proof -
  obtain st1 where i: "init demo_uuid demo_config (demo_page\<lparr>has_uuid := False\<rparr>) = (st1, Inl TypeError)"
    by (simp add: init_def getOrCreateSession_def try_resume_def getItem_def fresh_session_def
        generateId_def demo_page_def empty_storage_def)
  with failed_init_sticks [OF i _ refl, of "[Identify (js ''jane''), Init demo_config, UnhandledRejection]"]
  show ?thesis by auto
qed


section \<open>Device metadata goes out once\<close>

definition clients :: "sent_upload list \<Rightarrow> ClientMeta option list" where
  "clients us = map (\<lambda>u. pl_client (up_payload u)) us"

definition once :: "'a option \<Rightarrow> nat \<Rightarrow> 'a option list" where
  "once m n = (case n of 0 \<Rightarrow> [] | Suc k \<Rightarrow> m # replicate k None)"

definition client_inv :: "ClientMeta option list \<Rightarrow> ClientMeta option \<Rightarrow> sdk \<Rightarrow> bool" where
  "client_inv old m st \<longleftrightarrow> m_initialized st \<and> m_clientMeta st = m \<and> (\<exists>n.
     clients (sent st) = old @ once m n \<and> (m_clientMetaSent st \<longleftrightarrow> n \<noteq> 0 \<and> m \<noteq> None))"

lemma once_Suc: "once m (Suc n) = once m n @ [if n \<noteq> 0 \<and> m \<noteq> None then None else m]"
  by (cases n; cases m) (simp_all add: once_def replicate_append_same)

lemma client_inv_cong:
  "client_inv old m st \<Longrightarrow> m_initialized st' = m_initialized st \<Longrightarrow> m_clientMeta st' = m_clientMeta st
     \<Longrightarrow> sent st' = sent st \<Longrightarrow> m_clientMetaSent st' = m_clientMetaSent st \<Longrightarrow> client_inv old m st'"
  by (simp add: client_inv_def)

lemma client_inv_upload:
  assumes "client_inv old m st"
  shows "client_inv old m (upload evs tr ka st)"
proof (cases "upload evs tr ka st = st")
  case True
  with assms show ?thesis by simp
next
  case False
  then obtain c where c: "m_config st = Some c" "truthy (m_sessionId st)"
    by (auto simp: upload_def split: option.splits if_splits)
  from assms obtain n where n: "clients (sent st) = old @ once m n"
      "m_clientMetaSent st \<longleftrightarrow> n \<noteq> 0 \<and> m \<noteq> None" and m: "m_clientMeta st = m" "m_initialized st"
    by (auto simp: client_inv_def)
  have "clients (sent (upload evs tr ka st)) = old @ once m (Suc n)"
    using n m upload_sent [OF c, of evs tr ka] by (simp add: clients_def once_Suc batch_of_def)
  moreover have "m_clientMetaSent (upload evs tr ka st) \<longleftrightarrow> m \<noteq> None"
    using c n m by (auto simp: upload_def Let_def)
  ultimately show ?thesis using m unfolding client_inv_def by (intro conjI exI [of _ "Suc n"]) simp_all
qed

lemma client_inv_flush: "client_inv old m st \<Longrightarrow> client_inv old m (flush f ka st)"
  using client_inv_upload [of old m "st\<lparr>m_buffer := []\<rparr>"] client_inv_cong [of old m st "st\<lparr>m_buffer := []\<rparr>"]
  by (auto simp: flush_def split: option.split)

lemma client_inv_report: "client_inv old m st \<Longrightarrow> client_inv old m (fst (report st))"
  by (simp add: report_def Let_def uploadBuffer_def client_inv_flush client_inv_upload)

lemma client_inv_emit:
  assumes "client_inv old m st"
  shows "client_inv old m (emit h e co st)"
proof -
  have a: "client_inv old m (st\<lparr>recordings := rs\<rparr>)" "client_inv old m (st\<lparr>m_buffer := buf\<rparr>)"
    "client_inv old m (st\<lparr>m_segments := segs\<rparr>)" for rs buf segs
    by (rule client_inv_cong [OF assms]; simp)+
  then show ?thesis
    using assms by (simp add: emit_def emit_buffered_def emit_always_def pruneSegments_def Let_def
        client_inv_flush client_inv_upload split: option.split)
qed

lemma client_inv_exec:
  assumes "client_inv old m st" and "op \<noteq> Stop"
  shows "client_inv old m (exec uuid op st)"
proof -
  have a: "client_inv old m (st\<lparr>page_hidden := hid\<rparr>)" "client_inv old m (st\<lparr>clock := t\<rparr>)"
    "client_inv old m (identify i st)" for hid t i
    by (rule client_inv_cong [OF assms(1)]; simp add: identify_def split: option.split)+
  have w: "client_inv old m (widget_click h st)" for h
    using client_inv_report [OF assms(1)] assms(1)
    by (cases rule: widget_click_cases [of h st])
       (auto intro: client_inv_cong [of old m "fst (report st)"])
  have "init uuid c st = (st, Inr ())" for c using assms(1) by (simp add: client_inv_def init_def)
  with assms a w show ?thesis
    by (cases op) (simp_all add: client_inv_emit client_inv_flush client_inv_report client_inv_upload
        on_listener_def onVisibilityChange_def onBeforeUnload_def onError_def uploadBuffer_def Let_def)
qed

lemma client_inv_run:
  "client_inv old m st \<Longrightarrow> Stop \<notin> set ops \<Longrightarrow> client_inv old m (run uuid ops st)"
  by (induction ops arbitrary: st) (auto simp: run_Cons client_inv_exec)

lemma init_client_inv:
  assumes "init uuid c st = (st1, Inr ())" and "\<not> m_initialized st"
  shows "client_inv (clients (sent st)) (if captureClientMetadata c = Some False then None
      else Some (collectClientMeta (ambient_env st))) st1"
proof -
  obtain st2 r where r: "getOrCreateSession uuid (st\<lparr>m_initialized := True, m_config := Some c\<rparr>) = (st2, r)"
    by fastforce
  have s: "sent st1 = sent st" using init_sent [of uuid c st] assms(1) by simp
  obtain h where h: "r = Inr h" using assms r by (cases r) (auto simp: init_def)
  have "m_initialized st1" "\<not> m_clientMetaSent st1"
    "m_clientMeta st1 = (if captureClientMetadata c = Some False then None
      else Some (collectClientMeta (ambient_env st)))"
    using assms r h session_frame [OF r]
    by (auto simp: init_def Let_def mount_def start_buffered_def start_always_def start_recording_def
        split: if_splits sum.splits)
  with s show ?thesis by (auto simp: client_inv_def once_def intro!: exI [of _ 0])
qed

text \<open>
  Property C32 (metadata once). From a successful \<open>init\<close> to the next \<open>stop\<close>, in either mode and whatever happens,
  the first upload carries the device metadata collected at \<open>init\<close> (unless
  \<open>captureClientMetadata\<close> is \<open>false\<close>) and no later upload carries any.
\<close>

theorem client_metadata_once:
  assumes "init uuid c st = (st1, Inr ())" and "\<not> m_initialized st" and "Stop \<notin> set ops"
  shows "\<exists>n. map (\<lambda>u. pl_client (up_payload u)) (sent (run uuid ops st1)) =
    map (\<lambda>u. pl_client (up_payload u)) (sent st) @
      (case n of 0 \<Rightarrow> [] | Suc k \<Rightarrow> (if captureClientMetadata c = Some False then None
         else Some (collectClientMeta (ambient_env st))) # replicate k None)"
  using client_inv_run [OF init_client_inv [OF assms(1,2)] assms(3), of uuid]
  unfolding client_inv_def clients_def once_def by blast

lemma demo_init_ok: "\<exists>st1. init demo_uuid demo_config demo_page = (st1, Inr ())"
  using demo_session [of demo_config]
  by (simp add: init_def demo_page_def isBuffered_def demo_config_def start_buffered_def
      start_recording_def mount_def mountWidget_def Let_def)

theorem client_metadata_once_witness:
  "\<exists>st1 n. init demo_uuid demo_config demo_page = (st1, Inr ())
     \<and> map (\<lambda>u. pl_client (up_payload u)) (sent (run demo_uuid [Emit 0 (demo_event 2 1000) True, Report, Report] st1)) =
       (case n of 0 \<Rightarrow> [] | Suc k \<Rightarrow> Some (collectClientMeta (ambient_env demo_page)) # replicate k None)"
proof -
  obtain st1 where i: "init demo_uuid demo_config demo_page = (st1, Inr ())" using demo_init_ok by blast
  have "\<not> m_initialized demo_page" "sent demo_page = []" "captureClientMetadata demo_config = None"
    by (simp_all add: demo_page_def demo_config_def)
  with client_metadata_once [OF i, of "[Emit 0 (demo_event 2 1000) True, Report, Report]"] i
  show ?thesis by auto
qed

end
