(* ===== verification/ServerWire.thy ===== *)
theory ServerWire
  imports ServerQueue RecorderTypes RecorderSettings RecorderReport
begin

text \<open>
  The SDK and the server together: what the server reads from a batch the SDK sends, which batches
  it accepts, and what it serves afterwards.
\<close>

section \<open>Reading a batch\<close>

fun text_of :: "jsval \<Rightarrow> jsstr" where
  "text_of (JStr s) = s"
| "text_of _ = []"

definition go_meta :: "ClientMeta \<Rightarrow> ClientMeta" where
  "go_meta m = m\<lparr>cm_language := go_text (cm_language m), cm_timezone := go_text (cm_timezone m),
     user_agent := go_text (user_agent m)\<rparr>"

definition request_of :: "BatchPayload \<Rightarrow> IngestRequest" where
  "request_of p = \<lparr>in_session_id = go_text (text_of (pl_session_id p)),
     in_bat_session_id = (case pl_bat_session_id p of None \<Rightarrow> [] | Some b \<Rightarrow> go_text b),
     in_identifier = go_text (text_of (pl_identifier p)), in_user_email = [], in_user_name = [], in_start_url = [],
     in_environment = go_text (pl_environment p), in_service_name = go_text (pl_service_name p),
     in_trigger = trigger_str (pl_trigger p), in_share_token = go_text (text_of (pl_share_token p)),
     in_client = map_option go_meta (pl_client p), in_events = pl_events p\<rparr>"

text \<open>Numbers that fit the integers of the server.\<close>

definition payload_fits :: "BatchPayload \<Rightarrow> bool" where
  "payload_fits p \<longleftrightarrow> payload_typed p
     \<and> (case pl_client p of None \<Rightarrow> True | Some m \<Rightarrow> int64 (screen_width m) \<and> int64 (screen_height m)
          \<and> int64 (viewport_width m) \<and> int64 (viewport_height m))
     \<and> (\<forall>e\<in>set (pl_events p). int64 (ev_type e) \<and> int64 (ev_timestamp e))"

lemma js_get_member: "js_get (JObj kvs) (js k) = Inr v \<Longrightarrow> member kvs k = v"
  by (simp add: js_get_def member_def)

lemma go_trigger: "go_text (trigger_str t) = trigger_str t"
proof -
  have "go_text (js ''manual'') = js ''manual''" "go_text (js ''error'') = js ''error''"
    "go_text (js ''stream'') = js ''stream''" by code_simp+
  then show ?thesis by (cases t) simp_all
qed

lemma unmarshal_client_wire:
  "int64 (screen_width m) \<Longrightarrow> int64 (screen_height m) \<Longrightarrow> int64 (viewport_width m) \<Longrightarrow> int64 (viewport_height m)
     \<Longrightarrow> unmarshal_client (client_json m) = Inr (Some (go_meta m))"
  by (simp add: client_json_def member_def go_int_ok go_meta_def del: go_int.simps)

lemma mapG_events:
  "\<forall>e\<in>set evs. int64 (ev_type e) \<and> int64 (ev_timestamp e) \<Longrightarrow> mapG unmarshal_event (map event_json evs) = Inr evs"
  by (induction evs) (simp_all add: unmarshal_event_json)

lemma unmarshal_payload:
  assumes "payload_fits p"
  shows "unmarshal_request (clean (payload_json p)) = Inr (request_of p)"
proof -
  have ok: "payload_ok p" using assms by (simp add: payload_fits_def payload_typed_ok)
  obtain kvs where kvs: "clean (payload_json p) = JObj kvs"
    by (simp add: payload_json_def)
  have g: "member kvs k = v" if "js_get (payload_json p) (js k) = Inr v" for k v
    using payload_field [OF ok, of "js k"] that by (intro js_get_member) (simp add: kvs)
  have m: "member kvs ''session_id'' = pl_session_id p" "member kvs ''bat_session_id'' = opt_str (pl_bat_session_id p)"
    "member kvs ''identifier'' = pl_identifier p" "member kvs ''user_email'' = JUndef" "member kvs ''user_name'' = JUndef"
    "member kvs ''start_url'' = JUndef" "member kvs ''environment'' = JStr (pl_environment p)"
    "member kvs ''service_name'' = JStr (pl_service_name p)" "member kvs ''trigger'' = JStr (trigger_str (pl_trigger p))"
    "member kvs ''share_token'' = pl_share_token p"
    "member kvs ''client'' = (case pl_client p of None \<Rightarrow> JUndef | Some m \<Rightarrow> client_json m)"
    "member kvs ''events'' = JArr (map event_json (pl_events p))"
    by (rule g, simp add: payload_json_def js_get_def)+
  have str: "go_str (pl_session_id p) = Inr (go_text (text_of (pl_session_id p)))"
    "go_str (pl_identifier p) = Inr (go_text (text_of (pl_identifier p)))"
    "go_str (pl_share_token p) = Inr (go_text (text_of (pl_share_token p)))"
    "go_str (opt_str (pl_bat_session_id p)) = Inr (case pl_bat_session_id p of None \<Rightarrow> [] | Some b \<Rightarrow> go_text b)"
    using assms by (cases "pl_session_id p"; cases "pl_identifier p"; cases "pl_share_token p";
        auto simp: payload_fits_def payload_typed_def split: option.split)+
  have cl: "unmarshal_client (case pl_client p of None \<Rightarrow> JUndef | Some m \<Rightarrow> client_json m) = Inr (map_option go_meta (pl_client p))"
    using assms by (auto simp: payload_fits_def unmarshal_client_wire split: option.splits)
  have ev: "mapG unmarshal_event (map event_json (pl_events p)) = Inr (pl_events p)"
    using assms by (intro mapG_events) (simp add: payload_fits_def)
  show ?thesis
    by (simp add: kvs m str cl ev go_trigger request_of_def)
qed

lemma request_of_no_null:
  assumes "payload_fits p"
  shows "null_data (request_of p) = request_of p"
proof -
  have "null_event e = e" if "e \<in> set (pl_events p)" for e
    using assms that by (auto simp: payload_fits_def payload_typed_def event_ok_def null_event_def)
  then show ?thesis by (simp add: null_data_def request_of_def map_idI)
qed


section \<open>The ingest endpoint and what stands before it\<close>

text \<open>
  The server that takes the uploads (\<open>cmd/writer/main.go\<close>), at the address \<open>wr_base\<close>. Parameters are the
  verdict of the CORS package on the origin of the page (with the default setting every origin is allowed),
  which keys are found by their hash, with their identifiers, and the decision the limiter takes for a caller
  at that moment; \<open>wr_maxBody\<close> is the setting \<open>WRITER_MAX_BODY_BYTES\<close>.
\<close>

record writer =
  wr_engine :: engine
  wr_base :: jsstr
  wr_origin_ok :: bool
  wr_maxBody :: int
  wr_ValidateAPIKey :: "jsstr \<Rightarrow> jsstr option"
  wr_ClientIP :: jsstr
  wr_Allow :: "jsstr \<Rightarrow> bool"

type_synonym handler = "server \<Rightarrow> server \<times> int"

definition content_length :: "http_request \<Rightarrow> int" where
  "content_length rq = int (length (utf8_bytes (rq_body rq)))"

definition BodyLimit :: "int \<Rightarrow> http_request \<Rightarrow> handler \<Rightarrow> handler" where
  "BodyLimit maxBytes rq next_handler sv =
     (if maxBytes \<le> 0 then next_handler sv
      else if content_length rq > maxBytes then (sv, 413)
      else next_handler sv)"

text \<open>A header the request does not have reads as the empty text.\<close>

definition GetHeader :: "http_request \<Rightarrow> jsstr \<Rightarrow> jsstr" where
  "GetHeader rq k = (case map_of (rq_headers rq) k of None \<Rightarrow> [] | Some v \<Rightarrow> v)"

definition APIKeyMiddleware :: "(jsstr \<Rightarrow> jsstr option) \<Rightarrow> http_request \<Rightarrow> (jsstr \<Rightarrow> handler) \<Rightarrow> handler" where
  "APIKeyMiddleware validate rq next_handler sv =
     (let rawKey = GetHeader rq (js ''X-API-Key'')
      in if rawKey = [] then (sv, 401)
         else (case validate rawKey of None \<Rightarrow> (sv, 401) | Some api_key_id \<Rightarrow> next_handler api_key_id sv))"

definition RateLimiter_Middleware :: "(jsstr \<Rightarrow> bool) \<Rightarrow> jsstr \<Rightarrow> jsstr \<Rightarrow> handler \<Rightarrow> handler" where
  "RateLimiter_Middleware allow ip api_key_id next_handler sv =
     (let key = (if api_key_id = [] then ip else api_key_id)
      in if \<not> allow key then (sv, 429) else next_handler sv)"

text \<open>The route \<open>POST /v1/record\<close> with the middlewares in the order \<open>main\<close> installs them.\<close>

definition writer_serve :: "writer \<Rightarrow> http_request \<Rightarrow> handler" where
  "writer_serve wr rq sv =
     (if \<not> wr_origin_ok wr then (sv, 403)
      else BodyLimit (wr_maxBody wr) rq
             (APIKeyMiddleware (wr_ValidateAPIKey wr) rq
               (\<lambda>api_key_id. RateLimiter_Middleware (wr_Allow wr) (wr_ClientIP wr) api_key_id
                  (writer_Ingest (wr_engine wr) (rq_body rq)))) sv)"

definition upload_request :: "sent_upload \<Rightarrow> http_request" where
  "upload_request u = sendBatch (up_endpoint u) (up_apiKey u) (up_payload u) (up_keepalive u)"

text \<open>What the server makes of an upload; nothing if it goes to another address.\<close>

definition post_upload :: "writer \<Rightarrow> sent_upload \<Rightarrow> server \<Rightarrow> (server \<times> int) option" where
  "post_upload wr u sv =
     (if rq_method (upload_request u) = js ''POST'' \<and> rq_url (upload_request u) = wr_base wr @ js ''/v1/record''
      then Some (writer_serve wr (upload_request u) sv) else None)"

text \<open>A key that arrives as it is in a header: printable ASCII without spaces, as the keys the server makes.\<close>

definition key_plain :: "jsstr \<Rightarrow> bool" where
  "key_plain key \<longleftrightarrow> list_all (\<lambda>c. 0x20 < c \<and> c < 0x7F) key"

text \<open>A request that passes everything that stands before the handler.\<close>

definition admits :: "writer \<Rightarrow> jsstr \<Rightarrow> int \<Rightarrow> bool" where
  "admits wr key len \<longleftrightarrow> wr_origin_ok wr \<and> (wr_maxBody wr \<le> 0 \<or> len \<le> wr_maxBody wr) \<and> key \<noteq> []
     \<and> (case wr_ValidateAPIKey wr key of None \<Rightarrow> False
        | Some k \<Rightarrow> wr_Allow wr (if k = [] then wr_ClientIP wr else k))"


section \<open>Which batches are accepted\<close>

definition post_batch :: "engine \<Rightarrow> sent_upload \<Rightarrow> server \<Rightarrow> server \<times> int" where
  "post_batch eng u sv = writer_Ingest eng (rq_body (upload_request u)) sv"

lemma upload_request_simps [simp]:
  "rq_method (upload_request u) = js ''POST''" "rq_url (upload_request u) = up_endpoint u @ js ''/v1/record''"
  "GetHeader (upload_request u) (js ''X-API-Key'') = up_apiKey u"
proof -
  have "js ''Content-Type'' \<noteq> js ''X-API-Key''" by code_simp
  then show "GetHeader (upload_request u) (js ''X-API-Key'') = up_apiKey u"
    by (simp add: upload_request_def sendBatch_def GetHeader_def)
qed (simp_all add: upload_request_def sendBatch_def)

lemmas gate_defs = writer_serve_def BodyLimit_def APIKeyMiddleware_def RateLimiter_Middleware_def Let_def

lemma post_upload_admitted:
  assumes "up_endpoint u = wr_base wr" and "admits wr (up_apiKey u) (content_length (upload_request u))"
  shows "post_upload wr u sv = Some (post_batch (wr_engine wr) u sv)"
  using assms by (auto simp: post_upload_def admits_def gate_defs post_batch_def split: option.splits)

lemma post_upload_refused:
  assumes "up_endpoint u = wr_base wr" and "\<not> admits wr (up_apiKey u) (content_length (upload_request u))"
  shows "post_upload wr u sv = Some (sv, if \<not> wr_origin_ok wr then 403
    else if 0 < wr_maxBody wr \<and> wr_maxBody wr < content_length (upload_request u) then 413
    else if up_apiKey u = [] \<or> wr_ValidateAPIKey wr (up_apiKey u) = None then 401 else 429)"
  using assms by (auto simp: post_upload_def admits_def gate_defs split: option.splits)

lemma post_batch_reads:
  assumes "payload_fits (up_payload u)"
  shows "post_batch eng u sv =
    (if \<not> binding_ok (request_of (up_payload u)) \<or> \<not> uuid_parses eng (in_session_id (request_of (up_payload u)))
     then (sv, 400)
     else case Enqueue eng (request_of (up_payload u)) sv of (sv1, False) \<Rightarrow> (sv1, 500) | (sv1, True) \<Rightarrow> (sv1, 204))"
proof -
  have "payload_ok (up_payload u)" using assms by (simp add: payload_fits_def payload_typed_ok)
  then have "json_parse (rq_body (upload_request u)) = Inr (clean (payload_json (up_payload u)))"
    using json_round_trip_clean [OF payload_json_clean] by (simp add: upload_request_def sendBatch_def)
  with unmarshal_payload [OF assms] show ?thesis by (simp add: post_batch_def writer_Ingest_def)
qed

lemma post_batch_status:
  assumes "payload_fits (up_payload u)" and "p = up_payload u" and "post_batch eng u sv = (sv', status)"
  shows "status = (if text_of (pl_identifier p) = [] \<or> pl_service_name p = [] \<or> pl_events p = []
        \<or> text_of (pl_session_id p) = [] \<or> \<not> uuid_parses eng (go_text (text_of (pl_session_id p))) then 400
      else if enqueue_fails eng (sv_messages sv) then 500 else 204)
    \<and> sv_queue sv' = sv_queue sv @ (if status = 204 then [(sv_messages sv, marshal_request (request_of p))] else [])
    \<and> t_sessions sv' = t_sessions sv \<and> t_events sv' = t_events sv \<and> t_failed sv' = t_failed sv"
  using assms(3) unfolding post_batch_reads [OF assms(1)]
  by (auto simp: assms(2) binding_ok_def request_of_def Enqueue_def Let_def split: if_splits)

text \<open>
  Property C19 (which uploads the server accepts). An upload of the SDK with a key of printable ASCII
  characters that arrives at the server is answered, in this order: with 403 if the origin of the page is not
  allowed; with 413 if a limit on the body is set and its UTF-8 bytes exceed it; with 401 if the key is empty or unknown; with 429 if the limiter has no
  request left for the caller, which is the key's identifier, or the client's address where that is empty; with 400
  if it names an empty user, an empty service, no event, or a session that is no UUID; with 500 if the queue
  fails; and otherwise with 204. Exactly in the last case it is queued; the tables stay as they are in every case. So an empty user
  or service, which the SDK does not replace by a default, makes the server refuse every upload, and the SDK,
  which ignores the answer, does not notice.
\<close>

theorem uploads_accepted_iff_named:
  assumes "payload_fits (up_payload u)" and "up_endpoint u = wr_base wr" and "key_plain (up_apiKey u)"
    and "p = up_payload u" and "found = (if up_apiKey u = [] then None else wr_ValidateAPIKey wr (up_apiKey u))"
    and "len = int (length (utf8_bytes (stringify (payload_json p))))"
  shows "\<exists>sv' status. post_upload wr u sv = Some (sv', status)
    \<and> status =
       (if \<not> wr_origin_ok wr then 403
        else if 0 < wr_maxBody wr \<and> wr_maxBody wr < len then 413
        else (case found of None \<Rightarrow> 401 | Some k \<Rightarrow>
          if \<not> wr_Allow wr (if k = [] then wr_ClientIP wr else k) then 429
          else if text_of (pl_identifier p) = [] \<or> pl_service_name p = [] \<or> pl_events p = []
            \<or> text_of (pl_session_id p) = [] \<or> \<not> uuid_parses (wr_engine wr) (go_text (text_of (pl_session_id p))) then 400
          else if enqueue_fails (wr_engine wr) (sv_messages sv) then 500 else 204))
    \<and> sv_queue sv' = sv_queue sv @ (if status = 204 then [(sv_messages sv, marshal_request (request_of p))] else [])
    \<and> t_sessions sv' = t_sessions sv \<and> t_events sv' = t_events sv \<and> t_failed sv' = t_failed sv"
proof -
  have len: "content_length (upload_request u) = len"
    by (simp add: content_length_def upload_request_def sendBatch_def assms(4,6))
  show ?thesis
  proof (cases "admits wr (up_apiKey u) len")
    case True
    then obtain k where k: "found = Some k" "wr_Allow wr (if k = [] then wr_ClientIP wr else k)" "wr_origin_ok wr"
        "\<not> (0 < wr_maxBody wr \<and> wr_maxBody wr < len)"
      by (auto simp: admits_def assms(5) split: option.splits)
    obtain sv' status where ps: "post_batch (wr_engine wr) u sv = (sv', status)" by fastforce
    have "post_upload wr u sv = Some (sv', status)"
      using post_upload_admitted [OF assms(2), of sv] True len ps by simp
    with post_batch_status [OF assms(1,4) ps] k show ?thesis by (intro exI [of _ sv'] exI [of _ status]) simp
  next
    case False
    with post_upload_refused [OF assms(2), of sv] len show ?thesis
      by (auto simp: admits_def assms(5) split: option.splits)
  qed
qed


definition demo_upload :: "jsstr \<Rightarrow> sent_upload" where
  "demo_upload user = \<lparr>up_endpoint = js ''http://w'', up_apiKey = js ''rew_x'',
     up_payload = demo_payload\<lparr>pl_identifier := JStr user\<rparr>, up_keepalive = False\<rparr>"

lemma demo_upload_fits: "payload_fits (up_payload (demo_upload user))"
  by (simp add: payload_fits_def payload_typed_def demo_upload_def demo_payload_def event_ok_def int64_def)

definition demo_writer :: writer where
  "demo_writer = \<lparr>wr_engine = demo_engine, wr_base = js ''http://w'', wr_origin_ok = True, wr_maxBody = 0,
     wr_ValidateAPIKey = (\<lambda>k. if k = js ''rew_x'' then Some (js ''k1'') else None), wr_ClientIP = js ''10.0.0.1'',
     wr_Allow = (\<lambda>_. True)\<rparr>"

theorem uploads_accepted_iff_named_witness:
  "(\<exists>sv'. post_upload demo_writer (demo_upload (js ''jane'')) demo_server = Some (sv', 204))
   \<and> (\<exists>sv'. post_upload demo_writer (demo_upload []) demo_server = Some (sv', 400))
   \<and> (\<exists>sv'. post_upload demo_writer ((demo_upload (js ''jane''))\<lparr>up_apiKey := js ''old''\<rparr>) demo_server = Some (sv', 401))"
proof -
  have k: "key_plain (js ''rew_x'')" "key_plain (js ''old'')" "js ''rew_x'' \<noteq> []" "js ''old'' \<noteq> js ''rew_x''" "js ''old'' \<noteq> []"
    "js ''jane'' \<noteq> []" "js ''web'' \<noteq> []" "js ''s1'' \<noteq> []" by code_simp+
  note acc = uploads_accepted_iff_named [where wr = demo_writer and sv = demo_server, OF _ _ _ refl refl refl]
  have "\<exists>sv'. post_upload demo_writer (demo_upload (js ''jane'')) demo_server = Some (sv', 204)"
    using acc [of "demo_upload (js ''jane'')"] demo_upload_fits k
    by (simp add: demo_writer_def demo_upload_def demo_payload_def demo_engine_def) blast
  moreover have "\<exists>sv'. post_upload demo_writer (demo_upload []) demo_server = Some (sv', 400)"
    using acc [of "demo_upload []"] demo_upload_fits k by (simp add: demo_writer_def demo_upload_def) blast
  moreover have "\<exists>sv'. post_upload demo_writer ((demo_upload (js ''jane''))\<lparr>up_apiKey := js ''old''\<rparr>) demo_server = Some (sv', 401)"
    using acc [of "(demo_upload (js ''jane''))\<lparr>up_apiKey := js ''old''\<rparr>"] demo_upload_fits k
    by (simp add: demo_writer_def demo_upload_def) blast
  ultimately show ?thesis by blast
qed


section \<open>What is served afterwards\<close>

lemma find_by_token:
  assumes "store_inv sv" and "row_of i sv = Some row" and "s_share_token row = Some t"
  shows "\<exists>r. find (\<lambda>r. s_share_token r = Some t) (t_sessions sv) = Some r \<and> r = row"
proof -
  have row: "row \<in> set (t_sessions sv)" "s_id row = i" using assms(2) by (auto simp: row_of_def dest: find_Some_id)
  obtain r where r: "find (\<lambda>r. s_share_token r = Some t) (t_sessions sv) = Some r"
    using row(1) assms(3) by (cases "find (\<lambda>r. s_share_token r = Some t) (t_sessions sv)") (auto simp: find_None_iff)
  then have "r \<in> set (t_sessions sv)" "s_share_token r = Some t" by (auto simp: find_Some_iff)
  moreover from this have "s_id r = i"
    using tokens_uniqueD [of "t_sessions sv" r row t] row assms(1,3) by (simp add: store_inv_def)
  ultimately have "r = row" using row_of_unique [of sv r] assms(1,2) by (simp add: store_inv_def)
  with r show ?thesis by blast
qed

lemma accepted_then_stored:
  assumes "healthy eng" and "payload_fits (up_payload u)" and "post_batch eng u sv = (sv1, 204)"
    and "sv_queue sv = []" and "token_free (request_of (up_payload u)) sv"
  shows "\<exists>n q. runWorker eng sv1 = sv\<lparr>sv_ops := n, sv_messages := Suc (sv_messages sv), sv_pending := q,
      t_sessions := ingest_rows (request_of (up_payload u)) (sv_now sv) (t_sessions sv),
      t_events := t_events sv @ new_events eng (sv_uuids sv) (sv_now sv) (request_of (up_payload u)),
      sv_uuids := sv_uuids sv + length (pl_events (up_payload u))\<rparr>"
proof -
  let ?req = "request_of (up_payload u)"
  let ?m = "(sv_messages sv, marshal_request ?req)"
  have "unmarshal_request (clean (payload_json (up_payload u))) = Inr ?req" by (rule unmarshal_payload [OF assms(2)])
  from marshal_round_trip [OF unmarshal_request_typed [OF this]]
  have rt: "unmarshal_request (marshal_request ?req) = Inr ?req" by (simp add: request_of_no_null [OF assms(2)])
  have sv1: "sv1 = sv\<lparr>sv_messages := Suc (sv_messages sv), sv_queue := [?m]\<rparr>"
    using assms(3,4) unfolding post_batch_reads [OF assms(2)]
    by (auto simp: Enqueue_def Let_def split: if_splits)
  let ?sv0 = "sv\<lparr>sv_messages := Suc (sv_messages sv), sv_queue := [], sv_pending := sv_pending sv @ [?m]\<rparr>"
  have "token_free ?req ?sv0" using assms(5) by (simp add: token_free_def)
  from process_healthy [OF assms(1) this, of "sv_messages sv"] obtain n where
    "process eng (sv_messages sv) ?req ?sv0 = Ack eng (sv_messages sv)
      (?sv0\<lparr>sv_ops := n, t_sessions := ingest_rows ?req (sv_now sv) (t_sessions sv),
        t_events := t_events sv @ new_events eng (sv_uuids sv) (sv_now sv) ?req,
        sv_uuids := sv_uuids sv + length (pl_events (up_payload u))\<rparr>)"
    by (auto simp: request_of_def)
  moreover have "runWorker eng sv1 = process eng (sv_messages sv) ?req ?sv0"
    by (simp add: runWorker_def sv1 handle_message_def rt)
  ultimately show ?thesis using assms(4)
    by (cases sv) (auto simp: Ack_def)
qed

text \<open>The order in which stored events are returned.\<close>

lemma new_events_ordered:
  assumes "engine_contract eng" and "map raw_event new = raws"
  shows "mset (map raw_event (order_events eng new)) = mset raws \<and> sorted (map e_timestamp (order_events eng new))"
    and "sorted_wrt (<) (map ev_timestamp raws) \<longrightarrow> map raw_event (order_events eng new) = raws"
    and "set (order_events eng new) = set new"
proof -
  have o: "mset (order_events eng new) = mset new" "sorted_wrt event_before (order_events eng new)"
    using assms(1) by (auto simp: engine_contract_def)
  have "sorted_wrt (\<lambda>a b. e_timestamp a \<le> e_timestamp b) (order_events eng new)"
    by (rule sorted_wrt_mono_rel [OF _ o(2)]) (auto simp: event_before_def)
  then show "mset (map raw_event (order_events eng new)) = mset raws \<and> sorted (map e_timestamp (order_events eng new))"
    using ordered_events [OF assms(1), of raw_event new] by (simp add: assms(2) sorted_wrt_map)
  show "set (order_events eng new) = set new" using o(1) by (rule mset_eq_setD)
  have "map e_timestamp new = map ev_timestamp (map raw_event new)" by (simp add: raw_event_def)
  then show "sorted_wrt (<) (map ev_timestamp raws) \<longrightarrow> map raw_event (order_events eng new) = raws"
    using order_events_sorted [OF assms(1), of new] assms(2) by simp
qed

text \<open>
  A session's first batch, once accepted and taken by a worker: the server returns its events ordered by
  their timestamps, to the public without the plugin events, under the session and the token it names. Where no
  two timestamps are the same that is the order they were sent in.
\<close>

lemma batch_served:
  assumes "healthy eng" and "engine_contract eng" and "payload_fits (up_payload u)"
    and "post_batch eng u sv = (sv1, 204)" and "sv2 = runWorker eng sv1" and "sv_queue sv = []" and "store_inv sv"
    and "row_of i sv = None" and "i = go_text (text_of (pl_session_id (up_payload u)))"
    and "t = go_text (text_of (pl_share_token (up_payload u)))" and "t \<noteq> []"
    and "\<forall>r\<in>set (t_sessions sv). s_share_token r \<noteq> Some t"
  shows "\<exists>es pub. snd (GetEvents eng i sv2) = Inr es \<and> mset (map raw_event es) = mset (pl_events (up_payload u))
    \<and> sorted (map e_timestamp es)
    \<and> (sorted_wrt (<) (map ev_timestamp (pl_events (up_payload u))) \<longrightarrow> map raw_event es = pl_events (up_payload u))
    \<and> snd (GetPublicEvents eng t sv2) = Inr (filter (\<lambda>e. e_type e \<noteq> 6) es)
    \<and> snd (GetPublicSession eng t sv2) = Inr pub \<and> p_id pub = i
    \<and> p_event_count pub = int (length (pl_events (up_payload u))) \<and> p_duration_ms pub = None
    \<and> e_seq ` set es = int ` {0..<length (pl_events (up_payload u))}
    \<and> snd (CreateShareToken eng i sv2) = Inr t"
proof -
  let ?req = "request_of (up_payload u)"
  have req: "in_session_id ?req = i" "in_share_token ?req = t" "in_events ?req = pl_events (up_payload u)"
    using assms(9,10) by (simp_all add: request_of_def)
  have free: "token_free ?req sv" using assms(12) req by (simp add: token_free_def)
  from accepted_then_stored [OF assms(1,3,4,6) free] obtain n q where
    sv2: "sv2 = sv\<lparr>sv_ops := n, sv_messages := Suc (sv_messages sv), sv_pending := q,
      t_sessions := ingest_rows ?req (sv_now sv) (t_sessions sv),
      t_events := t_events sv @ new_events eng (sv_uuids sv) (sv_now sv) ?req,
      sv_uuids := sv_uuids sv + length (pl_events (up_payload u))\<rparr>"
    using assms(5) by blast
  let ?new = "new_events eng (sv_uuids sv) (sv_now sv) ?req"
  let ?es = "order_events eng ?new"
  have inv: "store_inv sv2"
  proof -
    have "store_inv sv1" using store_inv_writer [of eng _ sv] assms(4,7) unfolding post_batch_def by (metis fst_conv)
    then show ?thesis unfolding assms(5) using serve_inv [of sv1 eng WorkerRound] by simp
  qed
  have raw: "map raw_event ?new = pl_events (up_payload u)" using raw_new_events req(3) by simp
  note ordered = new_events_ordered [OF assms(2) raw] new_events_seq [of eng "sv_uuids sv" "sv_now sv" ?req]
  have se: "session_events i sv2 = ?new"
    using session_events_new [of sv2 sv eng "sv_uuids sv" "sv_now sv" ?req] no_session_no_events [OF assms(7,8)] req(1)
    by (simp add: sv2)
  have ge: "snd (GetEvents eng i s) = Inr ?es" if "t_events s = t_events sv2" for s
    using that se by (simp add: GetEvents_healthy [OF assms(1)] session_events_def)
  obtain row where row: "row_of i sv2 = Some row" "s_id row = i" "s_share_token row = Some t"
    "s_event_count row = int (length (pl_events (up_payload u)))" "s_duration_ms row = None"
    using ingest_row [where req = ?req and st = sv and now = "sv_now sv"] req assms(11)
    by (auto simp: sv2 row_of_def token_after_def)
  from find_by_token [OF inv row(1,3)]
  have ft: "find (\<lambda>r. s_share_token r = Some t) (t_sessions sv2) = Some row" by blast
  have "snd (GetPublicEvents eng t sv2) = Inr (filter (\<lambda>e. e_type e \<noteq> 6) ?es)"
    using ge ft row(2)
    by (simp add: GetPublicEvents_def GetByShareToken_def db_op_healthy [OF assms(1)] next_op_def
        GetEvents_healthy [OF assms(1)] rrwebPluginType_def session_events_def)
  moreover have "snd (GetPublicSession eng t sv2) = Inr (ToPublic row)"
    using ft by (simp add: GetPublicSession_def GetByShareToken_def db_op_healthy [OF assms(1)])
  moreover have "snd (CreateShareToken eng i sv2) = Inr t"
    using row(1,3) assms(11) by (simp add: CreateShareToken_def GetByID_def db_op_healthy [OF assms(1)] row_of_def)
  moreover have "e_seq ` set ?es = int ` {0..<length (pl_events (up_payload u))}"
    using arg_cong [OF ordered(4), of set] ordered(3) req(3) by simp
  ultimately show ?thesis
    using ge [of sv2] ordered(1,2) row(2,4,5)
    by (intro exI [of _ ?es] exI [of _ "ToPublic row"]) (simp add: ToPublic_def)
qed


section \<open>Reporting to a server\<close>

text \<open>The numbers in the rolling buffer and the device metadata fit the integers of the server.\<close>

definition buffer_fits :: "sdk \<Rightarrow> bool" where
  "buffer_fits st \<longleftrightarrow> int64 (int (length (concat (m_segments st))))
     \<and> (\<forall>e\<in>set (concat (m_segments st)). int64 (ev_type e) \<and> int64 (ev_timestamp e))
     \<and> (case m_clientMeta st of None \<Rightarrow> True | Some m \<Rightarrow> int64 (screen_width m) \<and> int64 (screen_height m)
          \<and> int64 (viewport_width m) \<and> int64 (viewport_height m))"

text \<open>The user and the service a batch names.\<close>

definition named_user :: "BatRewindConfig \<Rightarrow> jsstr \<Rightarrow> jsstr" where
  "named_user c i = or_default (cfg_identifier c) i"

definition named_service :: "BatRewindConfig \<Rightarrow> jsstr" where
  "named_service c = or_default (serviceName c) (or_default (service c) (js ''web''))"

lemma report_upload:
  assumes "m_config st = Some c" and "isBuffered st" and "m_sessionId st = JStr i" and "m_shareToken st = JStr t"
    and "i \<noteq> []" and "concat (m_segments st) \<noteq> []" and "sdk_typed st" and "buffer_fits st"
  shows "\<exists>u. sent (fst (report st)) = sent st @ [u] \<and> payload_fits (up_payload u)
    \<and> pl_session_id (up_payload u) = JStr i \<and> pl_share_token (up_payload u) = JStr t
    \<and> pl_events (up_payload u) = concat (m_segments st)
    \<and> pl_identifier (up_payload u) = JStr (named_user c i) \<and> pl_service_name (up_payload u) = named_service c
    \<and> up_endpoint u = endpoint c \<and> up_apiKey u = apiKey c"
proof -
  have tr: "truthy (m_sessionId st)" using assms(3,5) by simp
  let ?cl = "if m_clientMetaSent st then None else m_clientMeta st"
  have "payload_typed (batch_of c (m_sessionId st) (m_shareToken st) ?cl Manual (concat (m_segments st)))"
    by (rule batch_typed) (use assms(7) tr in \<open>auto simp: sdk_typed_defs segs_ok_def\<close>)
  then have "payload_fits (batch_of c (m_sessionId st) (m_shareToken st) ?cl Manual (concat (m_segments st)))"
    using assms(8) by (auto simp: payload_fits_def buffer_fits_def batch_of_def split: option.splits)
  moreover have "sent (fst (report st)) = sent (upload (concat (m_segments st)) Manual False st)"
    using assms(1,2,3,5,6) by (simp add: report_def Let_def uploadBuffer_def del: concat_eq_Nil_conv)
  ultimately show ?thesis
    using upload_sent [OF assms(1) tr, of "concat (m_segments st)" Manual False] assms(3,4)
    by (auto simp: batch_of_def named_user_def named_service_def or_default_def split: option.split)
qed

lemma upload_accepted:
  assumes "payload_fits (up_payload u)" and "pl_session_id (up_payload u) = JStr i" and "i \<noteq> []"
    and "pl_identifier (up_payload u) = JStr a" and "a \<noteq> []" and "pl_service_name (up_payload u) \<noteq> []"
    and "pl_events (up_payload u) \<noteq> []" and "uuid_parses eng (go_text i)" and "\<not> enqueue_fails eng (sv_messages sv)"
  shows "\<exists>sv1. post_batch eng u sv = (sv1, 204)"
  unfolding post_batch_reads [OF assms(1)]
  using assms(2-9) by (simp add: binding_ok_def request_of_def Enqueue_def Let_def)

end
