(* ===== verification/ServerReader.thy ===== *)
theory ServerReader
  imports ServerQueue
begin

text \<open>
  The endpoints the dashboard reads from (\<open>internal/session/reader_handler.go\<close>), behind the router
  set up in \<open>cmd/reader/main.go\<close> and the check of the bearer token
  (\<open>internal/auth/middleware.go\<close>). An answer is a status and the text \<open>encoding/json\<close> writes.

  The record \<open>reader\<close> has what comes from outside: the database (\<open>engine\<close>), which bearer tokens
  \<open>ValidateToken\<close> accepts (a JWT library, the secret and the clock), the zone the process prints times in, the
  texts of errors of the database and the JSON decoder, and the text in which the database gives back a
  stored payload. Addresses the router does not know are answered with 404; that it redirects some
  of them to a near one is left out, since the dashboard never asks for those. The login, key and health endpoints
  and the answers to \<open>OPTIONS\<close> belong to other handlers and are left out too.
\<close>

section \<open>The JSON of rows\<close>

record reader =
  rd_engine :: engine
  rd_token_ok :: "jsstr \<Rightarrow> bool"
  rd_zone :: int
  rd_db_error :: jsstr
  rd_json_error :: jsstr
  rd_payload_text :: "jsval \<Rightarrow> jsstr"

fun error_text :: "reader \<Rightarrow> go_error \<Rightarrow> jsstr" where
  "error_text rd DbError = rd_db_error rd"
| "error_text rd NotFound = js ''record not found''"
| "error_text rd Unmarshal = rd_json_error rd"
| "error_text rd (Wrapped what e) = js what @ js '': '' @ error_text rd e"

definition time_json :: "reader \<Rightarrow> int \<Rightarrow> jsval" where
  "time_json rd t = JStr (go_time (rd_zone rd) t)"

text \<open>A pointer that is \<open>nil\<close> is \<open>null\<close>, or left out with \<open>omitempty\<close>.\<close>

definition ptr_json :: "('a \<Rightarrow> jsval) \<Rightarrow> 'a option \<Rightarrow> jsval" where
  "ptr_json f p = (case p of None \<Rightarrow> JNull | Some x \<Rightarrow> f x)"

definition omit_json :: "('a \<Rightarrow> jsval) \<Rightarrow> 'a option \<Rightarrow> jsval" where
  "omit_json f p = (case p of None \<Rightarrow> JUndef | Some x \<Rightarrow> f x)"

definition bytes_json :: "gobytes \<Rightarrow> jsval" where
  "bytes_json b = JStr (go_decode (map unat b))"

definition row_json :: "reader \<Rightarrow> session_row \<Rightarrow> jsval" where
  "row_json rd r = JObj
     [(js ''id'', JStr (s_id r)), (js ''bat_session_id'', JStr (s_bat_session_id r)),
      (js ''identifier'', JStr (s_identifier r)), (js ''user_email'', JStr (s_user_email r)),
      (js ''user_name'', JStr (s_user_name r)), (js ''start_url'', JStr (s_start_url r)),
      (js ''environment'', JStr (s_environment r)), (js ''service_name'', JStr (s_service_name r)),
      (js ''started_at'', time_json rd (s_started_at r)), (js ''ended_at'', ptr_json (time_json rd) (s_ended_at r)),
      (js ''duration_ms'', ptr_json jint (s_duration_ms r)), (js ''event_count'', jint (s_event_count r)),
      (js ''trigger'', JStr (s_trigger r)), (js ''share_token'', omit_json JStr (s_share_token r)),
      (js ''screen_width'', jint (s_screen_width r)), (js ''screen_height'', jint (s_screen_height r)),
      (js ''viewport_width'', jint (s_viewport_width r)), (js ''viewport_height'', jint (s_viewport_height r)),
      (js ''device_pixel_ratio'', JNum (s_device_pixel_ratio r)), (js ''language'', bytes_json (s_language r)),
      (js ''timezone'', bytes_json (s_timezone r)), (js ''user_agent'', bytes_json (s_user_agent r)),
      (js ''browser'', JStr (s_browser r)), (js ''browser_version'', bytes_json (s_browser_version r)),
      (js ''os'', JStr (s_os r)), (js ''device_type'', JStr (s_device_type r)),
      (js ''created_at'', time_json rd (s_created_at r))]"

definition event_row_json :: "reader \<Rightarrow> event_row \<Rightarrow> jsval" where
  "event_row_json rd e = JObj
     [(js ''id'', JStr (e_id e)), (js ''session_id'', JStr (e_session_id e)), (js ''seq'', jint (e_seq e)),
      (js ''type'', jint (e_type e)), (js ''data'', e_data e), (js ''timestamp'', jint (e_timestamp e)),
      (js ''created_at'', time_json rd (e_created_at e))]"

definition public_json :: "reader \<Rightarrow> public_row \<Rightarrow> jsval" where
  "public_json rd p = JObj
     [(js ''id'', JStr (p_id p)), (js ''service_name'', JStr (p_service_name p)),
      (js ''environment'', JStr (p_environment p)), (js ''started_at'', time_json rd (p_started_at p)),
      (js ''duration_ms'', ptr_json jint (p_duration_ms p)), (js ''event_count'', jint (p_event_count p))]"

definition failed_json :: "reader \<Rightarrow> failed_row \<Rightarrow> jsval" where
  "failed_json rd f = JObj
     [(js ''id'', JStr (f_id f)), (js ''session_id'', JStr (f_session_id f)),
      (js ''payload'', JStr (rd_payload_text rd (f_payload f))), (js ''error'', JStr (error_text rd (f_error f))),
      (js ''retry_count'', jint (f_retry_count f)), (js ''resolved'', JBool (f_resolved f)),
      (js ''created_at'', time_json rd (f_created_at f)), (js ''resolved_at'', ptr_json (time_json rd) (f_resolved_at f))]"

definition stats_json :: "reader \<Rightarrow> stats_row \<Rightarrow> jsval" where
  "stats_json rd s = JObj
     [(js ''total_sessions'', jint (st_total_sessions s)), (js ''sessions_today'', jint (st_sessions_today s)),
      (js ''sessions_this_week'', jint (st_sessions_this_week s)),
      (js ''failed_ingest_count'', jint (st_failed_ingest_count s)),
      (js ''active_services'', JArr (map JStr (st_active_services s))),
      (js ''recent_sessions'', JArr (map (row_json rd) (st_recent_sessions s)))]"


section \<open>Addresses\<close>

text \<open>
  \<open>url.PathUnescape\<close> and \<open>url.QueryUnescape\<close>. The address comes from a browser, which has written
  any character that is not ASCII as the bytes of its UTF-8.
\<close>

fun go_unescape :: "bool \<Rightarrow> jsstr \<Rightarrow> nat list option" where
  "go_unescape form [] = Some []"
| "go_unescape form (c # cs) =
     (if c = 0x25
      then (case cs of
              h # l # r \<Rightarrow>
                (case (hex_val h, hex_val l, go_unescape form r) of
                   (Some x, Some y, Some bs) \<Rightarrow> Some ((x * 16 + y) # bs)
                 | _ \<Rightarrow> None)
            | _ \<Rightarrow> None)
      else map_option (\<lambda>bs. (if form \<and> c = 0x2B then [0x20] else unit_bytes c) @ bs) (go_unescape form cs))"

text \<open>\<open>url.ParseQuery\<close>: pairs that are empty, hold a semicolon or are wrongly escaped are dropped.\<close>

definition go_pair :: "jsstr \<Rightarrow> (gobytes \<times> gobytes) list" where
  "go_pair s =
     (if s = [] \<or> 0x3B \<in> set s then []
      else (case (go_unescape True (takeWhile (\<lambda>c. c \<noteq> 0x3D) s),
                  go_unescape True (drop 1 (dropWhile (\<lambda>c. c \<noteq> 0x3D) s))) of
              (Some k, Some v) \<Rightarrow> [(map of_nat k, map of_nat v)]
            | _ \<Rightarrow> []))"

definition go_values :: "jsstr \<Rightarrow> (gobytes \<times> gobytes) list" where
  "go_values s = concat (map go_pair (split_on 0x26 s))"

text \<open>\<open>c.Query(key)\<close>: the first value, or the empty string.\<close>

definition Query :: "(gobytes \<times> gobytes) list \<Rightarrow> string \<Rightarrow> gobytes" where
  "Query vs key = (case map_of vs (js key) of None \<Rightarrow> [] | Some v \<Rightarrow> v)"

text \<open>\<open>strconv.Atoi\<close>\<close>

definition go_atoi :: "gobytes \<Rightarrow> int option" where
  "go_atoi s =
     (let neg = (take 1 s = [0x2D]); ds = (if neg \<or> take 1 s = [0x2B] then drop 1 s else s);
          n = (if neg then - int (digits_val ds) else int (digits_val ds))
      in if ds \<noteq> [] \<and> list_all is_digit ds \<and> - (2 ^ 63) \<le> n \<and> n < 2 ^ 63 then Some n else None)"


section \<open>Handlers\<close>

text \<open>\<open>c.JSON\<close> and \<open>c.Status\<close>\<close>

definition c_JSON :: "int \<Rightarrow> jsval \<Rightarrow> response" where
  "c_JSON status v = \<lparr>rsp_status = status, rsp_body = go_marshal v\<rparr>"

definition c_Status :: "int \<Rightarrow> response" where
  "c_Status status = \<lparr>rsp_status = status, rsp_body = []\<rparr>"

definition error_json :: "jsstr \<Rightarrow> jsval" where
  "error_json msg = JObj [(js ''error'', JStr msg)]"

text \<open>The two endings of a handler: the error of the service as it is, or a fixed message.\<close>

definition answer_500 :: "reader \<Rightarrow> ('a \<Rightarrow> response) \<Rightarrow> server \<times> 'a gores \<Rightarrow> server \<times> response" where
  "answer_500 rd k p =
     (fst p, case snd p of Inl e \<Rightarrow> c_JSON 500 (error_json (error_text rd e)) | Inr x \<Rightarrow> k x)"

definition answer_404 :: "string \<Rightarrow> ('a \<Rightarrow> response) \<Rightarrow> server \<times> 'a gores \<Rightarrow> server \<times> response" where
  "answer_404 msg k p =
     (fst p, case snd p of Inl _ \<Rightarrow> c_JSON 404 (error_json (js msg)) | Inr x \<Rightarrow> k x)"

definition reader_GetStats :: "reader \<Rightarrow> server \<Rightarrow> server \<times> response" where
  "reader_GetStats rd sv = answer_500 rd (\<lambda>s. c_JSON 200 (stats_json rd s)) (GetStats (rd_engine rd) sv)"

definition list_filter :: "(gobytes \<times> gobytes) list \<Rightarrow> ListFilter" where
  "list_filter vs =
     \<lparr>lf_identifier = Query vs ''identifier'', lf_service_name = Query vs ''service_name'',
      lf_environment = Query vs ''environment'',
      lf_start_date = (let s = Query vs ''start_date'' in if s \<noteq> [] then go_parse_time s else None),
      lf_end_date = (let s = Query vs ''end_date'' in if s \<noteq> [] then go_parse_time s else None),
      lf_limit = (let s = Query vs ''limit'' in if s \<noteq> [] then (case go_atoi s of Some v \<Rightarrow> v | None \<Rightarrow> 0) else 0),
      lf_offset = (let s = Query vs ''offset'' in if s \<noteq> [] then (case go_atoi s of Some v \<Rightarrow> v | None \<Rightarrow> 0) else 0)\<rparr>"

text \<open>The keys of a map are written in alphabetical order.\<close>

definition reader_List :: "reader \<Rightarrow> (gobytes \<times> gobytes) list \<Rightarrow> server \<Rightarrow> server \<times> response" where
  "reader_List rd vs sv =
     (let f = list_filter vs
      in answer_500 rd (\<lambda>(sessions, total). c_JSON 200 (JObj
           [(js ''data'', JArr (map (row_json rd) sessions)), (js ''limit'', jint (lf_limit f)),
            (js ''offset'', jint (lf_offset f)), (js ''total'', jint total)]))
         (list_sessions (rd_engine rd) f sv))"

definition reader_GetByID :: "reader \<Rightarrow> jsstr \<Rightarrow> server \<Rightarrow> server \<times> response" where
  "reader_GetByID rd i sv = answer_404 ''session not found'' (\<lambda>r. c_JSON 200 (row_json rd r)) (GetByID (rd_engine rd) i sv)"

definition reader_GetEvents :: "reader \<Rightarrow> jsstr \<Rightarrow> server \<Rightarrow> server \<times> response" where
  "reader_GetEvents rd i sv =
     answer_500 rd (\<lambda>es. c_JSON 200 (JArr (map (event_row_json rd) es))) (GetEvents (rd_engine rd) i sv)"

definition reader_Delete :: "reader \<Rightarrow> jsstr \<Rightarrow> server \<Rightarrow> server \<times> response" where
  "reader_Delete rd i sv = answer_500 rd (\<lambda>_. c_Status 204) (repo_DeleteSession (rd_engine rd) i sv)"

definition reader_CreateShareLink :: "reader \<Rightarrow> jsstr \<Rightarrow> server \<Rightarrow> server \<times> response" where
  "reader_CreateShareLink rd i sv =
     answer_404 ''session not found'' (\<lambda>tok. c_JSON 200 (JObj [(js ''token'', JStr tok)]))
       (CreateShareToken (rd_engine rd) i sv)"

definition reader_GetPublicSession :: "reader \<Rightarrow> jsstr \<Rightarrow> server \<Rightarrow> server \<times> response" where
  "reader_GetPublicSession rd tok sv =
     answer_404 ''not found'' (\<lambda>p. c_JSON 200 (public_json rd p)) (GetPublicSession (rd_engine rd) tok sv)"

definition reader_GetPublicEvents :: "reader \<Rightarrow> jsstr \<Rightarrow> server \<Rightarrow> server \<times> response" where
  "reader_GetPublicEvents rd tok sv =
     answer_404 ''not found'' (\<lambda>es. c_JSON 200 (JArr (map (event_row_json rd) es)))
       (GetPublicEvents (rd_engine rd) tok sv)"

definition reader_ListFailed :: "reader \<Rightarrow> (gobytes \<times> gobytes) list \<Rightarrow> server \<Rightarrow> server \<times> response" where
  "reader_ListFailed rd vs sv =
     answer_500 rd (\<lambda>fs. c_JSON 200 (JArr (map (failed_json rd) fs)))
       (repo_ListFailed (rd_engine rd) (Query vs ''resolved'' \<noteq> js ''true'') sv)"

definition reader_RetryFailed :: "reader \<Rightarrow> jsstr \<Rightarrow> server \<Rightarrow> server \<times> response" where
  "reader_RetryFailed rd i sv = answer_500 rd (\<lambda>_. c_Status 204) (RetryFailed (rd_engine rd) i sv)"

definition reader_RetryAll :: "reader \<Rightarrow> server \<Rightarrow> server \<times> response" where
  "reader_RetryAll rd sv =
     answer_500 rd (\<lambda>n. c_JSON 200 (JObj [(js ''retried'', jint n)])) (RetryAllFailed (rd_engine rd) sv)"


section \<open>Routes\<close>

datatype endpoint =
    StatsEP | ListEP | SessionEP jsstr | EventsEP jsstr | DeleteEP jsstr | ShareEP jsstr
  | FailedEP | RetryEP jsstr | RetryAllEP | PublicSessionEP jsstr | PublicEventsEP jsstr

text \<open>\<open>RegisterRoutes\<close> under \<open>/v1\<close> and \<open>RegisterPublicRoutes\<close> under \<open>/v1/public\<close>.\<close>

definition RegisterRoutes :: "jsstr \<Rightarrow> jsstr list \<Rightarrow> endpoint option" where
  "RegisterRoutes meth path =
     (if meth = js ''GET'' \<and> path = [js ''stats''] then Some StatsEP
      else if meth = js ''GET'' \<and> path = [js ''sessions''] then Some ListEP
      else if meth = js ''GET'' \<and> path = [js ''failed-ingest''] then Some FailedEP
      else if meth = js ''POST'' \<and> path = [js ''failed-ingest'', js ''retry-all''] then Some RetryAllEP
      else case path of
        [a, i] \<Rightarrow>
          if a = js ''sessions'' \<and> i \<noteq> [] \<and> meth = js ''GET'' then Some (SessionEP i)
          else if a = js ''sessions'' \<and> i \<noteq> [] \<and> meth = js ''DELETE'' then Some (DeleteEP i)
          else None
      | [a, i, b] \<Rightarrow>
          if i = [] then None
          else if a = js ''sessions'' \<and> b = js ''events'' \<and> meth = js ''GET'' then Some (EventsEP i)
          else if a = js ''sessions'' \<and> b = js ''share'' \<and> meth = js ''POST'' then Some (ShareEP i)
          else if a = js ''failed-ingest'' \<and> b = js ''retry'' \<and> meth = js ''POST'' then Some (RetryEP i)
          else None
      | _ \<Rightarrow> None)"

definition RegisterPublicRoutes :: "jsstr \<Rightarrow> jsstr list \<Rightarrow> endpoint option" where
  "RegisterPublicRoutes meth path =
     (case path of
        [a, t] \<Rightarrow> if a = js ''sessions'' \<and> t \<noteq> [] \<and> meth = js ''GET'' then Some (PublicSessionEP t) else None
      | [a, t, b] \<Rightarrow>
          if a = js ''sessions'' \<and> t \<noteq> [] \<and> b = js ''events'' \<and> meth = js ''GET'' then Some (PublicEventsEP t) else None
      | _ \<Rightarrow> None)"

fun handle :: "reader \<Rightarrow> (gobytes \<times> gobytes) list \<Rightarrow> endpoint \<Rightarrow> server \<Rightarrow> server \<times> response" where
  "handle rd vs StatsEP sv = reader_GetStats rd sv"
| "handle rd vs ListEP sv = reader_List rd vs sv"
| "handle rd vs (SessionEP i) sv = reader_GetByID rd i sv"
| "handle rd vs (EventsEP i) sv = reader_GetEvents rd i sv"
| "handle rd vs (DeleteEP i) sv = reader_Delete rd i sv"
| "handle rd vs (ShareEP i) sv = reader_CreateShareLink rd i sv"
| "handle rd vs FailedEP sv = reader_ListFailed rd vs sv"
| "handle rd vs (RetryEP i) sv = reader_RetryFailed rd i sv"
| "handle rd vs RetryAllEP sv = reader_RetryAll rd sv"
| "handle rd vs (PublicSessionEP t) sv = reader_GetPublicSession rd t sv"
| "handle rd vs (PublicEventsEP t) sv = reader_GetPublicEvents rd t sv"

text \<open>The token is checked before the handler runs.\<close>

definition JWTMiddleware :: "reader \<Rightarrow> request \<Rightarrow> (server \<Rightarrow> server \<times> response) \<Rightarrow> server \<Rightarrow> server \<times> response" where
  "JWTMiddleware rd rq h sv =
     (let auth = (case map_of (req_headers rq) (js ''Authorization'') of None \<Rightarrow> [] | Some a \<Rightarrow> a)
      in if \<not> startsWith auth (js ''Bearer '')
         then (sv, c_JSON 401 (error_json (js ''missing or invalid Authorization header'')))
         else if \<not> rd_token_ok rd (drop (length (js ''Bearer '')) auth)
         then (sv, c_JSON 401 (error_json (js ''invalid or expired token'')))
         else h sv)"

definition not_found :: response where
  "not_found = \<lparr>rsp_status = 404, rsp_body = js ''404 page not found''\<rparr>"

text \<open>A request whose address is a path with an optional query.\<close>

definition reader_serve :: "reader \<Rightarrow> request \<Rightarrow> server \<Rightarrow> server \<times> response" where
  "reader_serve rd rq sv =
     (let path = takeWhile (\<lambda>c. c \<noteq> 0x3F) (req_url rq);
          vs = go_values (drop 1 (dropWhile (\<lambda>c. c \<noteq> 0x3F) (req_url rq)))
      in case go_unescape False path of
           None \<Rightarrow> (sv, c_Status 400)
         | Some bs \<Rightarrow>
             (case split_on 0x2F (go_decode bs) of
                e # v # rest \<Rightarrow>
                  if e \<noteq> [] \<or> v \<noteq> js ''v1'' then (sv, not_found)
                  else if rest \<noteq> [] \<and> hd rest = js ''public''
                  then (case RegisterPublicRoutes (req_method rq) (tl rest) of
                          None \<Rightarrow> (sv, not_found)
                        | Some ep \<Rightarrow> handle rd vs ep sv)
                  else (case RegisterRoutes (req_method rq) rest of
                          None \<Rightarrow> (sv, not_found)
                        | Some ep \<Rightarrow> JWTMiddleware rd rq (handle rd vs ep) sv)
              | _ \<Rightarrow> (sv, not_found)))"

text \<open>
  The server as a client at an address sees it: what it answers, and its state afterwards. A
  request for another address ends in a network error.
\<close>

definition at_base :: "jsstr \<Rightarrow> request \<Rightarrow> request option" where
  "at_base base rq =
     (if startsWith (req_url rq) base then Some (rq\<lparr>req_url := drop (length base) (req_url rq)\<rparr>) else None)"

definition reader_srv :: "reader \<Rightarrow> jsstr \<Rightarrow> server \<Rightarrow> request \<Rightarrow> response res" where
  "reader_srv rd base sv rq =
     (case at_base base rq of None \<Rightarrow> Inl (Thrown ''Failed to fetch'') | Some rq' \<Rightarrow> Inr (snd (reader_serve rd rq' sv)))"

definition reader_after :: "reader \<Rightarrow> jsstr \<Rightarrow> server \<Rightarrow> request \<Rightarrow> server" where
  "reader_after rd base sv rq = (case at_base base rq of None \<Rightarrow> sv | Some rq' \<Rightarrow> fst (reader_serve rd rq' sv))"

end
