(* ===== verification/Timeline.thy ===== *)
theory Timeline
  imports JsonParse
begin

text \<open>
  The breadcrumb timeline (\<open>packages/dashboard/src/lib/timeline.ts\<close>) over recorded events.
  The \<open>data\<close> of an event is whatever JSON the recording produced, so it is a dynamic value,
  and every property access, method call and conversion the code performs on it may
  throw. \<open>toLowerCase\<close> is modelled on the ASCII letters.
\<close>

section \<open>Events and constants\<close>

record ReplayEvent =
  re_id :: jsstr
  re_session_id :: jsstr
  re_seq :: int
  re_type :: int
  re_data :: jsval
  re_timestamp :: int
  re_created_at :: jsstr

definition FULL_SNAPSHOT :: int where "FULL_SNAPSHOT = 2"
definition META :: int where "META = 4"
definition INCREMENTAL :: int where "INCREMENTAL = 3"
definition PLUGIN :: int where "PLUGIN = 6"
definition NODE_ELEMENT :: jsval where "NODE_ELEMENT = jint 2"
definition NODE_TEXT :: jsval where "NODE_TEXT = jint 3"
definition SOURCE_MUTATION :: jsval where "SOURCE_MUTATION = jint 0"
definition SOURCE_MOUSE_INTERACTION :: jsval where "SOURCE_MOUSE_INTERACTION = jint 2"
definition SOURCE_INPUT :: jsval where "SOURCE_INPUT = jint 5"
definition MOUSE_CLICK :: jsval where "MOUSE_CLICK = jint 2"
definition MOUSE_DBL_CLICK :: jsval where "MOUSE_DBL_CLICK = jint 4"

lemmas event_codes = FULL_SNAPSHOT_def META_def INCREMENTAL_def PLUGIN_def

lemmas node_codes = NODE_ELEMENT_def NODE_TEXT_def SOURCE_MUTATION_def SOURCE_MOUSE_INTERACTION_def
  SOURCE_INPUT_def MOUSE_CLICK_def MOUSE_DBL_CLICK_def

record NodeInfo =
  ni_tag :: jsval
  ni_text :: "jsstr option"
  ni_domId :: jsval
  ni_className :: "jsstr option"
  ni_aria :: jsval
  ni_name :: jsval
  ni_placeholder :: jsval

type_synonym node_map = "jsnum \<rightharpoonup> NodeInfo"


section \<open>Walking the serialized nodes\<close>

text \<open>\<open>(n?.childNodes ?? [])\<close> with \<open>forEach\<close>, which only arrays have.\<close>

definition child_nodes :: "jsval \<Rightarrow> jsval list res" where
  "child_nodes n =
     (case js_or_else (js_opt_get n (js ''childNodes'')) (JArr []) of
        JArr cs \<Rightarrow> Inr cs
      | _ \<Rightarrow> Inl TypeError)"

lemma child_nodes_smaller:
  assumes "child_nodes n = Inr cs" and "c \<in> set cs"
  shows "size c < size n"
proof -
  from assms obtain kvs where n: "n = JObj kvs" and m: "map_of kvs (js ''childNodes'') = Some (JArr cs)"
    by (cases n) (auto simp: child_nodes_def js_opt_get_def js_or_else_def split: option.splits jsval.splits if_splits)
  have "(js ''childNodes'', JArr cs) \<in> set kvs" using m by (rule map_of_SomeD)
  then have "size (JArr cs) < Suc (size_list (size_prod (\<lambda>_. 0) size) kvs)"
    using size_snd_member [of "(js ''childNodes'', JArr cs)" kvs] by simp
  moreover have "size c < size (JArr cs)" using assms(2) by (induction cs) auto
  ultimately show ?thesis by (simp add: n)
qed

text \<open>The inner function of \<open>collectText\<close>, on the text collected so far.\<close>

function walk_text :: "jsval \<Rightarrow> jsstr \<Rightarrow> jsstr res" where
  "walk_text n out =
     (if \<not> truthy n \<or> 60 < length out then Inr out
      else
        (let out' = (case js_opt_get n (js ''textContent'') of
                       JStr t \<Rightarrow> if js_opt_get n (js ''type'') = NODE_TEXT then out @ t else out
                     | _ \<Rightarrow> out)
         in bindR (child_nodes n) (\<lambda>cs. foldR walk_text cs out')))"
  by pat_completeness auto
termination
  by (relation "measure (\<lambda>(n, _). size n)") (auto dest: child_nodes_smaller)

declare walk_text.simps [simp del]

definition collectText :: "jsval \<Rightarrow> jsstr res" where
  "collectText node = bindR (walk_text node []) (\<lambda>out. Inr (one_line out))"

text \<open>The information kept for an element, and for a text node.\<close>

definition element_info :: "jsval \<Rightarrow> NodeInfo res" where
  "element_info n =
     (let a = js_or_else (js_opt_get n (js ''attributes'')) (JObj []) in
      bindR (collectText n) (\<lambda>t. Inr
        \<lparr>ni_tag = js_opt_get n (js ''tagName''),
         ni_text = Some t,
         ni_domId = js_opt_get a (js ''id''),
         ni_className = (case js_opt_get a (js ''class'') of JStr c \<Rightarrow> Some c | _ \<Rightarrow> None),
         ni_aria = js_opt_get a (js ''aria-label''),
         ni_name = js_opt_get a (js ''name''),
         ni_placeholder = js_opt_get a (js ''placeholder'')\<rparr>))"

definition text_info :: "jsval \<Rightarrow> NodeInfo res" where
  "text_info n =
     (case js_or_else (js_opt_get n (js ''textContent'')) (JStr []) of
        JStr t \<Rightarrow> Inr \<lparr>ni_tag = JUndef, ni_text = Some (one_line t), ni_domId = JUndef,
                     ni_className = None, ni_aria = JUndef, ni_name = JUndef, ni_placeholder = JUndef\<rparr>
      | _ \<Rightarrow> Inl TypeError)"

text \<open>What \<open>visit\<close> records for one node with a numeric identifier.\<close>

definition visit_here :: "jsval \<Rightarrow> jsnum \<Rightarrow> node_map \<Rightarrow> node_map res" where
  "visit_here n i m =
     (if js_opt_get n (js ''type'') = NODE_ELEMENT then bindR (element_info n) (\<lambda>x. Inr (m(i \<mapsto> x)))
      else if js_opt_get n (js ''type'') = NODE_TEXT then bindR (text_info n) (\<lambda>x. Inr (m(i \<mapsto> x)))
      else Inr m)"

function visit :: "jsval \<Rightarrow> node_map \<Rightarrow> node_map res" where
  "visit n m =
     bindR (if truthy n then (case js_opt_get n (js ''id'') of JNum i \<Rightarrow> visit_here n i m | _ \<Rightarrow> Inr m)
            else Inr m)
       (\<lambda>m'. bindR (child_nodes n) (\<lambda>cs. foldR visit cs m'))"
  by pat_completeness auto
termination
  by (relation "measure (\<lambda>(n, _). size n)") (auto dest: child_nodes_smaller)

declare visit.simps [simp del]

definition index_event :: "ReplayEvent \<Rightarrow> node_map \<Rightarrow> node_map res" where
  "index_event e m =
     (let d = re_data e in
      bindR (if re_type e = FULL_SNAPSHOT \<and> truthy (js_opt_get d (js ''node''))
             then visit (js_opt_get d (js ''node'')) m else Inr m)
        (\<lambda>m1. if re_type e = INCREMENTAL \<and> js_opt_get d (js ''source'') = SOURCE_MUTATION
              then (case js_opt_get d (js ''adds'') of
                      JArr adds \<Rightarrow> foldR (\<lambda>a m2. bindR (js_get a (js ''node'')) (\<lambda>n. visit n m2)) adds m1
                    | _ \<Rightarrow> Inr m1)
              else Inr m1))"

definition indexNodes :: "ReplayEvent list \<Rightarrow> node_map res" where
  "indexNodes events = foldR index_event events Map.empty"


section \<open>Labels\<close>

definition describe_info :: "NodeInfo \<Rightarrow> jsstr res" where
  "describe_info n =
     (case js_or_else (ni_tag n) (jstr ''element'') of
        JStr tg \<Rightarrow>
          (let tag = toLowerCase tg;
               txt = (case ni_text n of None \<Rightarrow> [] | Some t \<Rightarrow> slice0 40 t);
               label = js_or_else (ni_aria n) (js_or_else (ni_placeholder n) (ni_name n))
           in if txt \<noteq> [] then Inr (tag @ js '' \"'' @ txt @ js ''\"'')
              else if truthy label
              then bindR (js_String label) (\<lambda>l. Inr (tag @ js '' \"'' @ l @ js ''\"''))
              else if truthy (ni_domId n)
              then bindR (js_String (ni_domId n)) (\<lambda>i. Inr (tag @ js ''#'' @ i))
              else case ni_className n of
                     None \<Rightarrow> Inr tag
                   | Some c \<Rightarrow> if c = [] then Inr tag else Inr (tag @ js ''.'' @ hd (split_on 0x20 c)))
      | _ \<Rightarrow> Inl TypeError)"

definition describeNode :: "node_map \<Rightarrow> jsval \<Rightarrow> jsstr res" where
  "describeNode m v =
     (case v of
        JNum i \<Rightarrow> (case m i of None \<Rightarrow> Inr [] | Some n \<Rightarrow> describe_info n)
      | _ \<Rightarrow> Inr [])"

datatype TimelineKind = KError | KWarn | KLog | KInfo | KClick | KNavigate | KInput

record TimelineItem =
  ti_eventIndex :: nat
  ti_kind :: TimelineKind
  ti_message :: jsstr
  ti_timestamp :: int

record kind_meta =
  km_label :: jsstr
  km_color :: jsstr
  km_dot :: jsstr

fun KIND_META :: "TimelineKind \<Rightarrow> kind_meta" where
  "KIND_META KError = \<lparr>km_label = js ''error'', km_color = js ''text-[#f87171]'', km_dot = js ''bg-[#f87171]''\<rparr>"
| "KIND_META KWarn = \<lparr>km_label = js ''warn'', km_color = js ''text-[#fbbf24]'', km_dot = js ''bg-[#fbbf24]''\<rparr>"
| "KIND_META KLog = \<lparr>km_label = js ''log'', km_color = js ''text-[#94a3b8]'', km_dot = js ''bg-[#94a3b8]''\<rparr>"
| "KIND_META KInfo = \<lparr>km_label = js ''info'', km_color = js ''text-[#60a5fa]'', km_dot = js ''bg-[#60a5fa]''\<rparr>"
| "KIND_META KClick = \<lparr>km_label = js ''click'', km_color = js ''text-[#a78bfa]'', km_dot = js ''bg-[#a78bfa]''\<rparr>"
| "KIND_META KNavigate = \<lparr>km_label = js ''nav'', km_color = js ''text-[#34d399]'', km_dot = js ''bg-[#34d399]''\<rparr>"
| "KIND_META KInput = \<lparr>km_label = js ''input'', km_color = js ''text-[#64748b]'', km_dot = js ''bg-[#64748b]''\<rparr>"

definition consoleLevelToKind :: "jsval \<Rightarrow> TimelineKind" where
  "consoleLevelToKind level =
     (if level = jstr ''error'' \<or> level = jstr ''assert'' then KError
      else if level = jstr ''warn'' then KWarn
      else if level = jstr ''info'' then KInfo
      else KLog)"

definition format_arg :: "jsval \<Rightarrow> jsstr res" where
  "format_arg p =
     (case p of
        JStr s \<Rightarrow> Inr (if 2 \<le> length s \<and> startsWith s (js ''\"'') \<and> endsWith s (js ''\"'') then slice_inner s else s)
      | _ \<Rightarrow> js_String p)"

definition formatConsolePayload :: "jsval \<Rightarrow> jsstr res" where
  "formatConsolePayload payload =
     (case payload of
        JArr ps \<Rightarrow> bindR (mapR format_arg ps) (\<lambda>ss. Inr (trim (join (js '' '') ss)))
      | _ \<Rightarrow> js_String (js_or_else payload (JStr [])))"


section \<open>The timeline\<close>

definition console_item :: "nat \<Rightarrow> ReplayEvent \<Rightarrow> TimelineItem list res" where
  "console_item i e =
     (let payload = js_opt_get (re_data e) (js ''payload'');
          level = js_or_else (js_opt_get payload (js ''level'')) (jstr ''log'')
      in bindR (formatConsolePayload (js_opt_get payload (js ''payload''))) (\<lambda>msg.
           Inr (if msg = [] then []
                else [\<lparr>ti_eventIndex = i, ti_kind = consoleLevelToKind level, ti_message = msg,
                       ti_timestamp = re_timestamp e\<rparr>])))"

definition action_item :: "node_map \<Rightarrow> nat \<Rightarrow> ReplayEvent \<Rightarrow> TimelineItem list res" where
  "action_item nodes i e =
     (let d = re_data e; source = js_opt_get d (js ''source'');
          item = (\<lambda>k msg. [\<lparr>ti_eventIndex = i, ti_kind = k, ti_message = msg, ti_timestamp = re_timestamp e\<rparr>])
      in if source = SOURCE_MOUSE_INTERACTION then
           (let t = js_opt_get d (js ''type'') in
            if t = MOUSE_CLICK \<or> t = MOUSE_DBL_CLICK then
              (let verb = (if t = MOUSE_DBL_CLICK then js ''Double click'' else js ''Click'')
               in bindR (describeNode nodes (js_opt_get d (js ''id''))) (\<lambda>target.
                    Inr (item KClick (if target \<noteq> [] then verb @ js '' on '' @ target else verb))))
            else Inr [])
         else if source = SOURCE_INPUT then
           bindR (describeNode nodes (js_opt_get d (js ''id''))) (\<lambda>target.
             Inr (item KInput (if target \<noteq> [] then js ''Typed in '' @ target else js ''User typed'')))
         else Inr [])"

definition is_console_event :: "ReplayEvent \<Rightarrow> bool" where
  "is_console_event e \<longleftrightarrow> re_type e = PLUGIN \<and> truthy (re_data e)
     \<and> (case js_opt_get (re_data e) (js ''plugin'') of JStr p \<Rightarrow> includes_str p (js ''console'') | _ \<Rightarrow> False)"

text \<open>The body of the callback of \<open>forEach\<close>: the items one event pushes.\<close>

definition event_items :: "node_map \<Rightarrow> nat \<Rightarrow> ReplayEvent \<Rightarrow> TimelineItem list res" where
  "event_items nodes i e =
     (let d = re_data e in
      if is_console_event e then console_item i e
      else if re_type e = META \<and> truthy d \<and> is_str (js_opt_get d (js ''href''))
      then (case js_opt_get d (js ''href'') of
              JStr href \<Rightarrow> Inr [\<lparr>ti_eventIndex = i, ti_kind = KNavigate, ti_message = href,
                               ti_timestamp = re_timestamp e\<rparr>]
            | _ \<Rightarrow> Inr [])
      else if re_type e = INCREMENTAL \<and> truthy d then action_item nodes i e
      else Inr [])"

fun timeline_from :: "node_map \<Rightarrow> nat \<Rightarrow> ReplayEvent list \<Rightarrow> TimelineItem list res" where
  "timeline_from nodes i [] = Inr []"
| "timeline_from nodes i (e # es) =
     bindR (event_items nodes i e) (\<lambda>xs.
       bindR (timeline_from nodes (Suc i) es) (\<lambda>ys. Inr (xs @ ys)))"

definition buildTimeline :: "ReplayEvent list \<Rightarrow> TimelineItem list res" where
  "buildTimeline events = bindR (indexNodes events) (\<lambda>nodes. timeline_from nodes 0 events)"

fun count_console :: "TimelineItem list \<Rightarrow> nat \<times> nat \<Rightarrow> nat \<times> nat" where
  "count_console [] (errors, warnings) = (errors, warnings)"
| "count_console (item # items) (errors, warnings) =
     (if ti_kind item = KError then count_console items (Suc errors, warnings)
      else if ti_kind item = KWarn then count_console items (errors, Suc warnings)
      else count_console items (errors, warnings))"

definition countConsole :: "TimelineItem list \<Rightarrow> nat \<times> nat" where
  "countConsole items = count_console items (0, 0)"



section \<open>When the timeline cannot throw\<close>

text \<open>
  The shape \<open>rrweb\<close> gives its nodes: children in an array, text and tag names that are
  strings if present, attributes that convert to strings.
\<close>

definition str_or_none :: "jsval \<Rightarrow> bool" where
  "str_or_none v \<longleftrightarrow> nullish v \<or> is_str v"

definition node_fields_ok :: "jsval \<Rightarrow> bool" where
  "node_fields_ok n \<longleftrightarrow> str_or_none (js_opt_get n (js ''textContent''))
     \<and> str_or_none (js_opt_get n (js ''tagName'')) \<and> js_opt_get n (js ''tagName'') \<noteq> JStr []
     \<and> list_all (\<lambda>k. printable (js_opt_get (js_or_else (js_opt_get n (js ''attributes'')) (JObj [])) k))
         [js ''id'', js ''aria-label'', js ''name'', js ''placeholder'']"

function node_ok :: "jsval \<Rightarrow> bool" where
  "node_ok n \<longleftrightarrow> node_fields_ok n
     \<and> (case child_nodes n of Inl _ \<Rightarrow> False | Inr cs \<Rightarrow> \<forall>c\<in>set cs. node_ok c)"
  by pat_completeness auto
termination
  by (relation "measure size") (auto dest: child_nodes_smaller)

declare node_ok.simps [simp del]

definition rrweb_event :: "ReplayEvent \<Rightarrow> bool" where
  "rrweb_event e \<longleftrightarrow>
     (re_type e = FULL_SNAPSHOT \<longrightarrow> node_ok (js_opt_get (re_data e) (js ''node'')))
   \<and> (re_type e = INCREMENTAL \<longrightarrow>
        (case js_opt_get (re_data e) (js ''adds'') of
           JArr adds \<Rightarrow> \<forall>a\<in>set adds. \<not> nullish a \<and> node_ok (js_opt_get a (js ''node''))
         | _ \<Rightarrow> True))
   \<and> (re_type e = PLUGIN \<longrightarrow>
        printable (js_opt_get (js_opt_get (re_data e) (js ''payload'')) (js ''payload'')))"

definition info_ok :: "NodeInfo \<Rightarrow> bool" where
  "info_ok n \<longleftrightarrow> str_or_none (ni_tag n) \<and> ni_tag n \<noteq> JStr [] \<and> printable (ni_domId n) \<and> printable (ni_aria n)
     \<and> printable (ni_name n) \<and> printable (ni_placeholder n)"

definition map_ok :: "node_map \<Rightarrow> bool" where
  "map_ok m \<longleftrightarrow> (\<forall>i n. m i = Some n \<longrightarrow> info_ok n)"

lemma node_okD:
  assumes "node_ok n"
  obtains cs where "child_nodes n = Inr cs" and "\<forall>c\<in>set cs. node_ok c" and "node_fields_ok n"
  using assms by (auto simp: node_ok.simps [of n] split: sum.splits)

lemma map_ok_upd: "map_ok m \<Longrightarrow> info_ok x \<Longrightarrow> map_ok (m(i \<mapsto> x))"
  by (auto simp: map_ok_def)

lemma walk_text_total: "node_ok n \<Longrightarrow> \<exists>t. walk_text n out = Inr t"
proof (induction n out rule: walk_text.induct)
  case (1 n out)
  obtain cs where cs: "child_nodes n = Inr cs" "\<forall>c\<in>set cs. node_ok c" by (rule node_okD [OF "1.prems"])
  show ?case
  proof (cases "\<not> truthy n \<or> 60 < length out")
    case True
    then show ?thesis by (subst walk_text.simps) simp
  next
    case False
    have "\<exists>t. foldR walk_text cs u = Inr t" for u
      by (rule foldR_total) (use "1.IH" False cs in blast)
    with False cs show ?thesis by (subst walk_text.simps) (simp add: Let_def)
  qed
qed

lemma element_info_ok: "node_ok n \<Longrightarrow> \<exists>x. element_info n = Inr x \<and> info_ok x"
  using walk_text_total [of n "[]"]
  by (auto simp: element_info_def collectText_def info_ok_def Let_def node_fields_ok_def elim!: node_okD)

lemma text_info_ok: "node_ok n \<Longrightarrow> \<exists>x. text_info n = Inr x \<and> info_ok x"
proof -
  assume "node_ok n"
  then have "str_or_none (js_opt_get n (js ''textContent''))"
    by (auto simp: node_fields_ok_def elim: node_okD)
  then show ?thesis
    by (cases "js_opt_get n (js ''textContent'')")
       (auto simp: text_info_def info_ok_def str_or_none_def)
qed

lemma visit_here_ok: "node_ok n \<Longrightarrow> map_ok m \<Longrightarrow> \<exists>m'. visit_here n i m = Inr m' \<and> map_ok m'"
  using element_info_ok [of n] text_info_ok [of n] by (auto simp: visit_here_def map_ok_upd)

lemma visit_ok: "node_ok n \<Longrightarrow> map_ok m \<Longrightarrow> \<exists>m'. visit n m = Inr m' \<and> map_ok m'"
proof (induction n m rule: visit.induct)
  case (1 n m)
  obtain cs where cs: "child_nodes n = Inr cs" "\<forall>c\<in>set cs. node_ok c" by (rule node_okD [OF "1.prems"(1)])
  obtain m1 where m1: "(if truthy n then (case js_opt_get n (js ''id'') of JNum i \<Rightarrow> visit_here n i m | _ \<Rightarrow> Inr m)
      else Inr m) = Inr m1" "map_ok m1"
  proof (cases "\<exists>i. truthy n \<and> js_opt_get n (js ''id'') = JNum i")
    case True
    then obtain i where "truthy n" "js_opt_get n (js ''id'') = JNum i" by blast
    with visit_here_ok [OF "1.prems", of i] show ?thesis using that by auto
  next
    case False
    then show ?thesis using that [of m] "1.prems"(2) by (auto split: jsval.split)
  qed
  have "\<exists>t. foldR visit cs m1 = Inr t \<and> map_ok t"
    by (rule foldR_total_inv [of map_ok]) (use "1.IH" m1 cs in blast)+
  with m1 cs show ?case by (subst visit.simps) simp
qed

lemma index_event_ok:
  assumes "rrweb_event e" and "map_ok m"
  shows "\<exists>m'. index_event e m = Inr m' \<and> map_ok m'"
proof -
  obtain m1 where m1: "(if re_type e = FULL_SNAPSHOT \<and> truthy (js_opt_get (re_data e) (js ''node''))
      then visit (js_opt_get (re_data e) (js ''node'')) m else Inr m) = Inr m1" "map_ok m1"
  proof (cases "re_type e = FULL_SNAPSHOT \<and> truthy (js_opt_get (re_data e) (js ''node''))")
    case True
    then have "node_ok (js_opt_get (re_data e) (js ''node''))" using assms(1) by (simp add: rrweb_event_def)
    from visit_ok [OF this assms(2)] True show ?thesis using that by auto
  next
    case False
    show ?thesis by (rule that [OF if_not_P [OF False] assms(2)])
  qed
  have adds: "\<exists>m'. foldR (\<lambda>a m2. bindR (js_get a (js ''node'')) (\<lambda>n. visit n m2)) adds m1 = Inr m' \<and> map_ok m'"
    if ok: "\<forall>a\<in>set adds. \<not> nullish a \<and> node_ok (js_opt_get a (js ''node''))" for adds
  proof (rule foldR_total_inv [of map_ok, OF m1(2)])
    fix a u
    assume a: "a \<in> set adds" "map_ok u"
    then obtain x where x: "js_get a (js ''node'') = Inr x" using ok js_get_Inr by blast
    with ok a have "node_ok x" by (force simp: js_opt_get_def)
    with visit_ok [OF _ a(2)] x show "\<exists>v. bindR (js_get a (js ''node'')) (\<lambda>n. visit n u) = Inr v \<and> map_ok v"
      by simp
  qed
  show ?thesis
    using m1 assms(1) adds
    by (cases "js_opt_get (re_data e) (js ''adds'')") (simp_all add: index_event_def Let_def rrweb_event_def)
qed

lemma indexNodes_ok:
  assumes "\<forall>e\<in>set events. rrweb_event e"
  shows "\<exists>m. indexNodes events = Inr m \<and> map_ok m"
  unfolding indexNodes_def
  by (rule foldR_total_inv [of map_ok]) (use assms index_event_ok in \<open>auto simp: map_ok_def\<close>)

lemma describe_info_ok:
  assumes "info_ok n"
  shows "\<exists>s. describe_info n = Inr s \<and> s \<noteq> []"
proof -
  have lab: "printable (js_or_else (ni_aria n) (js_or_else (ni_placeholder n) (ni_name n)))"
    using assms by (simp add: info_ok_def js_or_else_def)
  have dom: "printable (ni_domId n)" using assms by (simp add: info_ok_def)
  obtain tg where "js_or_else (ni_tag n) (jstr ''element'') = JStr tg" "toLowerCase tg \<noteq> []"
    using assms by (cases "ni_tag n") (auto simp: info_ok_def str_or_none_def toLowerCase_def)
  with js_String_printable [OF lab] js_String_printable [OF dom] show ?thesis
    by (auto simp: describe_info_def Let_def split: option.split)
qed

lemma describeNode_ok: "map_ok m \<Longrightarrow> \<exists>s. describeNode m v = Inr s"
  using describe_info_ok by (cases v) (fastforce simp: describeNode_def map_ok_def split: option.split)+

lemma formatConsolePayload_ok:
  assumes "printable v"
  shows "\<exists>s. formatConsolePayload v = Inr s"
proof (cases v)
  case (JArr ps)
  have "\<exists>ss. mapR format_arg ps = Inr ss"
  proof (rule mapR_total)
    fix p
    assume "p \<in> set ps"
    with assms JArr have "printable p" by simp
    from js_String_printable [OF this] show "\<exists>y. format_arg p = Inr y" by (cases p) (auto simp: format_arg_def)
  qed
  with JArr show ?thesis by (auto simp: formatConsolePayload_def)
qed (use js_String_printable [OF assms] in \<open>auto simp: formatConsolePayload_def\<close>)

lemma event_items_ok:
  assumes "rrweb_event e" and "map_ok m"
  shows "\<exists>xs. event_items m i e = Inr xs"
proof -
  have "\<exists>xs. console_item i e = Inr xs" if "re_type e = PLUGIN"
  proof -
    have "printable (js_opt_get (js_opt_get (re_data e) (js ''payload'')) (js ''payload''))"
      using assms(1) that by (simp add: rrweb_event_def)
    from formatConsolePayload_ok [OF this] show ?thesis by (auto simp: console_item_def Let_def)
  qed
  moreover have "\<exists>xs. action_item m i e = Inr xs"
    using describeNode_ok [OF assms(2), of "js_opt_get (re_data e) (js ''id'')"]
    by (auto simp: action_item_def Let_def)
  ultimately show ?thesis
    by (auto simp: event_items_def Let_def is_console_event_def split: jsval.split)
qed

lemma timeline_from_ok:
  "\<forall>e\<in>set es. rrweb_event e \<Longrightarrow> map_ok m \<Longrightarrow> \<exists>xs. timeline_from m i es = Inr xs"
proof (induction es arbitrary: i)
  case (Cons e es)
  then obtain xs ys where "event_items m i e = Inr xs" "timeline_from m (Suc i) es = Inr ys"
    using event_items_ok by (metis list.set_intros)
  then show ?case by simp
qed simp


lemma buildTimeline_ok:
  assumes "\<forall>e\<in>set events. rrweb_event e"
  shows "\<exists>items. buildTimeline events = Inr items"
proof -
  obtain m where m: "indexNodes events = Inr m" "map_ok m" using indexNodes_ok [OF assms] by blast
  with timeline_from_ok [OF assms m(2)] show ?thesis by (simp add: buildTimeline_def)
qed

definition demo_node :: jsval where
  "demo_node = JObj [(js ''id'', jint 1), (js ''type'', jint 2), (js ''tagName'', jstr ''BUTTON''),
     (js ''attributes'', JObj [(js ''class'', jstr ''btn primary'')]),
     (js ''childNodes'', JArr [JObj [(js ''id'', jint 2), (js ''type'', jint 3), (js ''textContent'', jstr '' Buy   now'')]])]"

definition demo_replay :: "int \<Rightarrow> jsval \<Rightarrow> int \<Rightarrow> ReplayEvent" where
  "demo_replay ty d ts = \<lparr>re_id = [], re_session_id = [], re_seq = 0, re_type = ty, re_data = d,
     re_timestamp = ts, re_created_at = []\<rparr>"

definition demo_events :: "ReplayEvent list" where
  "demo_events =
     [demo_replay 4 (JObj [(js ''href'', jstr ''http://shop/'')]) 1000,
      demo_replay 2 (JObj [(js ''node'', demo_node)]) 1001,
      demo_replay 3 (JObj [(js ''source'', jint 1)]) 1500,
      demo_replay 3 (JObj [(js ''source'', jint 2), (js ''type'', jint 2), (js ''id'', jint 1)]) 2000,
      demo_replay 6 (JObj [(js ''plugin'', jstr ''rrweb/console@1''), (js ''payload'', JObj [(js ''level'', jstr ''error''),
        (js ''payload'', JArr [jstr ''\"boom\"'', jint 7])])]) 2500]"

lemma demo_node_ok: "node_ok demo_node"
  by (simp add: node_ok.simps demo_node_def node_fields_ok_def child_nodes_def js_opt_get_def str_or_none_def)

lemma demo_events_ok: "\<forall>e\<in>set demo_events. rrweb_event e"
  using demo_node_ok
  by (simp add: demo_events_def demo_replay_def rrweb_event_def event_codes js_opt_get_def)


section \<open>What is in the timeline\<close>

text \<open>
  The specification of the filter: which events make it into the timeline, and as what.
  Everything else (snapshots, mutations, scrolling, mouse moves) is noise.
\<close>

definition event_kind :: "ReplayEvent \<Rightarrow> TimelineKind option" where
  "event_kind e =
     (let d = re_data e; source = js_opt_get d (js ''source'') in
      if is_console_event e then
        (let p = js_opt_get d (js ''payload'') in
         if formatConsolePayload (js_opt_get p (js ''payload'')) = Inr [] then None
         else Some (consoleLevelToKind (js_or_else (js_opt_get p (js ''level'')) (jstr ''log''))))
      else if re_type e = 4 \<and> is_str (js_opt_get d (js ''href'')) then Some KNavigate
      else if re_type e = 3 \<and> source = jint 2 \<and> js_opt_get d (js ''type'') \<in> {jint 2, jint 4} then Some KClick
      else if re_type e = 3 \<and> source = jint 5 then Some KInput
      else None)"

definition stamp :: "TimelineItem \<Rightarrow> nat \<times> TimelineKind \<times> int" where
  "stamp it = (ti_eventIndex it, ti_kind it, ti_timestamp it)"

definition spec_items :: "nat \<Rightarrow> ReplayEvent \<Rightarrow> (nat \<times> TimelineKind \<times> int) list" where
  "spec_items i e = (case event_kind e of None \<Rightarrow> [] | Some k \<Rightarrow> [(i, k, re_timestamp e)])"

lemma opt_get_truthy: "js_opt_get d k \<noteq> JUndef \<Longrightarrow> truthy d"
  by (cases d) (auto simp: js_opt_get_def)

lemma is_str_iff: "is_str v \<longleftrightarrow> (\<exists>s. v = JStr s)"
  by (cases v) simp_all

lemma event_items_spec:
  assumes "event_items m i e = Inr xs"
  shows "map stamp xs = spec_items i e"
proof (cases "is_console_event e")
  case True
  with assms show ?thesis
    by (auto simp: event_items_def console_item_def spec_items_def event_kind_def stamp_def Let_def bindR_eq_Inr)
next
  case False
  note nc = this
  show ?thesis
  proof (cases "re_type e = 4 \<and> is_str (js_opt_get (re_data e) (js ''href''))")
    case True
    then obtain s where s: "js_opt_get (re_data e) (js ''href'') = JStr s" by (auto simp: is_str_iff)
    then have "truthy (re_data e)" using opt_get_truthy [of "re_data e" "js ''href''"] by simp
    with True nc s assms show ?thesis
      by (auto simp: event_items_def spec_items_def event_kind_def stamp_def Let_def event_codes)
  next
    case False
    have t: "truthy (re_data e)" if "js_opt_get (re_data e) (js ''source'') = jint n" for n
      using that opt_get_truthy [of "re_data e" "js ''source''"] by simp
    show ?thesis
      using False nc assms t
      by (auto simp: event_items_def action_item_def spec_items_def event_kind_def stamp_def Let_def
          event_codes node_codes bindR_eq_Inr split: if_splits)
  qed
qed

lemma timeline_from_spec:
  "timeline_from m i es = Inr items \<Longrightarrow>
     map stamp items = concat (map (\<lambda>j. spec_items (i + j) (es ! j)) [0..<length es])"
proof (induction es arbitrary: i items)
  case (Cons e es)
  then obtain xs ys where xs: "event_items m i e = Inr xs" and ys: "timeline_from m (Suc i) es = Inr ys"
    and items: "items = xs @ ys"
    by (auto simp: bindR_eq_Inr)
  have "[0..<length (e # es)] = 0 # map Suc [0..<length es]"
    by (simp add: upt_conv_Cons map_Suc_upt del: upt_Suc)
  then show ?case
    using event_items_spec [OF xs] Cons.IH [OF ys] items by (simp add: o_def)
qed simp

lemma spec_items_sorted:
  "sorted_wrt (<) (map fst (concat (map (\<lambda>j. spec_items j (es j)) [0..<n])))"
proof (induction n)
  case (Suc n)
  have "\<forall>x\<in>set (map fst (concat (map (\<lambda>j. spec_items j (es j)) [0..<n]))). x < n"
    by (auto simp: spec_items_def split: option.splits)
  with Suc show ?case
    by (auto simp: sorted_wrt_append spec_items_def split: option.split)
qed simp

lemma timeline_items_located:
  assumes "buildTimeline events = Inr items" and "it \<in> set items"
  shows "ti_eventIndex it < length events \<and> ti_timestamp it = re_timestamp (events ! ti_eventIndex it)"
proof -
  from assms(1) obtain m where "timeline_from m 0 events = Inr items"
    by (auto simp: buildTimeline_def bindR_eq_Inr)
  from timeline_from_spec [OF this]
  have s: "map stamp items = concat (map (\<lambda>j. spec_items j (events ! j)) [0..<length events])" by simp
  have "stamp it \<in> set (map stamp items)" using assms(2) by simp
  then have "stamp it \<in> set (concat (map (\<lambda>j. spec_items j (events ! j)) [0..<length events]))"
    unfolding s .
  then show ?thesis by (auto simp: stamp_def spec_items_def split: option.splits)
qed

lemma timeline_filtered:
  assumes "buildTimeline events = Inr items"
  shows "map (\<lambda>it. (ti_eventIndex it, ti_kind it, ti_timestamp it)) items =
      concat (map (\<lambda>i. case event_kind (events ! i) of None \<Rightarrow> []
          | Some k \<Rightarrow> [(i, k, re_timestamp (events ! i))]) [0..<length events])
    \<and> sorted_wrt (<) (map ti_eventIndex items)"
proof -
  from assms obtain m where "timeline_from m 0 events = Inr items"
    by (auto simp: buildTimeline_def bindR_eq_Inr)
  from timeline_from_spec [OF this]
  have s: "map stamp items = concat (map (\<lambda>j. spec_items j (events ! j)) [0..<length events])" by simp
  have "map fst (map stamp items) = map ti_eventIndex items" by (simp add: stamp_def)
  with spec_items_sorted [of "\<lambda>j. events ! j" "length events"] s
  have "sorted_wrt (<) (map ti_eventIndex items)" by metis
  with s show ?thesis by (simp add: stamp_def [abs_def] spec_items_def)
qed

text \<open>
  Property C13 (the timeline is the recording without its noise). For events of the shape the recorder produces (node
  trees with arrays of children, string tag names and text, attributes and console arguments that convert to
  strings; nothing is required of any other field) \<open>buildTimeline\<close> returns and never throws. The items of the timeline
  are, in the order of the events and with their positions and timestamps, exactly the console messages that
  are not empty (under the kind of their level), the navigations, the single and double
  clicks and the inputs; each event gives at most one item, and positions increase
  strictly, so that the player can seek to each.
\<close>

theorem timeline_is_filtered_recording:
  assumes "\<forall>e\<in>set events. rrweb_event e"
  shows "\<exists>items. buildTimeline events = Inr items
    \<and> map (\<lambda>it. (ti_eventIndex it, ti_kind it, ti_timestamp it)) items =
        concat (map (\<lambda>i. case event_kind (events ! i) of None \<Rightarrow> []
            | Some k \<Rightarrow> [(i, k, re_timestamp (events ! i))]) [0..<length events])
    \<and> sorted_wrt (<) (map ti_eventIndex items)"
  using buildTimeline_ok [OF assms] timeline_filtered by blast

theorem timeline_is_filtered_recording_witness:
  "\<exists>items. buildTimeline demo_events = Inr items
     \<and> map (\<lambda>it. (ti_eventIndex it, ti_kind it, ti_timestamp it)) items =
         [(0, KNavigate, 1000), (3, KClick, 2000), (4, KError, 2500)]
     \<and> sorted_wrt (<) (map ti_eventIndex items)"
proof -
  have msg: "formatConsolePayload (JArr [jstr ''\"boom\"'', jint 7]) \<noteq> Inr []" by code_simp
  have con: "includes_str (js ''rrweb/console@1'') (js ''console'')" by code_simp
  have "map event_kind demo_events = [Some KNavigate, None, None, Some KClick, Some KError]"
    using msg con
    by (simp add: demo_events_def demo_replay_def event_kind_def is_console_event_def event_codes
        js_opt_get_def consoleLevelToKind_def Let_def)
  then have "event_kind (demo_events ! 0) = Some KNavigate" "event_kind (demo_events ! 1) = None"
    "event_kind (demo_events ! 2) = None" "event_kind (demo_events ! 3) = Some KClick"
    "event_kind (demo_events ! 4) = Some KError"
    by (simp_all add: demo_events_def)
  moreover have "[0..<length demo_events] = [0, 1, 2, 3, 4]" by (simp add: demo_events_def upt_rec)
  ultimately have "concat (map (\<lambda>i. case event_kind (demo_events ! i) of None \<Rightarrow> []
      | Some k \<Rightarrow> [(i, k, re_timestamp (demo_events ! i))]) [0..<length demo_events])
      = [(0, KNavigate, 1000), (3, KClick, 2000), (4, KError, 2500)]"
    by (simp add: demo_events_def demo_replay_def)
  with timeline_is_filtered_recording [OF demo_events_ok] show ?thesis by auto
qed



section \<open>Clicks are named\<close>

text \<open>The nodes of a serialized tree.\<close>

function nodes_of :: "jsval \<Rightarrow> jsval list" where
  "nodes_of n = n # (case child_nodes n of Inl _ \<Rightarrow> [] | Inr cs \<Rightarrow> concat (map nodes_of cs))"
  by pat_completeness auto
termination
  by (relation "measure size") (auto dest: child_nodes_smaller)

declare nodes_of.simps [simp del]

lemma foldR_dom_mono:
  assumes "foldR f xs m = Inr m'" and "\<And>x u v. x \<in> set xs \<Longrightarrow> f x u = Inr v \<Longrightarrow> dom u \<subseteq> dom v"
  shows "dom m \<subseteq> dom m'"
  using assms(1) by (rule foldR_Inr_inv [of _ _ _ _ "\<lambda>u. dom m \<subseteq> dom u"]) (use assms(2) in blast)+

lemma visit_here_mono: "visit_here n i m = Inr m' \<Longrightarrow> dom m \<subseteq> dom m'"
  by (auto simp: visit_here_def bindR_eq_Inr split: if_splits)

lemma visit_mono: "visit n m = Inr m' \<Longrightarrow> dom m \<subseteq> dom m'"
proof (induction n m arbitrary: m' rule: visit.induct)
  case (1 n m)
  from "1.prems" obtain m1 cs where
      m1: "(if truthy n then (case js_opt_get n (js ''id'') of JNum i \<Rightarrow> visit_here n i m | _ \<Rightarrow> Inr m)
        else Inr m) = Inr m1"
    and cs: "child_nodes n = Inr cs" and f: "foldR visit cs m1 = Inr m'"
    by (subst (asm) visit.simps) (auto simp: bindR_eq_Inr)
  have "dom m \<subseteq> dom m1" using m1 visit_here_mono by (auto split: if_splits jsval.splits)
  moreover have "dom m1 \<subseteq> dom m'" by (rule foldR_dom_mono [OF f]) (use "1.IH" m1 cs in blast)
  ultimately show ?case by blast
qed

lemma foldR_reaches:
  assumes "foldR f xs m = Inr m'" and "x \<in> set xs"
    and "\<And>y u v. y \<in> set xs \<Longrightarrow> f y u = Inr v \<Longrightarrow> dom u \<subseteq> dom v"
    and "\<And>u v. f x u = Inr v \<Longrightarrow> i \<in> dom v"
  shows "i \<in> dom m'"
proof -
  from assms(2) obtain as bs where xs: "xs = as @ x # bs" by (auto simp: in_set_conv_decomp)
  from assms(1) obtain u v where "f x u = Inr v" and rest: "foldR f bs v = Inr m'"
    by (auto simp: xs foldR_append bindR_eq_Inr)
  then have "i \<in> dom v" using assms(4) by blast
  moreover have "dom v \<subseteq> dom m'"
  proof (rule foldR_dom_mono [OF rest])
    fix y u w
    assume "y \<in> set bs" and "f y u = Inr w"
    then show "dom u \<subseteq> dom w" using assms(3) [of y] xs by simp
  qed
  ultimately show ?thesis by blast
qed

lemma visit_covers:
  assumes "visit n m = Inr m'" and "x \<in> set (nodes_of n)"
    and "js_opt_get x (js ''id'') = JNum i" and "js_opt_get x (js ''type'') = NODE_ELEMENT"
  shows "i \<in> dom m'"
  using assms(1,2)
proof (induction n m arbitrary: m' rule: visit.induct)
  case (1 n m)
  from "1.prems"(1) obtain m1 cs where
      m1: "(if truthy n then (case js_opt_get n (js ''id'') of JNum i \<Rightarrow> visit_here n i m | _ \<Rightarrow> Inr m)
        else Inr m) = Inr m1"
    and cs: "child_nodes n = Inr cs" and f: "foldR visit cs m1 = Inr m'"
    by (subst (asm) visit.simps) (auto simp: bindR_eq_Inr)
  show ?case
  proof (cases "x = n")
    case True
    then have "truthy n" using assms(3) opt_get_truthy [of n "js ''id''"] by simp
    with m1 True assms(3,4) have "i \<in> dom m1" by (auto simp: visit_here_def bindR_eq_Inr)
    moreover have "dom m1 \<subseteq> dom m'" by (rule foldR_dom_mono [OF f]) (use visit_mono in blast)
    ultimately show ?thesis by blast
  next
    case False
    then obtain c where c: "c \<in> set cs" "x \<in> set (nodes_of c)"
      using "1.prems"(2) cs by (subst (asm) nodes_of.simps) auto
    show ?thesis by (rule foldR_reaches [OF f c(1)]) (use visit_mono "1.IH" m1 cs c in blast)+
  qed
qed

lemma index_event_mono:
  assumes "index_event e m = Inr m'"
  shows "dom m \<subseteq> dom m'"
proof -
  from assms obtain m1 where
      m1: "(if re_type e = FULL_SNAPSHOT \<and> truthy (js_opt_get (re_data e) (js ''node''))
        then visit (js_opt_get (re_data e) (js ''node'')) m else Inr m) = Inr m1"
    and r: "m' = m1 \<or> (\<exists>adds. foldR (\<lambda>a m2. bindR (js_get a (js ''node'')) (\<lambda>n. visit n m2)) adds m1 = Inr m')"
    by (auto simp: index_event_def Let_def bindR_eq_Inr split: if_splits jsval.splits)
  have "dom m \<subseteq> dom m1" using m1 visit_mono by (auto split: if_splits)
  moreover have "dom m1 \<subseteq> dom m'" using r
  proof
    assume "\<exists>adds. foldR (\<lambda>a m2. bindR (js_get a (js ''node'')) (\<lambda>n. visit n m2)) adds m1 = Inr m'"
    then obtain adds where f: "foldR (\<lambda>a m2. bindR (js_get a (js ''node'')) (\<lambda>n. visit n m2)) adds m1 = Inr m'" ..
    show ?thesis by (rule foldR_dom_mono [OF f]) (auto simp: bindR_eq_Inr dest!: visit_mono)
  qed simp
  ultimately show ?thesis by blast
qed

text \<open>The elements of a full snapshot.\<close>

definition snapshot_element :: "ReplayEvent list \<Rightarrow> jsnum \<Rightarrow> bool" where
  "snapshot_element events i \<longleftrightarrow> (\<exists>e\<in>set events. re_type e = FULL_SNAPSHOT
     \<and> (\<exists>x\<in>set (nodes_of (js_opt_get (re_data e) (js ''node''))).
          js_opt_get x (js ''id'') = JNum i \<and> js_opt_get x (js ''type'') = NODE_ELEMENT))"

lemma nodes_of_truthy:
  assumes "x \<in> set (nodes_of n)" and "js_opt_get x k \<noteq> JUndef"
  shows "truthy n"
proof (rule ccontr)
  assume f: "\<not> truthy n"
  then have "child_nodes n = Inr []"
    by (cases n) (auto simp: child_nodes_def js_opt_get_def)
  then have "x = n" using assms(1) by (subst (asm) nodes_of.simps) simp
  with f assms(2) opt_get_truthy show False by blast
qed

lemma indexNodes_covers:
  assumes "indexNodes events = Inr m" and "snapshot_element events i"
  shows "i \<in> dom m"
proof -
  from assms(2) obtain e x where e: "e \<in> set events" "re_type e = FULL_SNAPSHOT"
    and x: "x \<in> set (nodes_of (js_opt_get (re_data e) (js ''node'')))"
      "js_opt_get x (js ''id'') = JNum i" "js_opt_get x (js ''type'') = NODE_ELEMENT"
    by (auto simp: snapshot_element_def)
  have t: "truthy (js_opt_get (re_data e) (js ''node''))" using nodes_of_truthy [OF x(1), of "js ''id''"] x(2) by simp
  have "i \<in> dom v" if "index_event e u = Inr v" for u v
  proof -
    from that obtain m1 where "visit (js_opt_get (re_data e) (js ''node'')) u = Inr m1" "m1 = v"
      using e(2) t by (auto simp: index_event_def Let_def bindR_eq_Inr event_codes)
    with visit_covers [OF _ x] show ?thesis by blast
  qed
  with foldR_reaches [OF assms(1) [unfolded indexNodes_def] e(1)] index_event_mono show ?thesis by blast
qed


definition is_click_on :: "jsnum \<Rightarrow> ReplayEvent \<Rightarrow> bool" where
  "is_click_on i e \<longleftrightarrow> re_type e = INCREMENTAL
     \<and> js_opt_get (re_data e) (js ''source'') = SOURCE_MOUSE_INTERACTION
     \<and> js_opt_get (re_data e) (js ''type'') \<in> {MOUSE_CLICK, MOUSE_DBL_CLICK}
     \<and> js_opt_get (re_data e) (js ''id'') = JNum i"

lemma click_item:
  assumes "is_click_on i e" and "map_ok m" and "i \<in> dom m" and "event_items m j e = Inr xs"
  shows "\<exists>target. target \<noteq> [] \<and> (\<exists>verb\<in>{js ''Click'', js ''Double click''}.
    xs = [\<lparr>ti_eventIndex = j, ti_kind = KClick, ti_message = verb @ js '' on '' @ target,
           ti_timestamp = re_timestamp e\<rparr>])"
proof -
  from assms(3) obtain n where n: "m i = Some n" by auto
  then have "info_ok n" using assms(2) by (simp add: map_ok_def)
  then obtain target where t: "describe_info n = Inr target" "target \<noteq> []" using describe_info_ok by blast
  have "truthy (re_data e)" using assms(1) opt_get_truthy [of "re_data e" "js ''source''"]
    by (simp add: is_click_on_def node_codes)
  with assms(1,4) n t show ?thesis
    by (auto simp: event_items_def is_click_on_def is_console_event_def action_item_def describeNode_def
        Let_def event_codes node_codes)
qed

lemma timeline_from_items:
  assumes "timeline_from m i es = Inr items" and "j < length es"
  shows "\<exists>xs. event_items m (i + j) (es ! j) = Inr xs \<and> set xs \<subseteq> set items"
  using assms
proof (induction es arbitrary: i j items)
  case (Cons e es)
  then obtain xs ys where xs: "event_items m i e = Inr xs" and ys: "timeline_from m (Suc i) es = Inr ys"
    and items: "items = xs @ ys"
    by (auto simp: bindR_eq_Inr)
  show ?case
  proof (cases j)
    case 0
    with xs items show ?thesis by auto
  next
    case (Suc k)
    with Cons.IH [OF ys, of k] Cons.prems(2) items show ?thesis by auto
  qed
qed simp

text \<open>
  Property C28 (clicks are named). For events of the recorder's shape, a click or a double click on an element that
  occurs anywhere in any full snapshot of the recording, however deep and whether before
  or after the click, appears in the timeline with the name of a target.
\<close>

theorem clicks_name_their_target:
  assumes "\<forall>e\<in>set events. rrweb_event e" and "buildTimeline events = Inr items"
    and "j < length events" and "is_click_on i (events ! j)" and "snapshot_element events i"
  shows "\<exists>it\<in>set items. ti_eventIndex it = j \<and> ti_kind it = KClick
    \<and> (\<exists>target. target \<noteq> [] \<and> (ti_message it = js ''Click on '' @ target
         \<or> ti_message it = js ''Double click on '' @ target))"
proof -
  obtain m where m: "indexNodes events = Inr m" "map_ok m" using indexNodes_ok [OF assms(1)] by blast
  then have t: "timeline_from m 0 events = Inr items" using assms(2) by (simp add: buildTimeline_def)
  obtain xs where xs: "event_items m j (events ! j) = Inr xs" "set xs \<subseteq> set items"
    using timeline_from_items [OF t assms(3)] by auto
  have d: "js ''Click on '' = js ''Click'' @ js '' on ''" "js ''Double click on '' = js ''Double click'' @ js '' on ''"
    by (simp_all add: js_append [symmetric])
  from click_item [OF assms(4) m(2) indexNodes_covers [OF m(1) assms(5)] xs(1)]
  obtain target verb where t: "target \<noteq> []" "verb \<in> {js ''Click'', js ''Double click''}"
    "xs = [\<lparr>ti_eventIndex = j, ti_kind = KClick, ti_message = verb @ js '' on '' @ target,
           ti_timestamp = re_timestamp (events ! j)\<rparr>]"
    by blast
  then have "ti_message (hd xs) = js ''Click on '' @ target \<or> ti_message (hd xs) = js ''Double click on '' @ target"
    by (auto simp: d)
  with t xs(2) show ?thesis by (intro bexI [of _ "hd xs"] conjI exI [of _ target]) auto
qed

theorem clicks_name_their_target_witness:
  "\<exists>items it. buildTimeline demo_events = Inr items \<and> it \<in> set items \<and> ti_eventIndex it = 3
     \<and> (\<exists>target. target \<noteq> [] \<and> (ti_message it = js ''Click on '' @ target
          \<or> ti_message it = js ''Double click on '' @ target))"
proof -
  obtain items where i: "buildTimeline demo_events = Inr items"
    using buildTimeline_ok [OF demo_events_ok] by blast
  have "is_click_on (JInt 1) (demo_events ! 3)" "3 < length demo_events"
    by (simp_all add: demo_events_def demo_replay_def is_click_on_def event_codes node_codes js_opt_get_def)
  moreover have "snapshot_element demo_events (JInt 1)"
    by (simp add: snapshot_element_def demo_events_def demo_replay_def event_codes node_codes
        js_opt_get_def nodes_of.simps [of demo_node]) (simp add: demo_node_def)
  ultimately show ?thesis
    using clicks_name_their_target [OF demo_events_ok i, of 3 "JInt 1"] i by blast
qed

end
