(* ===== verification/ReplayMount.thy ===== *)
theory ReplayMount
  imports Timeline
begin

text \<open>
  Mounting the third-party player, as the player page
  (\<open>routes/app/_layout/sessions_.$id.tsx\<close>) and the shared replay (\<open>routes/share.$token.tsx\<close>)
  both do it: two queries feed the page, the page renders a target element for the player
  in some of its states only, and an effect that depends on the events alone creates the
  player in that element.

  Every render gets the results of the two queries from the query library; which ones is
  the environment's choice. An array of events has an identity, its place in memory, and is never
  changed: \<open>arr\<close> gives the contents for an identity. While a query has no data, \<open>data: events = []\<close>
  makes a new empty array on every render. \<open>useEffect\<close> is the parameter \<open>u\<close>, with the contract the code
  relies on.
\<close>

section \<open>State\<close>

record 'a query_result =
  qr_data :: "'a option"
  qr_isLoading :: bool
  qr_isError :: bool

record player =
  py_events :: "ReplayEvent list"
  py_width :: int
  py_height :: int

record 's replay_page =
  rp_session :: "'s query_result"
  rp_events :: "(nat \<times> ReplayEvent list) query_result"
  rp_deps :: "nat option"
  rp_player :: "player option"
  rp_created :: bool

definition query_pending :: "'a query_result" where
  "query_pending = \<lparr>qr_data = None, qr_isLoading = True, qr_isError = False\<rparr>"

definition query_done :: "'a \<Rightarrow> 'a query_result" where
  "query_done x = \<lparr>qr_data = Some x, qr_isLoading = False, qr_isError = False\<rparr>"

definition replay_page_init :: "'s replay_page" where
  "replay_page_init = \<lparr>rp_session = query_pending, rp_events = query_pending, rp_deps = None,
     rp_player = None, rp_created = False\<rparr>"

text \<open>\<open>const { data: events = [] } = ...\<close>, and the identity of that array, if it is not a new one.\<close>

definition page_events :: "'s replay_page \<Rightarrow> ReplayEvent list" where
  "page_events p = (case qr_data (rp_events p) of None \<Rightarrow> [] | Some (_, es) \<Rightarrow> es)"

definition events_ref :: "'s replay_page \<Rightarrow> nat option" where
  "events_ref p = map_option fst (qr_data (rp_events p))"

definition page_loading :: "'s replay_page \<Rightarrow> bool" where
  "page_loading p \<longleftrightarrow> qr_isLoading (rp_session p) \<or> qr_isLoading (rp_events p)"


section \<open>The effect\<close>

text \<open>
  The callback of \<open>useEffect\<close>, given whether the target element is in the page and its
  width; \<open>fallback\<close> and \<open>height\<close> are the numbers each page passes.
\<close>

definition effect_body :: "bool \<Rightarrow> int \<Rightarrow> int \<Rightarrow> int \<Rightarrow> 's replay_page \<Rightarrow> 's replay_page" where
  "effect_body shown_target clientWidth fallback height p =
     (if \<not> shown_target \<or> page_events p = [] then p
      else p\<lparr>rp_player := Some \<lparr>py_events = page_events p,
               py_width = (if clientWidth = 0 then fallback else clientWidth), py_height = height\<rparr>,
             rp_created := True\<rparr>)"

definition effect_cleanup :: "'s replay_page \<Rightarrow> 's replay_page" where
  "effect_cleanup p = p\<lparr>rp_player := None\<rparr>"

text \<open>
  \<open>useEffect(body, [x])\<close> as a function of the \<open>x\<close> of its last run, the \<open>x\<close> of this render, the clean-up
  the last run returned and the body. The contract: nothing happens when \<open>x\<close> is the same
  object; otherwise the clean-up runs and then the body.
\<close>

type_synonym 'p use_effect = "nat option \<Rightarrow> nat option \<Rightarrow> ('p \<Rightarrow> 'p) \<Rightarrow> ('p \<Rightarrow> 'p) \<Rightarrow> 'p \<Rightarrow> 'p"

definition effect_contract :: "'p use_effect \<Rightarrow> bool" where
  "effect_contract u \<longleftrightarrow>
     (\<forall>old new cleanup body p. u old new cleanup body p = (if new \<noteq> None \<and> new = old then p else body (cleanup p)))"

definition run_effect ::
    "'s replay_page use_effect \<Rightarrow> bool \<Rightarrow> int \<Rightarrow> int \<Rightarrow> int \<Rightarrow> 's replay_page \<Rightarrow> 's replay_page"
where
  "run_effect u shown_target clientWidth fallback height p =
     (u (rp_deps p) (events_ref p) effect_cleanup (effect_body shown_target clientWidth fallback height) p)
       \<lparr>rp_deps := events_ref p\<rparr>"

text \<open>One render of a page whose target element is rendered in the states \<open>target\<close>.\<close>

definition react ::
    "'s replay_page use_effect \<Rightarrow> ('s replay_page \<Rightarrow> bool) \<Rightarrow> int \<Rightarrow> int \<Rightarrow> int
      \<Rightarrow> 's query_result \<times> (nat \<times> ReplayEvent list) query_result \<Rightarrow> 's replay_page \<Rightarrow> 's replay_page"
where
  "react u target fallback height w results p =
     (let q = p\<lparr>rp_session := fst results, rp_events := snd results\<rparr>
      in run_effect u (target q) w fallback height q)"


section \<open>A page that hosts a player\<close>

definition plays :: "'s replay_page \<Rightarrow> ReplayEvent list \<Rightarrow> bool" where
  "plays p es \<longleftrightarrow> (\<exists>pl. rp_player p = Some pl \<and> py_events pl = es)"

text \<open>The arrays a render is given are the ones in memory.\<close>

definition arrays_ok :: "(nat \<Rightarrow> ReplayEvent list) \<Rightarrow> (nat \<times> ReplayEvent list) query_result \<Rightarrow> bool" where
  "arrays_ok arr q \<longleftrightarrow> (case qr_data q of None \<Rightarrow> True | Some (r, es) \<Rightarrow> es = arr r)"

definition host_inv :: "(nat \<Rightarrow> ReplayEvent list) \<Rightarrow> 's replay_page \<Rightarrow> bool" where
  "host_inv arr p \<longleftrightarrow> arrays_ok arr (rp_events p) \<and> rp_deps p = events_ref p
     \<and> (rp_player p \<noteq> None \<longrightarrow> rp_created p \<and> plays p (page_events p) \<and> page_events p \<noteq> [])"

lemmas page_defs = events_ref_def page_events_def plays_def arrays_ok_def

lemma init_host_inv: "host_inv arr replay_page_init"
  by (simp add: host_inv_def replay_page_init_def query_pending_def page_defs)

lemma run_effect_same:
  assumes "effect_contract u" and "rp_deps p = events_ref p" and "events_ref p \<noteq> None"
  shows "run_effect u b w f h p = p"
  using assms by (simp add: run_effect_def effect_contract_def)

lemma run_effect_fresh:
  assumes "effect_contract u" and "events_ref p = None \<or> rp_deps p \<noteq> events_ref p"
  shows "run_effect u b w f h p = (effect_body b w f h (effect_cleanup p))\<lparr>rp_deps := events_ref p\<rparr>"
  using assms by (auto simp: run_effect_def effect_contract_def)

lemma effect_body_inv:
  assumes "arrays_ok arr (rp_events p)"
  shows "host_inv arr ((effect_body b w f h (effect_cleanup p))\<lparr>rp_deps := events_ref p\<rparr>)"
  using assms by (simp add: host_inv_def effect_body_def effect_cleanup_def page_defs split: option.split)

lemma react_host_inv:
  assumes u: "effect_contract u" and i: "host_inv arr p" and a: "arrays_ok arr (snd results)"
  shows "host_inv arr (react u target f h w results p)"
proof -
  let ?q = "p\<lparr>rp_session := fst results, rp_events := snd results\<rparr>"
  have qa: "arrays_ok arr (rp_events ?q)" using a by simp
  show ?thesis
  proof (cases "rp_deps ?q = events_ref ?q \<and> events_ref ?q \<noteq> None")
    case True
    then have r: "react u target f h w results p = ?q"
      unfolding react_def Let_def by (intro run_effect_same [OF u]) simp_all
    from True i qa have "page_events ?q = page_events p"
      by (auto simp: host_inv_def page_defs split: option.splits)
    with True i qa show ?thesis unfolding r by (auto simp: host_inv_def plays_def)
  next
    case False
    then have "react u target f h w results p =
        (effect_body (target ?q) w f h (effect_cleanup ?q))\<lparr>rp_deps := events_ref ?q\<rparr>"
      unfolding react_def Let_def by (intro run_effect_fresh [OF u]) blast
    with effect_body_inv [OF qa] show ?thesis by simp
  qed
qed

text \<open>The renders of a page, in any order the queries answer in.\<close>

inductive host_step ::
    "(nat \<Rightarrow> ReplayEvent list) \<Rightarrow> 's replay_page use_effect \<Rightarrow> ('s replay_page \<Rightarrow> bool) \<Rightarrow> int \<Rightarrow> int
      \<Rightarrow> 's replay_page \<Rightarrow> 's replay_page \<Rightarrow> bool"
  for arr u target f h where
  "arrays_ok arr (snd results) \<Longrightarrow> host_step arr u target f h p (react u target f h w results p)"

text \<open>
  What the two pages have in common: the target is only rendered when there are events to
  play and nothing is loading, and which of these holds is decided by the queries alone.
\<close>

locale replay_host =
  fixes target :: "'s replay_page \<Rightarrow> bool"
    and fallback :: int
    and height :: int
  assumes target_events: "target p \<Longrightarrow> page_events p \<noteq> [] \<and> \<not> page_loading p"
    and target_cong: "rp_session p = rp_session q \<Longrightarrow> rp_events p = rp_events q \<Longrightarrow> target p = target q"
begin

lemma react_queries:
  assumes "effect_contract u"
  shows "rp_session (react u target fallback height w results p) = fst results"
    and "rp_events (react u target fallback height w results p) = snd results"
  using assms
  by (simp_all add: react_def Let_def run_effect_def effect_contract_def effect_body_def effect_cleanup_def)

lemma reachable_plays:
  assumes "effect_contract u" and "(host_step arr u target fallback height)\<^sup>*\<^sup>* replay_page_init p"
  shows "host_inv arr p"
  using assms(2)
  by (induction rule: rtranclp_induct) (auto simp: init_host_inv elim!: host_step.cases intro: react_host_inv [OF assms(1)])

text \<open>Events the page did not hold before are played if the target is there by then.\<close>

lemma new_events_play:
  assumes "effect_contract u" and "host_inv arr p" and "snd results = query_done (r, es)"
    and "events_ref p \<noteq> Some r" and "target (p\<lparr>rp_session := fst results, rp_events := snd results\<rparr>)"
  shows "plays (react u target fallback height w results p) es"
proof -
  let ?q = "p\<lparr>rp_session := fst results, rp_events := snd results\<rparr>"
  have e: "page_events ?q = es" "events_ref ?q = Some r"
    using assms(3) by (simp_all add: page_defs query_done_def)
  have "rp_deps ?q \<noteq> events_ref ?q" using assms(2,4) e(2) by (simp add: host_inv_def)
  then have "react u target fallback height w results p =
      (effect_body (target ?q) w fallback height (effect_cleanup ?q))\<lparr>rp_deps := events_ref ?q\<rparr>"
    unfolding react_def Let_def by (intro run_effect_fresh [OF assms(1)]) simp
  with e(1) assms(5) target_events [OF assms(5)] show ?thesis
    by (simp add: effect_body_def effect_cleanup_def page_defs)
qed

text \<open>Renders with the events for which the effect has already run change nothing about the player.\<close>

lemma same_events_keep:
  assumes "effect_contract u" and "rp_deps p = Some r" and "map_option fst (qr_data (snd results)) = Some r"
  shows "rp_player (react u target fallback height w results p) = rp_player p
    \<and> rp_deps (react u target fallback height w results p) = Some r"
proof -
  let ?q = "p\<lparr>rp_session := fst results, rp_events := snd results\<rparr>"
  have "events_ref ?q = Some r" using assms(3) by (simp add: events_ref_def)
  then have "react u target fallback height w results p = ?q"
    unfolding react_def Let_def using assms(2) by (intro run_effect_same [OF assms(1)]) simp_all
  with assms(2) show ?thesis by simp
qed

lemma same_events_keep_all:
  assumes "effect_contract u" and "rp_deps p = Some r"
    and "\<forall>x\<in>set results. map_option fst (qr_data (snd x)) = Some r"
  shows "rp_player (fold (react u target fallback height w) results p) = rp_player p"
  using assms(2,3)
proof (induction results arbitrary: p)
  case (Cons x xs)
  from same_events_keep [OF assms(1) Cons.prems(1), of x w] Cons show ?case by simp
qed simp

text \<open>The two orders in which the first answers can arrive.\<close>

lemma session_first_plays:
  assumes "effect_contract u"
    and "\<And>p. rp_session p = query_done s \<Longrightarrow> rp_events p = query_done (r, es) \<Longrightarrow> target p"
  shows "plays (fold (react u target fallback height w)
    [(query_done s, query_pending), (query_done s, query_done (r, es))] replay_page_init) es"
proof -
  let ?p = "react u target fallback height w (query_done s, query_pending) replay_page_init"
  have "host_inv (\<lambda>_. es) ?p"
    by (rule react_host_inv [OF assms(1) init_host_inv]) (simp add: arrays_ok_def query_pending_def)
  moreover have "events_ref ?p = None"
    by (simp add: events_ref_def react_queries [OF assms(1)] query_pending_def)
  ultimately show ?thesis
    by (simp, intro new_events_play [OF assms(1)]) (simp_all add: assms(2))
qed

lemma events_first_no_player:
  assumes "effect_contract u" and "\<forall>x\<in>set results. map_option fst (qr_data (snd x)) = Some r"
  shows "rp_player (fold (react u target fallback height w) ((query_pending, query_done (r, es)) # results)
    replay_page_init) = None"
proof -
  let ?p = "react u target fallback height w (query_pending, query_done (r, es)) replay_page_init"
  have "\<not> target p" if "rp_session p = query_pending" for p
    using target_events [of p] that by (auto simp: page_loading_def query_pending_def)
  then have "rp_player ?p = None" and "rp_deps ?p = Some r"
    using assms(1)
    by (simp_all add: react_def run_effect_def effect_contract_def effect_body_def effect_cleanup_def
        replay_page_init_def query_done_def events_ref_def)
  with same_events_keep_all [OF assms(1) _ assms(2), of ?p] show ?thesis by simp
qed

end

end
