(* ===== verification/PageShell.thy ===== *)
theory PageShell
  imports DashHttp
begin

text \<open>
  The frame of the dashboard: which page an address leads to (\<open>routes/index.tsx\<close>,
  \<open>routes/app/_layout.tsx\<close>), logging in (\<open>routes/login.tsx\<close>) and out
  (\<open>components/header.tsx\<close>), the theme button (\<open>components/theme-toggle.tsx\<close>) and the banner
  for failed batches (\<open>components/failed-ingest-banner.tsx\<close>). The router is a parameter; the
  code relies on its following the redirect a guard throws and showing the page of a guard that
  lets it through (\<open>router_contract\<close>), which the function \<open>navigate\<close> does. The routes are
  those of \<open>routeTree.gen.ts\<close>; parameters are taken to need no escaping in an address.
\<close>

section \<open>Routes and their guards\<close>

datatype route =
    RootRoute
  | LoginRoute
  | ShareRoute jsstr
  | OverviewRoute
  | SessionsRoute
  | SessionRoute jsstr

fun route_path :: "route \<Rightarrow> jsstr" where
  "route_path RootRoute = js ''/''"
| "route_path LoginRoute = js ''/login''"
| "route_path (ShareRoute t) = js ''/share/'' @ t"
| "route_path OverviewRoute = js ''/app''"
| "route_path SessionsRoute = js ''/app/sessions''"
| "route_path (SessionRoute i) = js ''/app/sessions/'' @ i"

text \<open>A guard ends by throwing a redirect or by returning; other exceptions are errors.\<close>

datatype guard = Redirect route | Proceed

fun under_app :: "route \<Rightarrow> bool" where
  "under_app OverviewRoute \<longleftrightarrow> True"
| "under_app SessionsRoute \<longleftrightarrow> True"
| "under_app (SessionRoute i) \<longleftrightarrow> True"
| "under_app _ \<longleftrightarrow> False"

definition root_guard :: "dash \<Rightarrow> dash \<times> guard res" where
  "root_guard d =
     (case isAuthenticated (d_now d) (d_store d) of
        (s, r) \<Rightarrow> (d\<lparr>d_store := s\<rparr>, bindR r (\<lambda>ok. Inr (Redirect (if ok then OverviewRoute else LoginRoute)))))"

definition app_guard :: "dash \<Rightarrow> dash \<times> guard res" where
  "app_guard d =
     (case isAuthenticated (d_now d) (d_store d) of
        (s, r) \<Rightarrow> (d\<lparr>d_store := s\<rparr>, bindR r (\<lambda>ok. Inr (if \<not> ok then Redirect LoginRoute else Proceed))))"

definition beforeLoad :: "route \<Rightarrow> dash \<Rightarrow> dash \<times> guard res" where
  "beforeLoad r d =
     (if r = RootRoute then root_guard d else if under_app r then app_guard d else (d, Inr Proceed))"

text \<open>What the code relies on: \<open>router.navigate({ to })\<close> runs the guard and acts on how it ends.\<close>

type_synonym router = "route \<Rightarrow> dash \<Rightarrow> dash \<times> route res"

definition router_contract :: "router \<Rightarrow> bool" where
  "router_contract router \<longleftrightarrow>
     (\<forall>r d d'. (\<forall>e. beforeLoad r d = (d', Inl e) \<longrightarrow> router r d = (d', Inl e))
       \<and> (beforeLoad r d = (d', Inr Proceed) \<longrightarrow> router r d = (d'\<lparr>d_location := route_path r\<rparr>, Inr r))
       \<and> (\<forall>r'. beforeLoad r d = (d', Inr (Redirect r')) \<longrightarrow> router r d = router r' d'))"

text \<open>A router that keeps the contract. Its recursion ends: the root leads to the overview or the login
  page, the pages under \<open>/app\<close> to the login page, which has no guard.\<close>

fun route_rank :: "route \<Rightarrow> nat" where
  "route_rank RootRoute = 2"
| "route_rank LoginRoute = 0"
| "route_rank (ShareRoute t) = 0"
| "route_rank _ = 1"

lemma beforeLoad_rank: "beforeLoad r d = (d', Inr (Redirect r')) \<Longrightarrow> route_rank r' < route_rank r"
  by (cases r) (auto simp: beforeLoad_def root_guard_def app_guard_def bindR_eq_Inr split: prod.splits if_splits)

function navigate :: "route \<Rightarrow> dash \<Rightarrow> dash \<times> route res" where
  "navigate r d =
     (case beforeLoad r d of
        (d', Inl e) \<Rightarrow> (d', Inl e)
      | (d', Inr Proceed) \<Rightarrow> (d'\<lparr>d_location := route_path r\<rparr>, Inr r)
      | (d', Inr (Redirect r')) \<Rightarrow> navigate r' d')"
  by pat_completeness auto
termination
  by (relation "measure (\<lambda>(r, _). route_rank r)") (auto intro: beforeLoad_rank [OF sym])

declare navigate.simps [simp del]

lemma navigate_proceed:
  "beforeLoad r d = (d', Inr Proceed) \<Longrightarrow> navigate r d = (d'\<lparr>d_location := route_path r\<rparr>, Inr r)"
  by (subst navigate.simps) simp

lemma navigate_redirect: "beforeLoad r d = (d', Inr (Redirect r')) \<Longrightarrow> navigate r d = navigate r' d'"
  by (subst navigate.simps) simp

lemma navigate_failed: "beforeLoad r d = (d', Inl e) \<Longrightarrow> navigate r d = (d', Inl e)"
  by (subst navigate.simps) simp

lemma navigate_contract: "router_contract navigate"
  by (simp add: router_contract_def navigate_failed navigate_proceed navigate_redirect)

text \<open>The contract determines the router.\<close>

lemma router_is_navigate: "router_contract router \<Longrightarrow> router r d = navigate r d"
proof (induction r d rule: navigate.induct)
  case (1 r d)
  note c = "1.prems" [unfolded router_contract_def, rule_format, of r d]
  obtain d' x where b: "beforeLoad r d = (d', x)" by force
  show ?case
  proof (cases x)
    case (Inl e)
    with c b show ?thesis by (simp add: navigate_failed)
  next
    case (Inr g)
    show ?thesis
    proof (cases g)
      case (Redirect r')
      with Inr b have bl: "(d', Inr (Redirect r')) = beforeLoad r d" by simp
      from "1.IH" [OF bl refl refl "1.prems"] c bl [symmetric] show ?thesis by (simp add: navigate_redirect)
    next
      case Proceed
      with Inr c b show ?thesis by (simp add: navigate_proceed)
    qed
  qed
qed

lemma navigate_unguarded:
  "r \<noteq> RootRoute \<Longrightarrow> \<not> under_app r \<Longrightarrow> navigate r d = (d\<lparr>d_location := route_path r\<rparr>, Inr r)"
  by (rule navigate_proceed) (simp add: beforeLoad_def)


section \<open>Logging in and out\<close>

record login_page =
  lg_email :: jsstr
  lg_password :: jsstr
  lg_error :: jsstr
  lg_loading :: bool

definition login_page_init :: login_page where
  "login_page_init = \<lparr>lg_email = [], lg_password = [], lg_error = [], lg_loading = False\<rparr>"

definition setEmail :: "jsstr \<Rightarrow> login_page \<Rightarrow> login_page" where
  "setEmail v p = p\<lparr>lg_email := v\<rparr>"

definition setPassword :: "jsstr \<Rightarrow> login_page \<Rightarrow> login_page" where
  "setPassword v p = p\<lparr>lg_password := v\<rparr>"

text \<open>The body of the \<open>try\<close>: the call, the destructuring of its answer, and storing it.\<close>

definition submit_login :: "jsstr option \<Rightarrow> backend \<Rightarrow> login_page \<Rightarrow> storage \<Rightarrow> storage \<times> unit res" where
  "submit_login api srv p s =
     (case bindR (login api srv (lg_email p) (lg_password p)) (\<lambda>v.
             bindR (js_get v (js ''token'')) (\<lambda>token. bindR (js_get v (js ''user'')) (\<lambda>user. Inr (token, user)))) of
        Inl e \<Rightarrow> (s, Inl e)
      | Inr (token, user) \<Rightarrow> setAuth token user s)"

definition handleSubmit ::
    "router \<Rightarrow> jsstr option \<Rightarrow> backend \<Rightarrow> login_page \<Rightarrow> dash \<Rightarrow> login_page \<times> dash \<times> route res"
where
  "handleSubmit router api srv p d =
     (let p1 = p\<lparr>lg_error := [], lg_loading := True\<rparr>
      in case submit_login api srv p1 (d_store d) of
           (s, Inl e) \<Rightarrow>
             (p1\<lparr>lg_error := js ''Invalid email or password.'', lg_loading := False\<rparr>, d\<lparr>d_store := s\<rparr>, Inr LoginRoute)
         | (s, Inr _) \<Rightarrow>
             (case router OverviewRoute (d\<lparr>d_store := s\<rparr>) of
                (d', r) \<Rightarrow> (p1\<lparr>lg_loading := False\<rparr>, d', r)))"

text \<open>What the form shows: the error line and the state of the button.\<close>

definition login_view :: "login_page \<Rightarrow> jsstr option \<times> jsstr \<times> bool" where
  "login_view p =
     (if lg_error p = [] then None else Some (lg_error p),
      if lg_loading p then js ''Signing in...'' else js ''Sign in'', lg_loading p)"

definition handleLogout :: "router \<Rightarrow> dash \<Rightarrow> dash \<times> route res" where
  "handleLogout router d =
     (case clearAuth (d_store d) of
        (s, Inl e) \<Rightarrow> (d\<lparr>d_store := s\<rparr>, Inl e)
      | (s, Inr _) \<Rightarrow> router LoginRoute (d\<lparr>d_store := s\<rparr>))"

text \<open>The user shown in the header: \<open>user.name || user.email\<close> and the role.\<close>

definition header_user :: "dash \<Rightarrow> (jsval \<times> jsval) option res" where
  "header_user d =
     bindR (getUser (d_store d)) (\<lambda>user.
       Inr (if truthy user
            then Some (if truthy (js_opt_get user (js ''name'')) then js_opt_get user (js ''name'')
                       else js_opt_get user (js ''email''), js_opt_get user (js ''role''))
            else None))"


section \<open>The theme button\<close>

definition theme_toggle_init :: "dash \<Rightarrow> jsstr res" where
  "theme_toggle_init d = getStoredTheme d"

text \<open>The handler on the theme the component remembers; an exception leaves that as it is.\<close>

definition handleToggle :: "jsstr \<times> dash \<Rightarrow> (jsstr \<times> dash) \<times> unit res" where
  "handleToggle td =
     (case toggleTheme (snd td) of
        (d', Inl e) \<Rightarrow> ((fst td, d'), Inl e)
      | (d', Inr nxt) \<Rightarrow> ((nxt, d'), Inr ()))"

datatype theme_icon = Sun | Moon

definition theme_icon_of :: "jsstr \<Rightarrow> theme_icon" where
  "theme_icon_of theme = (if theme = js ''dark'' then Sun else Moon)"


section \<open>The banner for failed batches\<close>

record FailedIngest =
  fi_id :: jsstr
  fi_session_id :: jsstr
  fi_payload :: jsstr
  fi_error :: jsstr
  fi_retry_count :: int
  fi_resolved :: bool
  fi_created_at :: jsstr
  fi_resolved_at :: "jsstr option"

record banner =
  bn_count :: nat
  bn_text :: jsstr
  bn_button :: jsstr
  bn_disabled :: bool

definition failed_banner :: "FailedIngest list option \<Rightarrow> bool \<Rightarrow> banner option" where
  "failed_banner dat isPending =
     (let failed = (case dat of None \<Rightarrow> [] | Some fs \<Rightarrow> fs);
          unresolved = filter (\<lambda>f. \<not> fi_resolved f) failed
      in if unresolved = [] then None
         else Some \<lparr>bn_count = length unresolved,
                bn_text = js '' batch'' @ (if length unresolved \<noteq> 1 then js ''es'' else [])
                  @ js '' failed to ingest and may be missing from sessions.'',
                bn_button = (if isPending then js ''Retrying...'' else js ''Retry all''),
                bn_disabled = isPending\<rparr>)"


section \<open>Only authenticated users see the pages under /app\<close>

lemma isAuthenticated_total:
  assumes "st_available s"
  obtains s' ok where "isAuthenticated now s = (s', Inr ok)" and "st_available s'" and "st_quota s' = st_quota s"
    and "ok \<Longrightarrow> s' = s" and "\<not> ok \<Longrightarrow> getToken s' = Inr None \<or> getToken s' = Inr (Some [])"
proof (cases "st_items s TOKEN_KEY")
  case None
  then show ?thesis using assms that [of s False] by (simp add: isAuthenticated_def getToken_def getItem_def)
next
  case (Some t)
  show ?thesis
  proof (cases "t = []")
    case True
    then show ?thesis
      using assms Some that [of s False] by (simp add: isAuthenticated_def getToken_def getItem_def)
  next
    case False
    from isAuthenticated_token [OF assms Some False, of now] assms show ?thesis
      using that [of s True] that [of "s\<lparr>st_items := (st_items s)(TOKEN_KEY := None, USER_KEY := None)\<rparr>" False]
      by (auto simp: getToken_def getItem_def split: if_splits)
  qed
qed

text \<open>Whether the stored login counts.\<close>

definition logged_in :: "dash \<Rightarrow> bool" where
  "logged_in d \<longleftrightarrow> snd (isAuthenticated (d_now d) (d_store d)) = Inr True"

lemma beforeLoad_cases:
  assumes "st_available (d_store d)"
  shows "\<exists>d'. beforeLoad r d = (d', Inr (if r = RootRoute then Redirect (if logged_in d then OverviewRoute else LoginRoute)
        else if under_app r \<and> \<not> logged_in d then Redirect LoginRoute else Proceed))
      \<and> (logged_in d \<longrightarrow> d' = d) \<and> (\<not> under_app r \<and> r \<noteq> RootRoute \<longrightarrow> d' = d)
      \<and> ((under_app r \<or> r = RootRoute) \<and> \<not> logged_in d \<longrightarrow> getToken (d_store d') \<in> {Inr None, Inr (Some [])})"
proof -
  obtain s' ok where a: "isAuthenticated (d_now d) (d_store d) = (s', Inr ok)"
      "st_available s'" "st_quota s' = st_quota (d_store d)" "ok \<Longrightarrow> s' = d_store d"
      "\<not> ok \<Longrightarrow> getToken s' = Inr None \<or> getToken s' = Inr (Some [])"
    using isAuthenticated_total [OF assms, of "d_now d" thesis] by simp
  then show ?thesis
    by (cases r; cases ok) (auto simp: beforeLoad_def root_guard_def app_guard_def logged_in_def)
qed

text \<open>One redirect: the guard of the page sends the visitor on to another one.\<close>

inductive redirect_step :: "route \<times> dash \<Rightarrow> route \<times> dash \<Rightarrow> bool" where
  "beforeLoad r d = (d', Inr (Redirect r')) \<Longrightarrow> redirect_step (r, d) (r', d')"

inductive_simps redirect_step_iff: "redirect_step (r, d) (r', d')"

text \<open>
  A visit of the route \<open>r\<close>: after \<open>n\<close> redirects a guard lets the visitor through to \<open>r'\<close>.
\<close>

definition visit_ends :: "route \<Rightarrow> dash \<Rightarrow> nat \<Rightarrow> route \<Rightarrow> dash \<Rightarrow> bool" where
  "visit_ends r d n r' d' \<longleftrightarrow> (\<exists>d1 d2. (redirect_step ^^ n) (r, d) (r', d1) \<and> beforeLoad r' d1 = (d2, Inr Proceed)
     \<and> d' = d2\<lparr>d_location := route_path r'\<rparr>)"

lemma visit_direct:
  "beforeLoad r d = (d1, Inr Proceed) \<Longrightarrow> visit_ends r d 0 r (d1\<lparr>d_location := route_path r\<rparr>)
    \<and> navigate r d = (d1\<lparr>d_location := route_path r\<rparr>, Inr r)"
  by (auto simp: visit_ends_def navigate_proceed)

lemma visit_redirected:
  assumes "beforeLoad r d = (d1, Inr (Redirect r'))" and "beforeLoad r' d1 = (d2, Inr Proceed)"
  shows "visit_ends r d 1 r' (d2\<lparr>d_location := route_path r'\<rparr>)
    \<and> navigate r d = (d2\<lparr>d_location := route_path r'\<rparr>, Inr r')"
  using assms by (auto simp: visit_ends_def navigate_redirect navigate_proceed redirect_step_iff eq_OO)

text \<open>
  Property C15 (only a valid login opens the dashboard). With a router that keeps its contract, and where the
  storage can be read, opening any page of the route table ends on a page after at most one redirect: the root
  always after one, on the overview or on the login page, a page under \<open>/app\<close> on itself without a
  redirect or after one on the login page, depending on whether the stored token counts at that moment; the
  login page and shared replays open always, without a redirect. A page under \<open>/app\<close> is only ever shown
  while the token counts, and a visitor who is sent to the login page from a guarded page has no token left in
  the storage.
\<close>

theorem only_login_opens_app:
  assumes "router_contract router" and "st_available (d_store d)"
  shows "\<exists>d' r' n. router r d = (d', Inr r') \<and> d_location d' = route_path r'
    \<and> n \<le> 1 \<and> (n = 0 \<longleftrightarrow> r' = r) \<and> (\<exists>d1 d2. (redirect_step ^^ n) (r, d) (r', d1)
          \<and> beforeLoad r' d1 = (d2, Inr Proceed) \<and> d' = d2\<lparr>d_location := route_path r'\<rparr>)
    \<and> r' = (if r = RootRoute then (if logged_in d then OverviewRoute else LoginRoute)
            else if under_app r \<and> \<not> logged_in d then LoginRoute else r)
    \<and> (under_app r' \<longrightarrow> logged_in d')
    \<and> (r' \<noteq> r \<and> r' = LoginRoute \<longrightarrow> getToken (d_store d') \<in> {Inr None, Inr (Some [])})"
proof -
  note nav = router_is_navigate [OF assms(1)] and visit = visit_ends_def [symmetric]
  have same: "logged_in (d\<lparr>d_location := x\<rparr>) \<longleftrightarrow> logged_in d" for x by (simp add: logged_in_def)
  obtain d1 where b: "beforeLoad r d = (d1, Inr (if r = RootRoute then Redirect (if logged_in d then OverviewRoute else LoginRoute)
        else if under_app r \<and> \<not> logged_in d then Redirect LoginRoute else Proceed))"
      "logged_in d \<longrightarrow> d1 = d" "\<not> under_app r \<and> r \<noteq> RootRoute \<longrightarrow> d1 = d"
      "(under_app r \<or> r = RootRoute) \<and> \<not> logged_in d \<longrightarrow> getToken (d_store d1) \<in> {Inr None, Inr (Some [])}"
    using beforeLoad_cases [OF assms(2), of r] by blast
  have open_login: "beforeLoad LoginRoute x = (x, Inr Proceed)" for x by (simp add: beforeLoad_def)
  consider "r = RootRoute" "logged_in d" | "r = RootRoute \<or> under_app r" "\<not> logged_in d"
    | "r \<noteq> RootRoute" "under_app r \<longrightarrow> logged_in d" by blast
  then show ?thesis
  proof cases
    case 1
    obtain d2 where d2: "beforeLoad OverviewRoute d = (d2, Inr Proceed)" "d2 = d"
      using beforeLoad_cases [OF assms(2), of OverviewRoute] 1 by auto
    from 1 b(1,2) have "beforeLoad r d = (d, Inr (Redirect OverviewRoute))" by simp
    from visit_redirected [OF this d2(1)] 1 same d2(2) show ?thesis
      unfolding visit nav by (intro exI [of _ "d\<lparr>d_location := route_path OverviewRoute\<rparr>"] exI [of _ OverviewRoute]
          exI [of _ "1 :: nat"]) simp
  next
    case 2
    then have l: "r \<noteq> LoginRoute" by auto
    from 2 b(1) have "beforeLoad r d = (d1, Inr (Redirect LoginRoute))" by auto
    from visit_redirected [OF this open_login] 2 b(4) l show ?thesis
      unfolding visit nav by (intro exI [of _ "d1\<lparr>d_location := route_path LoginRoute\<rparr>"] exI [of _ LoginRoute]
          exI [of _ "1 :: nat"]) auto
  next
    case 3
    with b have "beforeLoad r d = (d, Inr Proceed)" by auto
    from visit_direct [OF this] 3 same show ?thesis
      unfolding visit nav by (intro exI [of _ "d\<lparr>d_location := route_path r\<rparr>"] exI [of _ r] exI [of _ "0 :: nat"]) auto
  qed
qed

theorem only_login_opens_app_witness:
  "\<exists>d'. navigate (SessionRoute (js ''s1'')) demo_dash = (d', Inr (SessionRoute (js ''s1''))) \<and> logged_in d'"
proof -
  have a: "st_available (d_store demo_dash)" by (simp add: demo_dash_def demo_login_facts)
  have "logged_in demo_dash"
    by (simp add: logged_in_def demo_dash_def isAuthenticated_token [OF demo_login_facts]
        expiry_of_token [OF demo_login_facts demo_claims_facts(4,1)] demo_claims_facts)
  with only_login_opens_app [OF navigate_contract a, of "SessionRoute (js ''s1'')"] show ?thesis by auto
qed


section \<open>Logging in\<close>

lemma submit_login_ok:
  assumes "st_available s" and "st_quota s" and "srv (login_request api (lg_email p) (lg_password p)) = Inr r" and "rsp_ok r"
    and "json_parse (rsp_body r) = Inr (JObj kvs)" and "map_of kvs (js ''token'') = Some (JStr t)"
    and "map_of kvs (js ''user'') = Some user" and "user \<noteq> JUndef"
  shows "submit_login api srv p s =
    (s\<lparr>st_items := (st_items s)(TOKEN_KEY \<mapsto> t, USER_KEY \<mapsto> stringify user)\<rparr>, Inr ())"
  using assms by (simp add: submit_login_def login_def rsp_json_def setAuth_def setItem_def)

lemma submit_login_refused:
  assumes "case srv (login_request api (lg_email p) (lg_password p)) of Inl e \<Rightarrow> True
    | Inr r \<Rightarrow> \<not> rsp_ok r \<or> (\<exists>e. json_parse (rsp_body r) = Inl e) \<or> json_parse (rsp_body r) = Inr JNull"
  shows "\<exists>e. submit_login api srv p s = (s, Inl e)"
  using assms
  by (cases "srv (login_request api (lg_email p) (lg_password p))")
     (auto simp: submit_login_def login_def rsp_json_def)

text \<open>
  Property C16 (logging in). The form posts what was typed, as JSON. With a working storage, if
  the server accepts and answers with a user and a token that has not expired (claims with
  an integer \<open>exp\<close>, encoded without the sextets 62 and 63), the overview opens, the header
  shows that user, and the next calls carry that token. If the call fails, is refused, or
  the answer is not JSON or is \<open>null\<close>, the error line is shown, the storage is as it was and the
  page stays. In each case the button is usable again.
\<close>

theorem login_opens_dashboard:
  assumes "st_available (d_store d)" and "st_quota (d_store d)"
    and "p' = p\<lparr>lg_error := [], lg_loading := False\<rparr>"
    and "rq = login_request api (lg_email p) (lg_password p)"
    and "token = token_of header claims sig" and "0x2E \<notin> set header" and "binary claims" and "url_plain claims"
    and "json_parse claims = Inr (JObj cs)" and "map_of cs (js ''exp'') = Some (jint e)" and "d_now d \<le> e * 1000"
    and "json_ok user" and "router_contract router"
  shows "(\<forall>r kvs. srv rq = Inr r \<and> rsp_ok r \<and> json_parse (rsp_body r) = Inr (JObj kvs)
        \<and> map_of kvs (js ''token'') = Some (JStr token) \<and> map_of kvs (js ''user'') = Some user \<longrightarrow>
        (\<exists>d'. handleSubmit router api srv p d = (p', d', Inr OverviewRoute) \<and> d_location d' = js ''/app''
          \<and> getUser (d_store d') = Inr user \<and> getToken (d_store d') = Inr (Some token)))
    \<and> ((case srv rq of Inl _ \<Rightarrow> True
         | Inr r \<Rightarrow> \<not> rsp_ok r \<or> (\<exists>x. json_parse (rsp_body r) = Inl x) \<or> json_parse (rsp_body r) = Inr JNull) \<longrightarrow>
        handleSubmit router api srv p d = (p'\<lparr>lg_error := js ''Invalid email or password.''\<rparr>, d, Inr LoginRoute))"
proof (intro conjI allI impI)
  fix r kvs
  assume r: "srv rq = Inr r \<and> rsp_ok r \<and> json_parse (rsp_body r) = Inr (JObj kvs)
        \<and> map_of kvs (js ''token'') = Some (JStr token) \<and> map_of kvs (js ''user'') = Some user"
  let ?s = "(d_store d)\<lparr>st_items := (st_items (d_store d))(TOKEN_KEY \<mapsto> token, USER_KEY \<mapsto> stringify user)\<rparr>"
  have u: "user \<noteq> JUndef" using assms(12) by auto
  have sub: "submit_login api srv (p\<lparr>lg_error := [], lg_loading := True\<rparr>) (d_store d) = (?s, Inr ())"
    by (rule submit_login_ok [where r = r and kvs = kvs, OF assms(1,2)]) (use r u assms(4) in auto)
  have av: "st_available ?s" "st_items ?s TOKEN_KEY = Some (token_of header claims sig)"
    using assms(1,5) by simp_all
  have "isTokenExpired (d_now d) ?s = Inr False"
    using expiry_of_token [OF av assms(6,7), of "d_now d"] assms(8-11) by simp
  then have auth: "isAuthenticated (d_now d) ?s = (?s, Inr True)"
    using isAuthenticated_token [OF av, of "d_now d"] by simp
  have "beforeLoad OverviewRoute (d\<lparr>d_store := ?s\<rparr>) = (d\<lparr>d_store := ?s\<rparr>, Inr Proceed)"
    using auth by (simp add: beforeLoad_def app_guard_def)
  from navigate_proceed [OF this] sub
  have "handleSubmit router api srv p d = (p', d\<lparr>d_store := ?s, d_location := route_path OverviewRoute\<rparr>, Inr OverviewRoute)"
    by (simp add: handleSubmit_def Let_def assms(3) router_is_navigate [OF assms(13)])
  moreover have "getUser ?s = Inr user"
    using json.dec_enc [OF assms(12)] json_parse_Nil assms(1) by (force simp: getUser_def getItem_def)
  moreover have "getToken ?s = Inr (Some token)" using assms(1) by (simp add: getToken_def getItem_def)
  ultimately show "\<exists>d'. handleSubmit router api srv p d = (p', d', Inr OverviewRoute) \<and> d_location d' = js ''/app''
          \<and> getUser (d_store d') = Inr user \<and> getToken (d_store d') = Inr (Some token)" by simp
next
  assume "case srv rq of Inl _ \<Rightarrow> True
         | Inr r \<Rightarrow> \<not> rsp_ok r \<or> (\<exists>x. json_parse (rsp_body r) = Inl x) \<or> json_parse (rsp_body r) = Inr JNull"
  then have "\<exists>e. submit_login api srv (p\<lparr>lg_error := [], lg_loading := True\<rparr>) (d_store d) = (d_store d, Inl e)"
    by (intro submit_login_refused) (simp add: assms(4))
  then show "handleSubmit router api srv p d = (p'\<lparr>lg_error := js ''Invalid email or password.''\<rparr>, d, Inr LoginRoute)"
    by (auto simp: handleSubmit_def Let_def assms(3))
qed


definition demo_answer :: jsval where
  "demo_answer = JObj [(js ''token'', JStr (token_of (js ''h'') demo_claims (js ''s''))), (js ''user'', demo_user)]"

theorem login_opens_dashboard_witness:
  "\<exists>d'. handleSubmit navigate None (\<lambda>_. Inr \<lparr>rsp_status = 200, rsp_body = stringify demo_answer\<rparr>)
       (login_page_init\<lparr>lg_email := js ''j@d.io'', lg_password := js ''pw''\<rparr>)
       \<lparr>d_now = 1000, d_store = empty_storage, d_location = js ''/login'', d_themes = []\<rparr>
     = (login_page_init\<lparr>lg_email := js ''j@d.io'', lg_password := js ''pw''\<rparr>, d', Inr OverviewRoute)
     \<and> getUser (d_store d') = Inr demo_user"
proof -
  let ?d = "\<lparr>d_now = 1000, d_store = empty_storage, d_location = js ''/login'', d_themes = []\<rparr> :: dash"
  let ?p = "login_page_init\<lparr>lg_email := js ''j@d.io'', lg_password := js ''pw''\<rparr>"
  let ?r = "\<lparr>rsp_status = 200, rsp_body = stringify demo_answer\<rparr> :: response"
  have u: "json_ok demo_user" by (simp add: demo_user_def)
  have "json_ok demo_answer" using u by (simp add: demo_answer_def)
  then have a: "json_parse (rsp_body ?r) = Inr demo_answer" using json_round_trip by simp
  have m: "map_of [(js ''exp'', jint 2000)] (js ''exp'') = Some (jint 2000)" by simp
  have s: "st_available (d_store ?d)" "st_quota (d_store ?d)" "d_now ?d \<le> 2000 * 1000"
    by (simp_all add: empty_storage_def)
  let ?kvs = "[(js ''token'', JStr (token_of (js ''h'') demo_claims (js ''s''))), (js ''user'', demo_user)]"
  note ok = login_opens_dashboard [where srv = "\<lambda>_. Inr ?r" and p = ?p and api = None and sig = "js ''s''",
      OF s(1,2) refl refl refl demo_claims_facts(4,1,2,3) m s(3) u navigate_contract]
  have r: "rsp_ok ?r" "json_parse (rsp_body ?r) = Inr (JObj ?kvs)"
    "map_of ?kvs (js ''token'') = Some (JStr (token_of (js ''h'') demo_claims (js ''s'')))"
    "map_of ?kvs (js ''user'') = Some demo_user"
    using a by (simp_all only: demo_answer_def) (simp_all add: rsp_ok_def)
  have "\<exists>d'. handleSubmit navigate None (\<lambda>_. Inr ?r) ?p ?d = (?p\<lparr>lg_error := [], lg_loading := False\<rparr>, d', Inr OverviewRoute)
     \<and> getUser (d_store d') = Inr demo_user"
    using ok [THEN conjunct1, rule_format, OF conjI [OF refl conjI [OF r(1) conjI [OF r(2) conjI [OF r(3,4)]]]]] by blast
  moreover have "?p\<lparr>lg_error := [], lg_loading := False\<rparr> = ?p" by (simp add: login_page_init_def)
  ultimately show ?thesis by simp
qed


text \<open>Logging out removes the login, and the dashboard is closed until the next one.\<close>

lemma logout_closes_app:
  assumes "router_contract router" and "st_available (d_store d)" and "under_app r"
  shows "\<exists>d1 d2. handleLogout router d = (d1, Inr LoginRoute) \<and> getUser (d_store d1) = Inr JNull
    \<and> \<not> logged_in d1 \<and> router r d1 = (d2, Inr LoginRoute)"
proof -
  note nav = router_is_navigate [OF assms(1)]
  let ?s = "(d_store d)\<lparr>st_items := (st_items (d_store d))(TOKEN_KEY := None, USER_KEY := None)\<rparr>"
  let ?d = "d\<lparr>d_store := ?s, d_location := route_path LoginRoute\<rparr>"
  have out: "handleLogout router d = (?d, Inr LoginRoute)"
    using clearAuth_ok [OF assms(2)] by (simp add: handleLogout_def nav navigate_unguarded)
  have av: "st_available (d_store ?d)" using assms(2) by simp
  have no: "\<not> logged_in ?d"
    using av by (simp add: logged_in_def isAuthenticated_def getToken_def getItem_def)
  obtain d2 where "beforeLoad r ?d = (d2, Inr (Redirect LoginRoute))"
    using beforeLoad_cases [OF av, of r] no assms(3) by (cases r) auto
  then have "router r ?d = (d2\<lparr>d_location := route_path LoginRoute\<rparr>, Inr LoginRoute)"
    by (simp add: nav navigate_redirect navigate_unguarded)
  with out no av show ?thesis by (auto simp: getUser_def getItem_def)
qed


section \<open>The theme\<close>

text \<open>The theme classes on the root element.\<close>

definition theme_classes :: "dash \<Rightarrow> jsstr list" where
  "theme_classes d = filter (\<lambda>c. c \<in> {js ''dark'', js ''light''}) (d_themes d)"

text \<open>
  What happens to the theme of a tab: a click on the button, or a reload of the page, which is served with
  the class \<open>dark\<close> on its root element, runs \<open>main.tsx\<close> and mounts the button anew.
\<close>

inductive theme_step :: "jsstr \<times> dash \<Rightarrow> jsstr \<times> dash \<Rightarrow> bool" where
  click: "theme_step td (fst (handleToggle td))"
| reload: "main_theme ((snd td)\<lparr>d_themes := [js ''dark'']\<rparr>) = (d', Inr ()) \<Longrightarrow> theme_toggle_init d' = Inr th
    \<Longrightarrow> theme_step td (th, d')"

definition toggle_inv :: "jsstr \<times> dash \<Rightarrow> bool" where
  "toggle_inv td \<longleftrightarrow> st_available (d_store (snd td)) \<and> st_quota (d_store (snd td))
     \<and> fst td \<in> {js ''dark'', js ''light''} \<and> getStoredTheme (snd td) = Inr (fst td)"

lemma handleToggle_inv:
  assumes "toggle_inv td"
  shows "toggle_inv (fst (handleToggle td))
    \<and> theme_classes (snd (fst (handleToggle td))) = [fst (fst (handleToggle td))]
    \<and> fst (fst (handleToggle td)) \<noteq> fst td \<and> fst (fst (handleToggle (fst (handleToggle td)))) = fst td
    \<and> snd (handleToggle td) = Inr ()"
proof -
  obtain th d where td: "td = (th, d)" by (cases td)
  with assms have d: "st_available (d_store d)" "st_quota (d_store d)" "getStoredTheme d = Inr th"
      "th \<in> {js ''dark'', js ''light''}" by (simp_all add: toggle_inv_def)
  obtain d1 d2 other where s: "toggleTheme d = (d1, Inr other)" "toggleTheme d1 = (d2, Inr th)" "other \<noteq> th"
      "filter (\<lambda>c. c \<in> {js ''dark'', js ''light''}) (d_themes d1) = [other]"
    using toggle_theme_twice [OF d] by blast
  have o: "other \<in> {js ''dark'', js ''light''}"
    using arg_cong [OF s(4), of set] by auto
  have d1: "d1 = fst (applyTheme other d)"
    using s(1) d(3) by (auto simp: toggleTheme_def Let_def split: prod.splits sum.splits)
  have "st_available (d_store d1) \<and> st_quota (d_store d1) \<and> getStoredTheme d1 = Inr other"
    unfolding d1 applyTheme_ok [OF d(1,2) o] using d(1,2) by (simp add: getStoredTheme_def getItem_def)
  with s o td show ?thesis by (simp add: handleToggle_def toggle_inv_def theme_classes_def)
qed

lemma reload_inv:
  assumes "toggle_inv td"
  shows "\<exists>d'. main_theme ((snd td)\<lparr>d_themes := [js ''dark'']\<rparr>) = (d', Inr ())
    \<and> theme_toggle_init d' = Inr (fst td) \<and> toggle_inv (fst td, d')
    \<and> theme_classes d' = (if fst td = js ''dark'' then [js ''dark''] else [js ''dark'', js ''light''])"
proof -
  have th: "fst td = js ''dark'' \<or> fst td = js ''light''" using assms by (auto simp: toggle_inv_def)
  then have a: "add_class (fst td) [js ''dark'']
      = Inr (if fst td = js ''dark'' then [js ''dark''] else [js ''dark'', js ''light''])"
    by (auto simp: add_class_def js_def)
  have "st_available (d_store (snd td))" using assms by (simp add: toggle_inv_def)
  then obtain t where t: "getItem (d_store (snd td)) THEME_KEY = Inr t"
    "(case t of None \<Rightarrow> js ''dark'' | Some x \<Rightarrow> x) = fst td"
    using assms by (auto simp: toggle_inv_def getStoredTheme_def getItem_def)
  with a assms th show ?thesis
    by (auto simp: main_theme_def theme_toggle_init_def getStoredTheme_def toggle_inv_def theme_classes_def)
qed

lemma theme_step_inv: "toggle_inv td \<Longrightarrow> theme_step td td' \<Longrightarrow> toggle_inv td'"
  using handleToggle_inv [of td] reload_inv [of td] by (auto elim!: theme_step.cases)

interpretation theming: invariant_system toggle_inv theme_step toggle_inv
  by unfold_locales (auto intro: theme_step_inv)

text \<open>
  Property C35 (the chosen theme over clicks and reloads). With a working storage that holds one of the two
  themes, or none, after any sequence of clicks on the theme button and reloads of the page: the button
  remembers the stored theme. The next click succeeds and leaves the other theme stored, remembered and as the
  only theme class of the root element, with the other icon, and one more click brings the first one back. A
  reload keeps the stored theme and its icon, but where the theme is light the root element carries both
  classes then, because the page is served with \<open>dark\<close> and \<open>main.tsx\<close> only adds the stored theme.
\<close>

theorem theme_over_clicks_and_reloads:
  assumes "st_available (d_store d)" and "st_quota (d_store d)" and "theme_toggle_init d = Inr th"
    and "th \<in> {js ''dark'', js ''light''}" and "theme_step\<^sup>*\<^sup>* (th, d) td" and "td' = fst (handleToggle td)"
  shows "getStoredTheme (snd td) = Inr (fst td) \<and> snd (handleToggle td) = Inr ()
    \<and> {fst td, fst td'} = {js ''dark'', js ''light''} \<and> getStoredTheme (snd td') = Inr (fst td')
    \<and> theme_classes (snd td') = [fst td'] \<and> theme_icon_of (fst td') \<noteq> theme_icon_of (fst td)
    \<and> fst (fst (handleToggle td')) = fst td
    \<and> (\<exists>d'. main_theme ((snd td)\<lparr>d_themes := [js ''dark'']\<rparr>) = (d', Inr ()) \<and> theme_toggle_init d' = Inr (fst td)
        \<and> theme_classes d' = (if fst td = js ''dark'' then [js ''dark''] else [js ''dark'', js ''light'']))"
proof -
  have "toggle_inv (th, d)" using assms(1-4) by (simp add: toggle_inv_def theme_toggle_init_def)
  from theming.reachable_inv [OF this assms(5)] have i: "toggle_inv td" .
  note h = handleToggle_inv [OF i]
  have t: "fst td \<in> {js ''dark'', js ''light''}" "fst td' \<in> {js ''dark'', js ''light''}" "fst td' \<noteq> fst td"
    using i h by (simp_all add: toggle_inv_def assms(6))
  then have "{fst td, fst td'} = {js ''dark'', js ''light''}" "theme_icon_of (fst td') \<noteq> theme_icon_of (fst td)"
    by (auto simp: theme_icon_of_def)
  moreover have "getStoredTheme (snd td) = Inr (fst td)" "getStoredTheme (snd td') = Inr (fst td')"
    "theme_classes (snd td') = [fst td']" "fst (fst (handleToggle td')) = fst td" "snd (handleToggle td) = Inr ()"
    using i h by (simp_all add: toggle_inv_def assms(6))
  ultimately show ?thesis using reload_inv [OF i] by blast
qed

theorem theme_over_clicks_and_reloads_witness:
  "\<exists>d'. main_theme \<lparr>d_now = 0, d_store = empty_storage\<lparr>st_items := [THEME_KEY \<mapsto> js ''light'']\<rparr>,
       d_location = js ''/'', d_themes = [js ''dark'']\<rparr> = (d', Inr ()) \<and> theme_classes d' = [js ''dark'', js ''light'']"
proof -
  let ?d = "\<lparr>d_now = 0, d_store = empty_storage\<lparr>st_items := [THEME_KEY \<mapsto> js ''light'']\<rparr>,
       d_location = js ''/'', d_themes = [js ''dark'']\<rparr> :: dash"
  have "theme_toggle_init ?d = Inr (js ''light'')"
    by (simp add: theme_toggle_init_def getStoredTheme_def getItem_def empty_storage_def)
  from theme_over_clicks_and_reloads [OF _ _ this _ rtranclp.rtrancl_refl refl] show ?thesis
    by (auto simp: empty_storage_def js_def)
qed

end
