(* ===== verification/Incident.thy ===== *)
theory Incident
  imports Timeline JsDate
begin

text \<open>
  The incident report (\<open>packages/dashboard/src/lib/incident.ts\<close>): a plain-text summary of a
  session and its timeline. The session is the server's record
  (\<open>packages/dashboard/src/http/sessions/types.ts\<close>); numbers in it are integers, except the
  pixel ratio. What \<open>Date\<close> makes of text that is not a timestamp is the parameter \<open>engine\<close>.
\<close>

record ReplaySession =
  rs_id :: jsstr
  rs_bat_session_id :: jsstr
  rs_identifier :: jsstr
  rs_user_email :: jsstr
  rs_user_name :: jsstr
  rs_start_url :: jsstr
  rs_environment :: jsstr
  rs_service_name :: jsstr
  rs_started_at :: jsstr
  rs_ended_at :: "jsstr option"
  rs_duration_ms :: "int option"
  rs_event_count :: int
  rs_trigger :: jsstr
  rs_screen_width :: int
  rs_screen_height :: int
  rs_viewport_width :: int
  rs_viewport_height :: int
  rs_device_pixel_ratio :: jsnum
  rs_language :: jsstr
  rs_timezone :: jsstr
  rs_user_agent :: jsstr
  rs_browser :: jsstr
  rs_browser_version :: jsstr
  rs_os :: jsstr
  rs_device_type :: jsstr
  rs_created_at :: jsstr

definition MAX_MSG :: nat where "MAX_MSG = 300"

definition clip :: "jsstr \<Rightarrow> jsstr" where
  "clip s =
     (let oneLine = one_line s
      in if MAX_MSG < length oneLine then slice0 MAX_MSG oneLine @ [ch_ellipsis] else oneLine)"

definition fmtDuration :: "int option \<Rightarrow> jsstr" where
  "fmtDuration v =
     (case v of
        None \<Rightarrow> [ch_dash]
      | Some ms \<Rightarrow>
          if ms = 0 then [ch_dash]
          else if ms < 1000 then show_int ms @ js ''ms''
          else if ms < 60000 then toFixed1 ms 1000 @ js ''s''
          else
            (let m = floor_quot (nat ms) 60000; s = floor_quot (nat ms mod 60000) 1000
             in dec_digits m @ js ''m '' @ dec_digits s @ js ''s''))"

definition rel :: "int \<Rightarrow> int \<Rightarrow> jsstr" where
  "rel ts start = js ''+'' @ toFixed1 (ts - start) 1000 @ js ''s''"

fun LABEL :: "TimelineKind \<Rightarrow> jsstr" where
  "LABEL KError = js ''error''"
| "LABEL KWarn = js ''warn''"
| "LABEL KLog = js ''log''"
| "LABEL KInfo = js ''info''"
| "LABEL KClick = js ''click''"
| "LABEL KNavigate = js ''nav''"
| "LABEL KInput = js ''input''"

text \<open>\<open>a || b\<close> on strings.\<close>

definition str_or :: "jsstr \<Rightarrow> jsstr \<Rightarrow> jsstr" where
  "str_or a b = (if a \<noteq> [] then a else b)"

definition nav_messages :: "TimelineItem list \<Rightarrow> jsstr list" where
  "nav_messages tln = map ti_message (filter (\<lambda>t. ti_kind t = KNavigate) tln)"

text \<open>\<open>timeline.find(...)?.message\<close>, forwards and on the reversed copy; absent is empty.\<close>

definition first_nav :: "TimelineItem list \<Rightarrow> jsstr" where
  "first_nav tln = (case nav_messages tln of [] \<Rightarrow> [] | m # _ \<Rightarrow> m)"

definition last_nav :: "TimelineItem list \<Rightarrow> jsstr" where
  "last_nav tln = (case nav_messages (rev tln) of [] \<Rightarrow> [] | m # _ \<Rightarrow> m)"

definition is_console_kind :: "TimelineKind \<Rightarrow> bool" where
  "is_console_kind k \<longleftrightarrow> k \<in> {KError, KWarn, KLog, KInfo}"

definition header_lines :: "ReplaySession \<Rightarrow> jsstr \<Rightarrow> TimelineItem list \<Rightarrow> jsstr list" where
  "header_lines s stamp_txt tln =
     (let (errors, warnings) = countConsole tln;
          trigger = (if rs_trigger s = js ''manual'' then js ''reported'' else str_or (rs_trigger s) (js ''unknown''));
          lastNav = last_nav tln;
          startUrl = str_or (rs_start_url s) (str_or (first_nav tln) [ch_dash])
      in [js ''# BatRewind incident '' @ [ch_dash] @ js '' '' @ rs_service_name s @ js '' ('' @ rs_environment s @ js '')'',
          [],
          js ''- Session: '' @ rs_id s,
          js ''- User: '' @ str_or (rs_identifier s) [ch_dash],
          js ''- Trigger: '' @ trigger,
          js ''- Started: '' @ stamp_txt,
          js ''- Duration: '' @ fmtDuration (rs_duration_ms s),
          js ''- Events: '' @ show_int (rs_event_count s) @ js '' '' @ [ch_middot] @ js '' Errors: '' @ dec_digits errors
            @ js '' '' @ [ch_middot] @ js '' Warnings: '' @ dec_digits warnings,
          js ''- Start URL: '' @ startUrl]
         @ (if lastNav \<noteq> [] \<and> lastNav \<noteq> startUrl then [js ''- Last URL: '' @ lastNav] else []))"

definition item_line :: "int \<Rightarrow> TimelineItem \<Rightarrow> jsstr" where
  "item_line start it = rel (ti_timestamp it) start @ [9] @ LABEL (ti_kind it) @ [9] @ clip (ti_message it)"

definition console_line :: "int \<Rightarrow> TimelineItem \<Rightarrow> jsstr" where
  "console_line start it =
     js ''['' @ LABEL (ti_kind it) @ js ''] '' @ rel (ti_timestamp it) start @ js '' '' @ clip (ti_message it)"

definition timeline_lines :: "int \<Rightarrow> TimelineItem list \<Rightarrow> jsstr list" where
  "timeline_lines start tln =
     [[], js ''## Timeline (relative to session start)'']
       @ (if tln = [] then [js ''(no user actions captured)''] else map (item_line start) tln)"

definition console_lines :: "int \<Rightarrow> TimelineItem list \<Rightarrow> jsstr list" where
  "console_lines start tln =
     (let cs = filter (\<lambda>t. is_console_kind (ti_kind t)) tln
      in if cs = [] then [] else [[], js ''## Console''] @ map (console_line start) cs)"

definition footer_lines :: "jsstr list" where
  "footer_lines = [[], js ''---'',
     js ''This is a recorded user session (session replay). It describes what the user did and where it broke. Use it with the project source open to locate the cause.'']"

definition report_start :: "ReplayEvent list \<Rightarrow> int" where
  "report_start events = (case events of [] \<Rightarrow> 0 | e # _ \<Rightarrow> re_timestamp e)"

definition buildIncidentReport ::
    "(jsstr \<Rightarrow> int option) \<Rightarrow> ReplaySession \<Rightarrow> ReplayEvent list \<Rightarrow> jsstr res"
where
  "buildIncidentReport engine s events =
     bindR (buildTimeline events) (\<lambda>tln.
       bindR (toISOString (new_Date engine (rs_started_at s))) (\<lambda>stamp_txt.
         let start = report_start events
         in Inr (join [10] (header_lines s stamp_txt tln @ timeline_lines start tln @ console_lines start tln @ footer_lines))))"


section \<open>Counting\<close>

lemma count_console_filter:
  "count_console items (e, w) =
     (e + length (filter (\<lambda>t. ti_kind t = KError) items), w + length (filter (\<lambda>t. ti_kind t = KWarn) items))"
  by (induction items arbitrary: e w) auto

lemma countConsole_filter:
  "countConsole items =
     (length (filter (\<lambda>t. ti_kind t = KError) items), length (filter (\<lambda>t. ti_kind t = KWarn) items))"
  by (simp add: countConsole_def count_console_filter)


section \<open>Durations\<close>

text \<open>
  For every whole number of milliseconds below 2 to the 53: nothing or zero is a dash; below a second
  the milliseconds are printed; below a minute the seconds to one decimal, at most fifty
  milliseconds away from the duration; from a minute on, the whole minutes and the
  remaining whole seconds, which are fewer than sixty. In particular the double-precision
  quotients lose nothing.
\<close>

lemma fmtDuration_exact:
  assumes "0 < ms" and "ms < 2 ^ 53"
  shows "if ms < 1000 then fmtDuration (Some ms) = show_int ms @ js ''ms''
    else if ms < 60000 then \<exists>t. fmtDuration (Some ms) = fixed1 t @ js ''s'' \<and> \<bar>100 * int t - ms\<bar> \<le> 50
    else \<exists>m s. fmtDuration (Some ms) = dec_digits m @ js ''m '' @ dec_digits s @ js ''s''
      \<and> s < 60 \<and> int (60 * m + s) = ms div 1000"
proof -
  have n: "nat ms < 2 ^ 53" using assms by (simp add: nat_less_iff)
  have t: "\<bar>100 * int (tenths (nat ms) 1000) - ms\<bar> \<le> 50" using tenths_1000 [OF n] assms(1) by simp
  have m: "floor_quot (nat ms) 60000 = nat ms div 60000" by (rule floor_quot_exact [OF n]) simp
  have s: "floor_quot (nat ms mod 60000) 1000 = nat ms mod 60000 div 1000"
    by (rule floor_quot_exact) (simp_all add: less_trans [OF mod_less_divisor])
  have "nat ms mod 60000 div 1000 = nat ms div 1000 mod 60"
    using mod_mult2_eq [of "nat ms" 1000 60] by simp
  moreover have "nat ms div 60000 = nat ms div 1000 div 60" by (simp add: div_mult2_eq [symmetric])
  ultimately have "60 * (nat ms div 60000) + nat ms mod 60000 div 1000 = nat ms div 1000"
    by (simp only: mult_div_mod_eq)
  then have v: "int (60 * (nat ms div 60000) + nat ms mod 60000 div 1000) = ms div 1000"
    using assms(1) by (simp add: zdiv_int)
  have "nat ms mod 60000 div 1000 < 60" by (simp add: less_mult_imp_div_less)
  with v t assms(1) show ?thesis
    by (auto simp: fmtDuration_def toFixed1_def m s Let_def)
qed


section \<open>One line per item\<close>

text \<open>Text without a line feed.\<close>

definition plain :: "jsstr \<Rightarrow> bool" where
  "plain s \<longleftrightarrow> 10 \<notin> set s"

lemma plain_append [simp]: "plain (a @ b) \<longleftrightarrow> plain a \<and> plain b"
  by (auto simp: plain_def)

lemma plain_Nil [simp]: "plain []"
  by (simp add: plain_def)

lemma plain_Cons [simp]: "plain (c # s) \<longleftrightarrow> c \<noteq> 10 \<and> plain s"
  by (auto simp: plain_def)

lemma is_digit_plain: "is_digit c \<Longrightarrow> c \<noteq> 10"
  by (auto simp: is_digit_def word_le_nat_alt)

lemma plain_digits: "list_all is_digit s \<Longrightarrow> plain s"
  by (auto simp: plain_def list_all_iff dest: is_digit_plain)

lemma plain_dec_digits [simp]: "plain (dec_digits n)"
  using dec_digits_all is_digit_plain by (auto simp: plain_def)

lemma plain_show_int [simp]: "plain (show_int i)"
  by (simp add: show_int_def)

lemma plain_toFixed1 [simp]: "plain (toFixed1 a b)"
  by (simp add: toFixed1_def fixed1_def)

lemma js_newline: "plain (js s) \<longleftrightarrow> CHR 0x0A \<notin> set s"
proof -
  have "(10 :: 16 word) = of_char CHR 0x0A" by simp
  then show ?thesis
    using of_char_unit_inj [of "CHR 0x0A"] by (auto simp: plain_def js_def image_iff)
qed

lemma plain_clip [simp]: "plain (clip s)"
  using newline_not_in_one_line [of s] set_take_subset [of MAX_MSG "one_line s"]
  by (auto simp: clip_def plain_def slice0_def ch_ellipsis_def Let_def)

lemma plain_marks [simp]: "ch_dash \<noteq> 10" "ch_middot \<noteq> 10" "ch_ellipsis \<noteq> 10"
  by (simp_all add: ch_dash_def ch_middot_def ch_ellipsis_def)

lemma plain_LABEL [simp]: "plain (LABEL k)"
  by (cases k) (simp_all add: js_newline)

lemma plain_rel [simp]: "plain (rel ts start)"
  by (simp add: rel_def js_newline)

lemma plain_fmtDuration [simp]: "plain (fmtDuration v)"
  by (simp add: fmtDuration_def js_newline Let_def split: option.split)

lemma plain_iso:
  assumes "toISOString t = Inr s"
  shows "plain s"
proof -
  have d: "plain (two_digits n)" "plain (three_digits n)" "plain (four_digits n)" for n
    using fixed_digits plain_digits by blast+
  then show ?thesis
    using assms
    by (auto simp: toISOString_def iso_year_def js_newline Let_def
        simp del: two_digits.simps three_digits.simps four_digits.simps
        split: option.splits if_splits prod.splits)
qed

lemma plain_str_or [simp]: "plain a \<Longrightarrow> plain b \<Longrightarrow> plain (str_or a b)"
  by (simp add: str_or_def)

lemma first_nav_mem: "first_nav tml \<noteq> [] \<Longrightarrow> first_nav tml \<in> set (nav_messages tml)"
  by (auto simp: first_nav_def split: list.splits)

lemma last_nav_mem: "last_nav tml \<noteq> [] \<Longrightarrow> last_nav tml \<in> set (nav_messages tml)"
proof -
  assume "last_nav tml \<noteq> []"
  then have "last_nav tml \<in> set (nav_messages (rev tml))" by (auto simp: last_nav_def split: list.splits)
  then show ?thesis by (simp add: nav_messages_def)
qed

text \<open>The fields the report copies without clipping.\<close>

definition session_plain :: "ReplaySession \<Rightarrow> bool" where
  "session_plain s \<longleftrightarrow> list_all plain [rs_service_name s, rs_environment s, rs_id s, rs_identifier s,
     rs_trigger s, rs_start_url s]"

lemma header_plain:
  assumes "session_plain s" and "plain stamp_txt" and "\<forall>m\<in>set (nav_messages tml). plain m"
    and "l \<in> set (header_lines s stamp_txt tml)"
  shows "plain l"
proof -
  have "plain (first_nav tml)" using assms(3) first_nav_mem [of tml] by (cases "first_nav tml = []") auto
  moreover have "plain (last_nav tml)" using assms(3) last_nav_mem [of tml] by (cases "last_nav tml = []") auto
  ultimately show ?thesis
    using assms(1,2,4)
    by (auto simp: header_lines_def session_plain_def js_newline Let_def split: prod.splits if_splits)
qed

lemma body_plain:
  "l \<in> set (timeline_lines start tml @ console_lines start tml @ footer_lines) \<Longrightarrow> plain l"
  by (auto simp: timeline_lines_def console_lines_def footer_lines_def item_line_def console_line_def
      js_newline Let_def split: if_splits)

lemma report_lines:
  assumes "buildIncidentReport engine s events = Inr rep" and "buildTimeline events = Inr tml"
    and "toISOString (new_Date engine (rs_started_at s)) = Inr stamp_txt"
    and "session_plain s" and "\<forall>m\<in>set (nav_messages tml). plain m"
  shows "split_on 10 rep = header_lines s stamp_txt tml @ timeline_lines (report_start events) tml
    @ console_lines (report_start events) tml @ footer_lines"
proof -
  let ?ls = "header_lines s stamp_txt tml @ timeline_lines (report_start events) tml
    @ console_lines (report_start events) tml @ footer_lines"
  have rep: "rep = join [10] ?ls" using assms(1-3) by (simp add: buildIncidentReport_def Let_def)
  have "\<forall>l\<in>set ?ls. plain l"
    using header_plain [OF assms(4) plain_iso [OF assms(3)] assms(5)] body_plain by auto
  then have "split_on 10 (join [10] ?ls) = ?ls"
    by (intro split_on_join) (auto simp: plain_def footer_lines_def)
  with rep show ?thesis by simp
qed


text \<open>The message of a navigation is the address in its event.\<close>

lemma event_items_nav:
  assumes "event_items m i e = Inr xs" and "it \<in> set xs" and "ti_kind it = KNavigate"
  shows "js_opt_get (re_data e) (js ''href'') = JStr (ti_message it)"
  using assms
  by (auto simp: event_items_def console_item_def action_item_def consoleLevelToKind_def Let_def bindR_eq_Inr
      split: if_splits jsval.splits)

lemma timeline_from_nav:
  "timeline_from m i es = Inr items \<Longrightarrow> it \<in> set items \<Longrightarrow> ti_kind it = KNavigate \<Longrightarrow>
     \<exists>e\<in>set es. js_opt_get (re_data e) (js ''href'') = JStr (ti_message it)"
proof (induction es arbitrary: i items)
  case (Cons e es)
  then obtain xs ys where xs: "event_items m i e = Inr xs" and ys: "timeline_from m (Suc i) es = Inr ys"
    and items: "items = xs @ ys"
    by (auto simp: bindR_eq_Inr)
  with Cons.prems event_items_nav [OF xs] Cons.IH [OF ys] show ?case by auto
qed simp

definition hrefs_plain :: "ReplayEvent list \<Rightarrow> bool" where
  "hrefs_plain events \<longleftrightarrow>
     list_all (\<lambda>e. case js_opt_get (re_data e) (js ''href'') of JStr h \<Rightarrow> plain h | _ \<Rightarrow> True) events"

lemma nav_messages_plain:
  assumes "buildTimeline events = Inr tml" and "hrefs_plain events"
  shows "\<forall>m\<in>set (nav_messages tml). plain m"
proof
  fix msg
  assume "msg \<in> set (nav_messages tml)"
  then obtain it where "it \<in> set tml" "ti_kind it = KNavigate" "msg = ti_message it"
    by (auto simp: nav_messages_def)
  moreover from assms(1) obtain m where "timeline_from m 0 events = Inr tml"
    by (auto simp: buildTimeline_def bindR_eq_Inr)
  ultimately obtain e where "e \<in> set events" "js_opt_get (re_data e) (js ''href'') = JStr msg"
    using timeline_from_nav by blast
  with assms(2) show "plain msg" by (force simp: hrefs_plain_def list_all_iff)
qed

text \<open>How a message may appear in a line of the report.\<close>

definition shown_as :: "jsstr \<Rightarrow> jsstr \<Rightarrow> bool" where
  "shown_as msg shown \<longleftrightarrow> length shown \<le> 301 \<and> 10 \<notin> set shown
     \<and> (is_one_line msg \<longrightarrow> shown = (if length msg \<le> 300 then msg else take 300 msg @ [0x2026]))"

lemma clip_shown: "shown_as msg (clip msg)"
  using plain_clip [of msg] one_line_id [of msg]
  by (auto simp: shown_as_def clip_def MAX_MSG_def slice0_def plain_def ch_ellipsis_def Let_def)

definition kind_word :: "TimelineKind \<Rightarrow> jsstr" where
  "kind_word k = (case k of KError \<Rightarrow> js ''error'' | KWarn \<Rightarrow> js ''warn'' | KLog \<Rightarrow> js ''log''
     | KInfo \<Rightarrow> js ''info'' | KClick \<Rightarrow> js ''click'' | KNavigate \<Rightarrow> js ''nav'' | KInput \<Rightarrow> js ''input'')"

lemma LABEL_word: "LABEL k = kind_word k"
  by (cases k) (simp_all add: kind_word_def)

text \<open>The line of an item in the timeline and in the console section: seconds since the start, kind, message.\<close>

definition timeline_entry :: "int \<Rightarrow> TimelineItem \<Rightarrow> jsstr \<Rightarrow> bool" where
  "timeline_entry start it l \<longleftrightarrow> (\<exists>shown. shown_as (ti_message it) shown
     \<and> l = js ''+'' @ toFixed1 (ti_timestamp it - start) 1000 @ js ''s'' @ [9] @ kind_word (ti_kind it) @ [9] @ shown)"

definition console_entry :: "int \<Rightarrow> TimelineItem \<Rightarrow> jsstr \<Rightarrow> bool" where
  "console_entry start it l \<longleftrightarrow> (\<exists>shown. shown_as (ti_message it) shown
     \<and> l = js ''['' @ kind_word (ti_kind it) @ js ''] +'' @ toFixed1 (ti_timestamp it - start) 1000 @ js ''s '' @ shown)"

lemma item_line_entry: "timeline_entry start it (item_line start it)"
  using clip_shown by (auto simp: timeline_entry_def item_line_def rel_def LABEL_word)

lemma console_line_entry: "console_entry start it (console_line start it)"
  using clip_shown by (auto simp: console_entry_def console_line_def rel_def LABEL_word js_def)

lemma timeline_lines_cases:
  "\<exists>body. timeline_lines start items = [[], js ''## Timeline (relative to session start)''] @ body
    \<and> (if items = [] then body = [js ''(no user actions captured)''] else list_all2 (timeline_entry start) items body)"
  by (auto simp: timeline_lines_def list.rel_map item_line_entry intro: list.rel_refl)

lemma console_lines_cases:
  assumes "cs = filter (\<lambda>it. ti_kind it \<in> {KError, KWarn, KLog, KInfo}) items"
  shows "if cs = [] then console_lines start items = []
    else \<exists>body. console_lines start items = [[], js ''## Console''] @ body \<and> list_all2 (console_entry start) cs body"
proof -
  have "cs = filter (\<lambda>t. is_console_kind (ti_kind t)) items" by (simp add: assms is_console_kind_def)
  then show ?thesis by (auto simp: console_lines_def list.rel_map console_line_entry Let_def intro: list.rel_refl)
qed

text \<open>
  Property C17 (the incident report). For recorded events of the recorder's shape and a session that started at a
  timestamp \<open>t\<close> of the years 0 to 9999, the report is produced. If no field it copies
  verbatim contains a line feed, splitting it at line feeds gives: at most ten header lines, among them
  the start of the session as the same instant \<open>t\<close> in UTC and the numbers of errors and
  warnings; the heading of the timeline, followed by exactly one line per timeline item, in order, whatever the
  messages contain (or by one line saying that there are none); where there are console items, the heading of
  the console and exactly one line for each of them, in order; and the three closing lines. The line of an item
  has the seconds since the first event, the kind, and its message: on one line, at most 301 units long, and
  unchanged if it was one line (single spaces, none at its ends) of at most 300 units, cut to 300 units and an
  ellipsis if it was longer.
\<close>

theorem incident_report_one_line_per_item:
  assumes "\<forall>e\<in>set events. rrweb_event e" and "hrefs_plain events" and "session_plain s"
    and "iso_instant (rs_started_at s) = Some t" and "civil (t div MS_PER_DAY) = (y, m, d)"
    and "0 \<le> y" and "y \<le> 9999" and "\<bar>t\<bar> \<le> 100000000 * MS_PER_DAY"
    and "start = (case events of [] \<Rightarrow> 0 | e # _ \<Rightarrow> re_timestamp e)"
  shows "\<exists>rep items cs before started body console closing. buildIncidentReport engine s events = Inr rep
    \<and> buildTimeline events = Inr items \<and> cs = filter (\<lambda>it. ti_kind it \<in> {KError, KWarn, KLog, KInfo}) items
    \<and> split_on 10 rep = before @ [[], js ''## Timeline (relative to session start)''] @ body @ console @ closing
    \<and> (if items = [] then body = [js ''(no user actions captured)''] else list_all2 (timeline_entry start) items body)
    \<and> (if cs = [] then console = []
       else \<exists>ls. console = [[], js ''## Console''] @ ls \<and> list_all2 (console_entry start) cs ls)
    \<and> length before \<le> 10 \<and> length closing = 3
    \<and> js ''- Started: '' @ started \<in> set before \<and> iso_instant started = Some t
    \<and> js ''- Events: '' @ show_int (rs_event_count s) @ js '' '' @ [ch_middot] @ js '' Errors: ''
        @ dec_digits (length (filter (\<lambda>it. ti_kind it = KError) items)) @ js '' '' @ [ch_middot] @ js '' Warnings: ''
        @ dec_digits (length (filter (\<lambda>it. ti_kind it = KWarn) items)) \<in> set before"
proof -
  obtain items where i: "buildTimeline events = Inr items" using buildTimeline_ok [OF assms(1)] by blast
  obtain started where st: "toISOString (new_Date engine (rs_started_at s)) = Inr started" "iso_instant started = Some t"
    using iso_round_trip [OF assms(5-8)] assms(4) by (auto simp: new_Date_def)
  obtain rep where rep: "buildIncidentReport engine s events = Inr rep"
    using i st(1) by (simp add: buildIncidentReport_def Let_def)
  define cs where "cs = filter (\<lambda>it. ti_kind it \<in> {KError, KWarn, KLog, KInfo}) items"
  have start: "report_start events = start" by (simp add: assms(9) report_start_def)
  obtain body where b: "timeline_lines start items = [[], js ''## Timeline (relative to session start)''] @ body"
    "if items = [] then body = [js ''(no user actions captured)''] else list_all2 (timeline_entry start) items body"
    using timeline_lines_cases by blast
  note lines = report_lines [OF rep i st(1) assms(3) nav_messages_plain [OF i assms(2)], unfolded start b(1), simplified append_assoc]
  have h: "js ''- Started: '' @ started \<in> set (header_lines s started items)"
    "js ''- Events: '' @ show_int (rs_event_count s) @ js '' '' @ [ch_middot] @ js '' Errors: ''
        @ dec_digits (length (filter (\<lambda>it. ti_kind it = KError) items)) @ js '' '' @ [ch_middot] @ js '' Warnings: ''
        @ dec_digits (length (filter (\<lambda>it. ti_kind it = KWarn) items)) \<in> set (header_lines s started items)"
    "length (header_lines s started items) \<le> 10"
    by (simp_all add: header_lines_def countConsole_filter Let_def)
  have f: "length footer_lines = 3" by (simp add: footer_lines_def)
  show ?thesis
    by (intro exI conjI) (rule rep i cs_def lines b(2) console_lines_cases [OF cs_def] h(3) f h(1) st(2) h(2))+
qed

definition demo_session_row :: ReplaySession where
  "demo_session_row = \<lparr>rs_id = js ''s1'', rs_bat_session_id = [], rs_identifier = js ''jane'', rs_user_email = [],
     rs_user_name = [], rs_start_url = [], rs_environment = js ''production'', rs_service_name = js ''shop'',
     rs_started_at = js ''2024-02-29T23:59:58.25Z'', rs_ended_at = None, rs_duration_ms = Some 61500,
     rs_event_count = 5, rs_trigger = js ''manual'', rs_screen_width = 1920, rs_screen_height = 1080,
     rs_viewport_width = 0, rs_viewport_height = 0, rs_device_pixel_ratio = JInt 2, rs_language = js ''en'',
     rs_timezone = [], rs_user_agent = [], rs_browser = js ''Firefox'', rs_browser_version = js ''128.0'',
     rs_os = js ''Linux'', rs_device_type = js ''desktop'', rs_created_at = []\<rparr>"

theorem incident_report_one_line_per_item_witness:
  "\<exists>rep items before started body rest. buildIncidentReport (\<lambda>_. None) demo_session_row demo_events = Inr rep
     \<and> buildTimeline demo_events = Inr items \<and> length body = max 1 (length items)
     \<and> split_on 10 rep = before @ [[], js ''## Timeline (relative to session start)''] @ body @ rest
     \<and> js ''- Started: '' @ started \<in> set before \<and> iso_instant started = Some 1709251198250"
proof -
  have "hrefs_plain demo_events"
    by (simp add: hrefs_plain_def demo_events_def demo_replay_def js_opt_get_def js_newline)
  moreover have "session_plain demo_session_row"
    by (simp add: session_plain_def demo_session_row_def js_newline)
  moreover have "iso_instant (rs_started_at demo_session_row) = Some 1709251198250"
    "civil (1709251198250 div MS_PER_DAY) = (2024, 2, 29)"
    by code_simp+
  ultimately obtain rep items before started body console closing
    where "buildIncidentReport (\<lambda>_. None) demo_session_row demo_events = Inr rep" "buildTimeline demo_events = Inr items"
      "split_on 10 rep = before @ [[], js ''## Timeline (relative to session start)''] @ body @ console @ closing"
      "js ''- Started: '' @ started \<in> set before" "iso_instant started = Some 1709251198250"
      and l: "if items = [] then body = [js ''(no user actions captured)'']
        else list_all2 (timeline_entry (case demo_events of [] \<Rightarrow> 0 | e # _ \<Rightarrow> re_timestamp e)) items body"
    using incident_report_one_line_per_item [OF demo_events_ok, of demo_session_row 1709251198250 2024 2 29
        "case demo_events of [] \<Rightarrow> 0 | e # _ \<Rightarrow> re_timestamp e" "\<lambda>_. None"]
    by (auto simp: MS_PER_DAY_def)
  moreover have "length body = max 1 (length items)"
    using l by (cases items) (auto dest: list_all2_lengthD)
  ultimately show ?thesis by blast
qed

end
