(* ===== verification/PageSessions.thy ===== *)
theory PageSessions
  imports DashHttp Incident
begin

text \<open>
  The list of sessions (\<open>packages/dashboard/src/routes/app/_layout/sessions.tsx\<close>): the search
  parameters in the address, the form, the query they give, the pages, and what the page
  shows. The query library hands the page its data; a locale-dependent time is the
  parameter \<open>formatTime\<close>. The page of the address is a whole number here: the route accepts any number,
  and a fractional page, or one so large that its offset is no exact double, is not modelled.
\<close>

section \<open>State and query\<close>

definition LIMIT :: int where "LIMIT = 20"

text \<open>The search parameters, with the page a whole number.\<close>

record search =
  se_identifier :: "jsstr option"
  se_service_name :: "jsstr option"
  se_environment :: "jsstr option"
  se_page :: "int option"

record sessions_page =
  sp_search :: search
  sp_identifier :: jsstr
  sp_serviceName :: jsstr
  sp_environment :: jsstr
  sp_showFilters :: bool

definition sessions_page_init :: "search \<Rightarrow> sessions_page" where
  "sessions_page_init se =
     \<lparr>sp_search = se, sp_identifier = or_default (se_identifier se) [],
      sp_serviceName = or_default (se_service_name se) [],
      sp_environment = or_default (se_environment se) [], sp_showFilters = False\<rparr>"

definition page_number :: "sessions_page \<Rightarrow> int" where
  "page_number p = or_default (se_page (sp_search p)) 1"

definition page_offset :: "sessions_page \<Rightarrow> int" where
  "page_offset p = (page_number p - 1) * LIMIT"

definition page_query :: "sessions_page \<Rightarrow> query" where
  "page_query p =
     SessionsQuery \<lparr>sf_identifier = se_identifier (sp_search p), sf_service_name = se_service_name (sp_search p),
       sf_environment = se_environment (sp_search p), sf_start_date = None, sf_end_date = None,
       sf_limit = Some LIMIT, sf_offset = Some (page_offset p)\<rparr>"

definition totalPages :: "nat \<Rightarrow> nat" where
  "totalPages tot = ceil_quot tot (nat LIMIT)"

text \<open>\<open>s || undefined\<close>\<close>

definition str_or_undef :: "jsstr \<Rightarrow> jsstr option" where
  "str_or_undef s = (if s = [] then None else Some s)"

definition setIdentifier :: "jsstr \<Rightarrow> sessions_page \<Rightarrow> sessions_page" where
  "setIdentifier v p = p\<lparr>sp_identifier := v\<rparr>"

definition setServiceName :: "jsstr \<Rightarrow> sessions_page \<Rightarrow> sessions_page" where
  "setServiceName v p = p\<lparr>sp_serviceName := v\<rparr>"

definition setEnvironment :: "jsstr \<Rightarrow> sessions_page \<Rightarrow> sessions_page" where
  "setEnvironment v p = p\<lparr>sp_environment := v\<rparr>"

definition toggleFilters :: "sessions_page \<Rightarrow> sessions_page" where
  "toggleFilters p = p\<lparr>sp_showFilters := \<not> sp_showFilters p\<rparr>"

definition applyFilters :: "sessions_page \<Rightarrow> sessions_page" where
  "applyFilters p =
     p\<lparr>sp_search := \<lparr>se_identifier = str_or_undef (sp_identifier p),
         se_service_name = str_or_undef (sp_serviceName p),
         se_environment = str_or_undef (sp_environment p), se_page = Some 1\<rparr>\<rparr>"

definition clearFilters :: "sessions_page \<Rightarrow> sessions_page" where
  "clearFilters p =
     p\<lparr>sp_identifier := [], sp_serviceName := [], sp_environment := [],
       sp_search := \<lparr>se_identifier = None, se_service_name = None, se_environment = None, se_page = Some 1\<rparr>\<rparr>"

definition hasActiveFilters :: "sessions_page \<Rightarrow> bool" where
  "hasActiveFilters p \<longleftrightarrow> or_default (se_identifier (sp_search p)) [] \<noteq> []
     \<or> or_default (se_service_name (sp_search p)) [] \<noteq> [] \<or> or_default (se_environment (sp_search p)) [] \<noteq> []"

definition previousPage :: "sessions_page \<Rightarrow> sessions_page" where
  "previousPage p = p\<lparr>sp_search := (sp_search p)\<lparr>se_page := Some (max 1 (page_number p - 1))\<rparr>\<rparr>"

definition nextPage :: "nat \<Rightarrow> sessions_page \<Rightarrow> sessions_page" where
  "nextPage tot p =
     p\<lparr>sp_search := (sp_search p)\<lparr>se_page := Some (min (int (totalPages tot)) (page_number p + 1))\<rparr>\<rparr>"

definition showPagination :: "nat \<Rightarrow> bool" where
  "showPagination tot \<longleftrightarrow> 1 < totalPages tot"


section \<open>What the page shows\<close>

definition ENVIRONMENTS :: "jsstr list" where
  "ENVIRONMENTS = [js ''production'', js ''staging'', js ''development'', js ''testing'', js ''local'']"

text \<open>A lookup by a name that is no environment gives nothing, for the names no object has by itself.\<close>

definition ENV_COLORS :: "jsstr \<rightharpoonup> jsstr" where
  "ENV_COLORS = map_of [(js ''production'', js ''text-[#34d399]''), (js ''staging'', js ''text-[#60a5fa]''),
     (js ''development'', js ''text-[#818cf8]''), (js ''testing'', js ''text-[#fb923c]''),
     (js ''local'', js ''text-muted-foreground'')]"

definition formatDuration_sessions :: "int option \<Rightarrow> jsstr" where
  "formatDuration_sessions v =
     (case v of
        None \<Rightarrow> [ch_dash]
      | Some ms \<Rightarrow>
          if ms = 0 then [ch_dash]
          else if ms < 1000 then show_int ms @ js ''ms''
          else if ms < 60000 then toFixed1 ms 1000 @ js ''s''
          else
            (let m = floor_quot (nat ms) 60000; s = floor_quot (nat ms mod 60000) 1000
             in dec_digits m @ js ''m '' @ dec_digits s @ js ''s''))"

text \<open>\<open>session.identifier || session.id.slice(0, 8)\<close>, on every page.\<close>

definition session_label :: "ReplaySession \<Rightarrow> jsstr" where
  "session_label s = str_or (rs_identifier s) (slice0 8 (rs_id s))"

definition trigger_label :: "jsstr \<Rightarrow> jsstr" where
  "trigger_label t = (if t = js ''manual'' then js ''reported'' else t)"

text \<open>An element that is rendered only when its text is not empty.\<close>

definition shown :: "jsstr \<Rightarrow> jsstr option" where
  "shown s = (if s = [] then None else Some s)"

record list_row =
  sr_label :: jsstr
  sr_service :: jsstr
  sr_environment :: "(jsstr \<times> jsstr) option"
  sr_badge :: "(jsstr \<times> jsstr) option"
  sr_url :: "jsstr option"
  sr_duration :: jsstr
  sr_time :: jsstr
  sr_events :: jsstr

definition list_row_of :: "(jsstr \<Rightarrow> jsstr) \<Rightarrow> ReplaySession \<Rightarrow> list_row" where
  "list_row_of formatTime s =
     \<lparr>sr_label = session_label s,
      sr_service = rs_service_name s,
      sr_environment = map_option (\<lambda>e. (e, or_default (ENV_COLORS e) [])) (shown (rs_environment s)),
      sr_badge = (if rs_trigger s \<noteq> [] \<and> rs_trigger s \<noteq> js ''stream''
                  then Some (trigger_label (rs_trigger s),
                    if rs_trigger s = js ''error'' then js ''border-[#f87171]/40 text-[#f87171]''
                    else js ''border-[#f59e0b]/40 text-[#f59e0b]'')
                  else None),
      sr_url = shown (rs_start_url s),
      sr_duration = formatDuration_sessions (rs_duration_ms s),
      sr_time = formatTime (rs_started_at s),
      sr_events = show_int (rs_event_count s) @ js '' events''\<rparr>"

datatype sessions_view = Loading nat | NoSessions bool | Rows "list_row list"

text \<open>Data is what the query returned: the rows of the page and the total.\<close>

definition sessions_list_view ::
    "(jsstr \<Rightarrow> jsstr) \<Rightarrow> bool \<Rightarrow> (ReplaySession list \<times> nat) option \<Rightarrow> sessions_page \<Rightarrow> sessions_view"
where
  "sessions_list_view formatTime isLoading dat p =
     (if isLoading then Loading 5
      else (let rows = (case dat of None \<Rightarrow> [] | Some (ss, _) \<Rightarrow> ss)
            in if rows = [] then NoSessions (hasActiveFilters p) else Rows (map (list_row_of formatTime) rows)))"

definition total_of :: "(ReplaySession list \<times> nat) option \<Rightarrow> nat" where
  "total_of dat = (case dat of None \<Rightarrow> 0 | Some (_, n) \<Rightarrow> n)"

definition sessions_heading :: "nat \<Rightarrow> jsstr option" where
  "sessions_heading tot =
     (if 0 < tot then Some (dec_digits tot @ js '' session'' @ (if tot \<noteq> 1 then js ''s'' else [])) else None)"

record pagination =
  pg_previous_disabled :: bool
  pg_text :: jsstr
  pg_next_disabled :: bool

definition pagination_view :: "nat \<Rightarrow> sessions_page \<Rightarrow> pagination option" where
  "pagination_view tot p =
     (if showPagination tot
      then Some \<lparr>pg_previous_disabled = (page_number p \<le> 1),
             pg_text = show_int (page_number p) @ js '' / '' @ dec_digits (totalPages tot),
             pg_next_disabled = (int (totalPages tot) \<le> page_number p)\<rparr>
      else None)"


section \<open>Pages\<close>

lemma totalPages_exact: "tot < 2 ^ 53 \<Longrightarrow> totalPages tot = (tot + 19) div 20"
  by (simp add: totalPages_def LIMIT_def ceil_quot_exact)

lemma page_number_next: "page_number (nextPage tot p) = min (int (totalPages tot)) (page_number p + 1)"
  by (simp add: page_number_def nextPage_def)

lemma page_number_previous: "page_number (previousPage p) = max 1 (page_number p - 1)"
  by (simp add: page_number_def previousPage_def)

text \<open>Clicking \<open>next\<close> again and again.\<close>

lemma page_number_next_power:
  "page_number p \<le> int (totalPages tot) \<Longrightarrow>
     page_number ((nextPage tot ^^ n) p) = min (int (totalPages tot)) (page_number p + int n)"
  by (induction n) (simp_all add: page_number_next)

text \<open>
  Paging reaches every session. For a list of \<open>tot\<close> sessions, up to 2 to the 53: start on the first
  page and click \<open>next\<close> as often as possible. Every position of the list lies on exactly one
  of the pages passed, the last page is the one announced, and it is not empty.
\<close>

lemma paging_reaches_every_session:
  assumes "tot < 2 ^ 53" and "i < tot" and "page_number p = 1"
  shows "\<exists>!n. n < totalPages tot
    \<and> page_offset ((nextPage tot ^^ n) p) \<le> int i \<and> int i < page_offset ((nextPage tot ^^ n) p) + LIMIT"
proof -
  have tp: "totalPages tot = (tot + 19) div 20" by (rule totalPages_exact [OF assms(1)])
  have pos: "1 \<le> totalPages tot" using assms(2) tp by simp
  have off: "page_offset ((nextPage tot ^^ n) p) = int n * 20" if "n < totalPages tot" for n
    using page_number_next_power [of p tot n] assms(3) pos that by (simp add: page_offset_def LIMIT_def)
  have "(i + 20) div 20 \<le> (tot + 19) div 20" using assms(2) by (intro div_le_mono) simp
  then have bound: "i div 20 < totalPages tot" using tp by simp
  have split: "i = 20 * (i div 20) + i mod 20" "i mod 20 < 20" by simp_all
  show ?thesis
  proof (rule ex1I [of _ "i div 20"])
    show "i div 20 < totalPages tot \<and> page_offset ((nextPage tot ^^ (i div 20)) p) \<le> int i
      \<and> int i < page_offset ((nextPage tot ^^ (i div 20)) p) + LIMIT"
      using bound off [OF bound] split by (simp add: LIMIT_def) linarith
  next
    fix n
    assume n: "n < totalPages tot \<and> page_offset ((nextPage tot ^^ n) p) \<le> int i
      \<and> int i < page_offset ((nextPage tot ^^ n) p) + LIMIT"
    then have "int n * 20 \<le> int i" "int i < int n * 20 + 20" using off [of n] by (simp_all add: LIMIT_def)
    then have "20 * n \<le> i" "i < 20 * Suc n" by simp_all
    then show "n = i div 20" by (simp add: div_nat_eqI)
  qed
qed


section \<open>Using the page\<close>

text \<open>
  What the user can do, with the data shown at that moment: type into the form and submit it
  while it is shown, clear the filters where a button for it is shown, and turn pages while
  there are several, with the arrow that is not disabled.
\<close>

inductive page_step :: "sessions_page \<Rightarrow> sessions_page \<Rightarrow> bool" where
  filters: "page_step p (toggleFilters p)"
| type_identifier: "sp_showFilters p \<Longrightarrow> page_step p (setIdentifier v p)"
| type_service: "sp_showFilters p \<Longrightarrow> page_step p (setServiceName v p)"
| pick_environment: "sp_showFilters p \<Longrightarrow> v = [] \<or> v \<in> set ENVIRONMENTS \<Longrightarrow> page_step p (setEnvironment v p)"
| submit: "sp_showFilters p \<Longrightarrow> page_step p (applyFilters p)"
| clear: "hasActiveFilters p \<Longrightarrow> page_step p (clearFilters p)"
| previous: "pagination_view tot p = Some pg \<Longrightarrow> \<not> pg_previous_disabled pg \<Longrightarrow> page_step p (previousPage p)"
| following: "pagination_view tot p = Some pg \<Longrightarrow> \<not> pg_next_disabled pg \<Longrightarrow> page_step p (nextPage tot p)"

inductive_simps page_step_iff: "page_step p q"

definition page_ok :: "sessions_page \<Rightarrow> bool" where
  "page_ok p \<longleftrightarrow> 1 \<le> page_number p"

lemmas page_op_defs = toggleFilters_def setIdentifier_def setServiceName_def setEnvironment_def
  applyFilters_def clearFilters_def page_number_def

lemma page_step_ok: "page_ok p \<Longrightarrow> page_step p q \<Longrightarrow> page_ok q"
proof -
  assume ok: "page_ok p" and st: "page_step p q"
  from st show "page_ok q"
  proof cases
    case (following tot pg)
    then have "1 < totalPages tot" by (auto simp: pagination_view_def showPagination_def split: if_splits)
    with ok following show ?thesis by (simp add: page_ok_def page_number_next)
  qed (use ok in \<open>simp_all add: page_ok_def page_number_previous\<close>, simp_all add: page_op_defs)
qed

interpretation paging: invariant_system page_ok page_step page_ok
  by unfold_locales (auto intro: page_step_ok)


definition first_page :: sessions_page where
  "first_page = sessions_page_init \<lparr>se_identifier = None, se_service_name = None, se_environment = None, se_page = None\<rparr>"

lemma first_page_number: "page_number first_page = 1"
  by (simp add: first_page_def page_number_def sessions_page_init_def)

lemma next_from_first: "page_step\<^sup>*\<^sup>* first_page (nextPage 41 first_page)"
  using page_step.following [of 41 first_page "the (pagination_view 41 first_page)"]
  by (simp add: pagination_view_def showPagination_def totalPages_exact first_page_number)


end
