(* ===== verification/PagePlayer.thy ===== *)
theory PagePlayer
  imports ReplayMount PageShell PageSessions
begin

text \<open>
  The player page (\<open>routes/app/_layout/sessions_.$id.tsx\<close>): what it shows for each state of its
  two queries, seeking, and its three buttons. Times printed in the user's locale are the
  parameters \<open>formatTime\<close> and \<open>formatClock\<close>; the clipboard accepts a text or refuses it.
\<close>

section \<open>Formatting\<close>

definition formatDuration_player :: "int option \<Rightarrow> jsstr" where
  "formatDuration_player v =
     (case v of
        None \<Rightarrow> [ch_dash]
      | Some ms \<Rightarrow>
          if ms = 0 then [ch_dash]
          else if ms < 1000 then show_int ms @ js ''ms''
          else if ms < 60000 then toFixed1 ms 1000 @ js ''s''
          else
            (let m = floor_quot (nat ms) 60000; s = floor_quot (nat ms mod 60000) 1000
             in dec_digits m @ js ''m '' @ dec_digits s @ js ''s''))"

definition plural :: "nat \<Rightarrow> jsstr \<Rightarrow> jsstr" where
  "plural n word = dec_digits n @ js '' '' @ word @ (if n \<noteq> 1 then js ''s'' else [])"


section \<open>Device metadata\<close>

datatype icon = GlobeIcon | MonitorIcon | TabletIcon | SmartphoneIcon | LanguagesIcon | ClockIcon

definition deviceIcon :: "ReplaySession \<Rightarrow> icon" where
  "deviceIcon s = (if rs_device_type s = js ''mobile'' then SmartphoneIcon
     else if rs_device_type s = js ''tablet'' then TabletIcon else MonitorIcon)"

definition hasMeta :: "ReplaySession \<Rightarrow> bool" where
  "hasMeta s \<longleftrightarrow> rs_browser s \<noteq> [] \<or> rs_os s \<noteq> [] \<or> rs_screen_width s \<noteq> 0 \<or> rs_language s \<noteq> [] \<or> rs_timezone s \<noteq> []"

definition times_sign :: "16 word" where "times_sign = 0xD7"

definition dpr_suffix :: "jsnum \<Rightarrow> jsstr" where
  "dpr_suffix r = (if \<not> num_is_zero r \<and> r \<noteq> JInt 1 then js '' @'' @ num_to_string r @ js ''x'' else [])"

definition device_items :: "ReplaySession \<Rightarrow> (icon \<times> jsstr) list" where
  "device_items s =
     (if rs_browser s \<noteq> []
      then [(GlobeIcon, if rs_browser_version s \<noteq> []
               then rs_browser s @ js '' '' @ hd (split_on 0x2E (rs_browser_version s)) else rs_browser s)] else [])
   @ (if rs_os s \<noteq> [] then [(deviceIcon s, rs_os s)] else [])
   @ (if rs_screen_width s \<noteq> 0 \<and> rs_screen_height s \<noteq> 0
      then [(MonitorIcon, show_int (rs_screen_width s) @ [times_sign] @ show_int (rs_screen_height s)
              @ dpr_suffix (rs_device_pixel_ratio s))] else [])
   @ (if rs_viewport_width s \<noteq> 0 \<and> rs_viewport_height s \<noteq> 0
      then [(TabletIcon, show_int (rs_viewport_width s) @ [times_sign] @ show_int (rs_viewport_height s) @ js '' viewport'')]
      else [])
   @ (if rs_language s \<noteq> [] then [(LanguagesIcon, rs_language s)] else [])
   @ (if rs_timezone s \<noteq> [] then [(ClockIcon, rs_timezone s)] else [])"

definition DeviceMeta :: "ReplaySession \<Rightarrow> (icon \<times> (icon \<times> jsstr) list) option" where
  "DeviceMeta s = (if hasMeta s then Some (deviceIcon s, device_items s) else None)"


section \<open>The console panel and the timeline\<close>

record console_row =
  cr_color :: jsstr
  cr_label :: jsstr
  cr_message :: jsstr
  cr_clock :: jsstr
  cr_seek :: int

record console_panel =
  cp_errors :: "jsstr option"
  cp_warnings :: "jsstr option"
  cp_logs :: jsstr
  cp_rows :: "console_row list"

definition ConsolePanel :: "(int \<Rightarrow> jsstr) \<Rightarrow> TimelineItem list \<Rightarrow> nat \<Rightarrow> nat \<Rightarrow> console_panel" where
  "ConsolePanel formatClock items errors warnings =
     \<lparr>cp_errors = (if 0 < errors then Some (plural errors (js ''error'')) else None),
      cp_warnings = (if 0 < warnings then Some (plural warnings (js ''warn'')) else None),
      cp_logs = plural (length items) (js ''log''),
      cp_rows = map (\<lambda>it. \<lparr>cr_color = km_color (KIND_META (ti_kind it)), cr_label = km_label (KIND_META (ti_kind it)),
         cr_message = ti_message it, cr_clock = formatClock (ti_timestamp it), cr_seek = ti_timestamp it\<rparr>) items\<rparr>"

record timeline_row =
  tr_dot :: jsstr
  tr_color :: jsstr
  tr_label :: jsstr
  tr_message :: jsstr
  tr_offset :: jsstr
  tr_seek :: int

definition timeline_row_of :: "int \<Rightarrow> TimelineItem \<Rightarrow> timeline_row" where
  "timeline_row_of firstTs it =
     \<lparr>tr_dot = km_dot (KIND_META (ti_kind it)), tr_color = km_color (KIND_META (ti_kind it)),
      tr_label = km_label (KIND_META (ti_kind it)), tr_message = ti_message it,
      tr_offset = js ''+'' @ formatDuration_player (Some (ti_timestamp it - firstTs)),
      tr_seek = ti_timestamp it\<rparr>"


section \<open>The page\<close>

type_synonym player_page = "ReplaySession replay_page"

text \<open>\<open>events[0]?.timestamp ?? 0\<close>\<close>

definition firstTs :: "'s replay_page \<Rightarrow> int" where
  "firstTs p = (case page_events p of [] \<Rightarrow> 0 | e # _ \<Rightarrow> re_timestamp e)"

record session_view =
  sv_label :: jsstr
  sv_service :: jsstr
  sv_trigger :: "(jsstr \<times> jsstr) option"
  sv_errors :: "jsstr option"
  sv_environment :: "jsstr option"
  sv_start_url :: "jsstr option"
  sv_times :: jsstr
  sv_device :: "(icon \<times> (icon \<times> jsstr) list) option"
  sv_player :: bool
  sv_console :: console_panel
  sv_timeline :: "timeline_row list"

datatype player_view = PlayerLoading | SessionNotFound | SessionShown session_view

definition trigger_badge :: "jsstr \<Rightarrow> (jsstr \<times> jsstr) option" where
  "trigger_badge t =
     (if t = [] then None
      else Some (trigger_label t,
        if t = js ''error'' then js ''border-[#f87171]/40 text-[#f87171]''
        else if t = js ''manual'' then js ''border-[#f59e0b]/40 text-[#f59e0b]''
        else js ''border-border text-muted-foreground''))"

definition session_view_of ::
    "(jsstr \<Rightarrow> jsstr) \<Rightarrow> (int \<Rightarrow> jsstr) \<Rightarrow> ReplaySession \<Rightarrow> ReplayEvent list \<Rightarrow> int \<Rightarrow> TimelineItem list \<Rightarrow> session_view"
where
  "session_view_of formatTime formatClock s events first tln =
     (let (errors, warnings) = countConsole tln
      in \<lparr>sv_label = session_label s,
          sv_service = rs_service_name s,
          sv_trigger = trigger_badge (rs_trigger s),
          sv_errors = (if 0 < errors then Some (plural errors (js ''error'')) else None),
          sv_environment = shown (rs_environment s),
          sv_start_url = shown (rs_start_url s),
          sv_times = formatDuration_player (rs_duration_ms s) @ js '' '' @ [ch_middot] @ js '' '' @ formatTime (rs_started_at s),
          sv_device = DeviceMeta s,
          sv_player = (events \<noteq> []),
          sv_console = ConsolePanel formatClock (filter (\<lambda>t. is_console_kind (ti_kind t)) tln) errors warnings,
          sv_timeline = map (timeline_row_of first) tln\<rparr>)"

text \<open>The timeline is built before the loading states are looked at, so an exception in it shows in all of them.\<close>

definition PlayerPage :: "(jsstr \<Rightarrow> jsstr) \<Rightarrow> (int \<Rightarrow> jsstr) \<Rightarrow> player_page \<Rightarrow> player_view res" where
  "PlayerPage formatTime formatClock p =
     bindR (buildTimeline (page_events p)) (\<lambda>tln.
       Inr (if page_loading p then PlayerLoading
            else (case qr_data (rp_session p) of
                    None \<Rightarrow> SessionNotFound
                  | Some s \<Rightarrow> SessionShown (session_view_of formatTime formatClock s (page_events p) (firstTs p) tln))))"

text \<open>The states in which the page has the element the player goes into.\<close>

definition player_target :: "player_page \<Rightarrow> bool" where
  "player_target p \<longleftrightarrow> \<not> page_loading p \<and> qr_data (rp_session p) \<noteq> None \<and> page_events p \<noteq> []"

definition player_react ::
    "player_page use_effect \<Rightarrow> int \<Rightarrow> ReplaySession query_result \<times> (nat \<times> ReplayEvent list) query_result
      \<Rightarrow> player_page \<Rightarrow> player_page"
where
  "player_react u = react u player_target 800 440"

text \<open>The offset \<open>seekTo\<close> passes to the player, once one has been created.\<close>

definition seekTo :: "'s replay_page \<Rightarrow> int \<Rightarrow> int option" where
  "seekTo p ts = (if rp_created p then Some (max 0 (ts - firstTs p)) else None)"


section \<open>The buttons\<close>

record clip_button =
  cb_copied :: bool
  cb_timers :: nat

text \<open>A text is copied: the button says so until a timeout fires. A refusal is ignored.\<close>

definition copy_text :: "bool \<Rightarrow> jsstr \<Rightarrow> clip_button \<Rightarrow> clip_button \<times> jsstr option" where
  "copy_text allowed txt b =
     (if allowed then (b\<lparr>cb_copied := True, cb_timers := Suc (cb_timers b)\<rparr>, Some txt) else (b, None))"

definition copied_timeout :: "clip_button \<Rightarrow> clip_button" where
  "copied_timeout b = (if cb_timers b = 0 then b else b\<lparr>cb_copied := False, cb_timers := cb_timers b - 1\<rparr>)"

text \<open>The report is built outside the \<open>try\<close>: an exception in it is not caught.\<close>

definition handleCopy ::
    "(jsstr \<Rightarrow> int option) \<Rightarrow> bool \<Rightarrow> ReplaySession \<Rightarrow> ReplayEvent list \<Rightarrow> clip_button \<Rightarrow> (clip_button \<times> jsstr option) res"
where
  "handleCopy engine allowed s events b =
     bindR (buildIncidentReport engine s events) (\<lambda>report. Inr (copy_text allowed report b))"

definition copy_label :: "clip_button \<Rightarrow> jsstr" where
  "copy_label b = (if cb_copied b then js ''Copied'' else js ''Copy for AI'')"

definition share_link :: "jsstr \<Rightarrow> jsval \<Rightarrow> jsstr res" where
  "share_link origin token = bindR (js_String token) (\<lambda>t. Inr (origin @ js ''/share/'' @ t))"

definition handleShare ::
    "jsstr option \<Rightarrow> backend \<Rightarrow> jsstr \<Rightarrow> bool \<Rightarrow> jsstr \<Rightarrow> clip_button \<Rightarrow> dash \<Rightarrow> dash \<times> clip_button \<times> jsstr option"
where
  "handleShare api srv origin allowed i b d =
     (case mutation_fn api srv (CreateShareLink i) d of
        (d', r) \<Rightarrow>
          (case bindR r (share_link origin) of
             Inl e \<Rightarrow> (d', b, None)
           | Inr url \<Rightarrow> (d', copy_text allowed url b)))"

definition share_label :: "bool \<Rightarrow> clip_button \<Rightarrow> jsstr" where
  "share_label isPending b =
     (if cb_copied b then js ''Link copied'' else if isPending then js ''Generating'' @ [ch_ellipsis] else js ''Share replay'')"

text \<open>Deleting asks first; only a successful call leaves the page. The last component is the request sent, if any.\<close>

definition handleDelete :: "jsstr option \<Rightarrow> backend \<Rightarrow> bool \<Rightarrow> jsstr \<Rightarrow> dash \<Rightarrow> dash \<times> mutation option \<times> route option" where
  "handleDelete api srv confirmed i d =
     (if \<not> confirmed then (d, None, None)
      else (case mutation_fn api srv (DeleteSession i) d of
              (d', Inl e) \<Rightarrow> (d', Some (DeleteSession i), None)
            | (d', Inr _) \<Rightarrow> (d', Some (DeleteSession i), Some SessionsRoute)))"

definition delete_label :: "bool \<Rightarrow> jsstr" where
  "delete_label isPending = (if isPending then js ''Deleting'' @ [ch_ellipsis] else js ''Delete'')"


section \<open>The player and the queries\<close>

interpretation player: replay_host player_target 800 440
  by unfold_locales (auto simp: player_target_def page_loading_def page_events_def)

text \<open>
  Property C21 (the player shows the session's events). Let \<open>useEffect\<close> keep its contract. Whatever
  results the two queries give from render to render, in whatever order they answer, fail, refetch
  or start again for another session: a player that is there plays exactly the events the page holds at that moment.
\<close>

theorem player_never_stale:
  assumes "effect_contract u" and "(host_step arr u player_target 800 440)\<^sup>*\<^sup>* replay_page_init p"
    and "rp_player p = Some pl"
  shows "py_events pl = page_events p \<and> page_events p \<noteq> []"
  using player.reachable_plays [OF assms(1,2)] assms(3) by (auto simp: host_inv_def plays_def)

text \<open>A function that keeps the contract.\<close>

definition plain_effect :: "'p use_effect" where
  "plain_effect old new cleanup body p = (if new \<noteq> None \<and> new = old then p else body (cleanup p))"

lemma plain_effect_contract: "effect_contract plain_effect"
  by (simp add: effect_contract_def plain_effect_def)

lemma player_target_done:
  "es \<noteq> [] \<Longrightarrow> rp_session p = query_done s \<Longrightarrow> rp_events p = query_done (r, es) \<Longrightarrow> player_target p"
  by (simp add: player_target_def page_loading_def page_events_def query_done_def)

text \<open>
  Property C22 (no player when the events come first). Let \<open>useEffect\<close> keep its contract. When the
  session's answer arrives before its events, the player is created with them. When the
  events arrive first, the effect runs while the page still shows its loading state, finds
  no element, and does not run again when the session arrives: the page then shows the
  place of the player and no player, and no later render with the same array brings it.
\<close>

theorem events_before_session_no_player:
  assumes "effect_contract u" and "es \<noteq> []"
  shows "plays (fold (player_react u w) [(query_done s, query_pending), (query_done s, query_done (r, es))] replay_page_init) es
    \<and> (let p = fold (player_react u w) [(query_pending, query_done (r, es)), (query_done s, query_done (r, es))] replay_page_init in
        player_target p
        \<and> (\<forall>results. (\<forall>x\<in>set results. map_option fst (qr_data (snd x)) = Some r) \<longrightarrow>
             rp_player (fold (player_react u w) results p) = None))"
proof -
  let ?p = "fold (player_react u w) [(query_pending, query_done (r, es)), (query_done s, query_done (r, es))] replay_page_init"
  have "player_target ?p"
    by (rule player_target_done [OF assms(2)]) (simp_all add: player_react_def player.react_queries [OF assms(1)])
  moreover have "rp_player (fold (player_react u w) results ?p) = None"
    if "\<forall>x\<in>set results. map_option fst (qr_data (snd x)) = Some r" for results
    using player.events_first_no_player [OF assms(1), of "(query_done s, query_done (r, es)) # results" r w es] that
    by (simp add: player_react_def query_done_def)
  moreover have "plays (fold (player_react u w)
      [(query_done s, query_pending), (query_done s, query_done (r, es))] replay_page_init) es"
    unfolding player_react_def
    by (rule player.session_first_plays [OF assms(1)]) (rule player_target_done [OF assms(2)])
  ultimately show ?thesis unfolding Let_def by blast
qed

theorem events_before_session_no_player_witness:
  "rp_player (fold (player_react plain_effect 640)
       [(query_pending, query_done (7, demo_events)), (query_done demo_session_row, query_done (7, demo_events))] replay_page_init) = None"
proof -
  have "demo_events \<noteq> []" by (simp add: demo_events_def)
  from events_before_session_no_player [OF plain_effect_contract this, of 640 demo_session_row 7,
      THEN conjunct2, unfolded Let_def, THEN conjunct2, THEN spec, of "[]"]
  show ?thesis by simp
qed

theorem player_never_stale_witness:
  "\<exists>p pl. (host_step (\<lambda>_. demo_events) plain_effect player_target 800 440)\<^sup>*\<^sup>* replay_page_init p
     \<and> rp_player p = Some pl \<and> py_events pl = page_events p"
proof -
  let ?step = "host_step (\<lambda>_. demo_events) plain_effect player_target 800 440"
  let ?p = "player_react plain_effect 640 (query_done demo_session_row, query_done (7, demo_events)) replay_page_init"
  have "?step replay_page_init ?p"
    unfolding player_react_def by (rule host_step.intros) (simp add: arrays_ok_def query_done_def)
  then have s: "?step\<^sup>*\<^sup>* replay_page_init ?p" by simp
  have "rp_player ?p \<noteq> None"
    by (simp add: player_react_def react_def run_effect_def plain_effect_def effect_body_def effect_cleanup_def
        player_target_def page_loading_def page_events_def replay_page_init_def query_done_def query_pending_def
        events_ref_def demo_events_def)
  then obtain pl where "rp_player ?p = Some pl" by auto
  with player_never_stale [OF plain_effect_contract s this] s show ?thesis by blast
qed


section \<open>Seeking and the buttons\<close>

text \<open>
  Property C29 (seeking). When the events are in the order of their timestamps, clicking an item of the
  timeline moves the player to the offset of the event the item was made from, which lies
  within the recording; the offset printed beside an item of the first instant is a dash.
\<close>

theorem seek_hits_the_event:
  assumes "buildTimeline (page_events p) = Inr tln" and "it \<in> set tln" and "rp_created p"
    and "sorted (map re_timestamp (page_events p))"
  shows "\<exists>i < length (page_events p). i = ti_eventIndex it
    \<and> seekTo p (tr_seek (timeline_row_of (firstTs p) it))
        = Some (re_timestamp (page_events p ! i) - re_timestamp (hd (page_events p)))
    \<and> 0 \<le> re_timestamp (page_events p ! i) - re_timestamp (hd (page_events p))
    \<and> re_timestamp (page_events p ! i) \<le> re_timestamp (last (page_events p))
    \<and> (ti_timestamp it = firstTs p \<longrightarrow> tr_offset (timeline_row_of (firstTs p) it) = js ''+'' @ [ch_dash])"
proof -
  let ?es = "page_events p" and ?i = "ti_eventIndex it"
  have i: "?i < length ?es" "ti_timestamp it = re_timestamp (?es ! ?i)"
    using timeline_items_located [OF assms(1,2)] by simp_all
  then have ne: "?es \<noteq> []" by auto
  have mono: "re_timestamp (?es ! j) \<le> re_timestamp (?es ! k)" if "j \<le> k" "k < length ?es" for j k
    using sorted_nth_mono [OF assms(4) that(1)] that by simp
  have hd: "firstTs p = re_timestamp (hd ?es)" "hd ?es = ?es ! 0" "last ?es = ?es ! (length ?es - 1)"
    using ne by (simp_all add: firstTs_def hd_conv_nth last_conv_nth split: list.split)
  have "re_timestamp (?es ! 0) \<le> re_timestamp (?es ! ?i)" "re_timestamp (?es ! ?i) \<le> re_timestamp (?es ! (length ?es - 1))"
    using i(1) by (auto intro!: mono)
  with i hd assms(3) show ?thesis
    by (auto simp: seekTo_def timeline_row_of_def formatDuration_player_def intro!: exI [of _ ?i])
qed

definition demo_visit :: "ReplayEvent list" where
  "demo_visit = [demo_replay 4 (JObj [(js ''href'', jstr ''/cart'')]) 1000]"

lemma demo_visit_timeline:
  "buildTimeline demo_visit = Inr [\<lparr>ti_eventIndex = 0, ti_kind = KNavigate, ti_message = js ''/cart'', ti_timestamp = 1000\<rparr>]"
  by (simp add: demo_visit_def demo_replay_def buildTimeline_def indexNodes_def index_event_def event_items_def
      is_console_event_def event_codes js_opt_get_def)

theorem seek_hits_the_event_witness:
  "\<exists>i < length demo_visit.
     seekTo (replay_page_init\<lparr>rp_events := query_done (0, demo_visit), rp_created := True\<rparr> :: player_page) 1000
       = Some (re_timestamp (demo_visit ! i) - re_timestamp (hd demo_visit))"
proof -
  let ?p = "replay_page_init\<lparr>rp_events := query_done (0, demo_visit), rp_created := True\<rparr> :: player_page"
  let ?it = "\<lparr>ti_eventIndex = 0, ti_kind = KNavigate, ti_message = js ''/cart'', ti_timestamp = 1000\<rparr>"
  have e: "page_events ?p = demo_visit" by (simp add: page_events_def query_done_def)
  have t: "buildTimeline (page_events ?p) = Inr [?it]" using demo_visit_timeline e by simp
  have s: "sorted (map re_timestamp (page_events ?p))" unfolding e by (simp add: demo_visit_def)
  have m: "?it \<in> set [?it]" "rp_created ?p" by simp_all
  from seek_hits_the_event [OF t m s] show ?thesis by (auto simp: e timeline_row_of_def)
qed

text \<open>
  Without the user's confirmation nothing is sent and the page stays. With it, the
  request is a \<open>DELETE\<close> of that session with the stored token, and the list of sessions is
  opened exactly if the server answers with success; on a network error or another answer the
  page stays, and only a 401 ends the login.
\<close>

lemma delete_only_when_confirmed:
  assumes "st_available (d_store d)" and "st_items (d_store d) TOKEN_KEY = Some tok" and "tok \<noteq> []"
    and "rq = (DELETE (or_default api [] @ js ''/v1/sessions/'' @ i))\<lparr>req_headers := [(js ''Authorization'', js ''Bearer '' @ tok)]\<rparr>"
  shows "handleDelete api srv False i d = (d, None, None)
    \<and> (case srv rq of
         Inl e \<Rightarrow> handleDelete api srv True i d = (d, Some (DeleteSession i), None)
       | Inr r \<Rightarrow>
           if 200 \<le> rsp_status r \<and> rsp_status r \<le> 299
           then handleDelete api srv True i d = (d, Some (DeleteSession i), Some SessionsRoute)
           else \<exists>d'. handleDelete api srv True i d = (d', Some (DeleteSession i), None) \<and> (rsp_status r \<noteq> 401 \<longrightarrow> d' = d))"
proof -
  have h: "req_headers (DELETE (api_base api @ js ''/v1/sessions/'' @ i)) = []" by (simp add: DELETE_def GET_def)
  from fetchWithAuth_token [OF assms(1-3) h, of srv] show ?thesis
    by (auto simp: handleDelete_def deleteSession_def ok_or_def rsp_ok_def assms(4) api_base_def split: sum.split)
qed

end
