(* ===== verification/ServerHttp.thy ===== *)
theory ServerHttp
  imports ServerReader PagePlayer
begin

text \<open>
  The dashboard's requests at the reader's endpoints: which handler an address reaches, what the
  handler reads from a query string, and that the answers are read back by the dashboard as they were meant.
\<close>

section \<open>Plain addresses\<close>

text \<open>Identifiers and tokens that stand in a path as they are, such as UUIDs.\<close>

definition seg_plain :: "jsstr \<Rightarrow> bool" where
  "seg_plain s \<longleftrightarrow> s \<noteq> [] \<and> list_all (\<lambda>c. form_safe (unat c) \<and> c \<noteq> 0x2A \<and> c \<noteq> 0x2E) s"

definition ascii :: "jsstr \<Rightarrow> bool" where
  "ascii s \<longleftrightarrow> list_all (\<lambda>c. unat c < 0x80) s"

lemma ascii_simps [simp]: "ascii []" "ascii (c # s) \<longleftrightarrow> unat c < 0x80 \<and> ascii s" "ascii (s @ t) \<longleftrightarrow> ascii s \<and> ascii t"
  by (simp_all add: ascii_def)

lemma unit_bytes_ascii: "unat c < 0x80 \<Longrightarrow> unit_bytes c = [unat c]"
  by (auto simp: unit_bytes_def is_high_def is_low_def word_le_nat_alt)

lemma ascii_no_surrogate: "unat c < 0x80 \<Longrightarrow> \<not> is_high c \<and> \<not> is_low c"
  by (auto simp: is_high_def is_low_def word_le_nat_alt)

lemma utf8_bytes_ascii: "ascii s \<Longrightarrow> utf8_bytes s = map unat s"
  by (induction s rule: utf8_bytes.induct) (auto simp: unit_bytes_ascii ascii_no_surrogate)

lemma go_text_ascii: "ascii s \<Longrightarrow> go_text s = s"
  by (induction s rule: go_text.induct) (auto simp: ascii_no_surrogate)

lemma utf8_ascii: "ascii s \<Longrightarrow> utf8 s = s"
  by (simp add: utf8_def utf8_bytes_ascii o_def)

lemma go_decode_ascii: "ascii s \<Longrightarrow> go_decode (map unat s) = s"
  using go_decode_utf8 [of s] by (simp add: utf8_bytes_ascii go_text_ascii)

lemma go_unescape_ascii:
  "ascii s \<Longrightarrow> 0x25 \<notin> set s \<Longrightarrow> form \<longrightarrow> 0x2B \<notin> set s \<Longrightarrow> go_unescape form s = Some (map unat s)"
  by (induction s) (auto simp: unit_bytes_ascii)

lemma form_safe_unit:
  assumes "form_safe (unat (c :: 16 word))"
  shows "unat c < 0x80 \<and> c \<noteq> 0x25 \<and> c \<noteq> 0x2F \<and> c \<noteq> 0x3F \<and> c \<noteq> 0x26"
proof -
  have "n < 0x80 \<and> n \<noteq> 0x25 \<and> n \<noteq> 0x2F \<and> n \<noteq> 0x3F \<and> n \<noteq> 0x26" if "form_safe n" for n
    using that unfolding form_safe_def by linarith
  from this [OF assms] show ?thesis by auto
qed

lemma seg_plain_facts:
  assumes "seg_plain s"
  shows "s \<noteq> []" "ascii s" "0x25 \<notin> set s" "0x2F \<notin> set s" "0x3F \<notin> set s" "0x26 \<notin> set s"
proof -
  have "\<forall>c\<in>set s. unat c < 0x80 \<and> c \<noteq> 0x25 \<and> c \<noteq> 0x2F \<and> c \<noteq> 0x3F \<and> c \<noteq> 0x26"
    using assms form_safe_unit unfolding seg_plain_def list_all_iff by blast
  then show "ascii s" "0x25 \<notin> set s" "0x2F \<notin> set s" "0x3F \<notin> set s" "0x26 \<notin> set s"
    unfolding ascii_def list_all_iff by blast+
  show "s \<noteq> []" using assms by (simp add: seg_plain_def)
qed

lemma seg_plain_text: "seg_plain s \<Longrightarrow> go_text s = s"
  by (simp add: go_text_ascii seg_plain_facts)


section \<open>Which handler is reached\<close>

lemma path_texts:
  "js ''/v1/public/sessions/'' = 0x2F # js ''v1'' @ 0x2F # js ''public'' @ 0x2F # js ''sessions'' @ [0x2F]"
  "js ''/v1/sessions/'' = 0x2F # js ''v1'' @ 0x2F # js ''sessions'' @ [0x2F]"
  "js ''/v1/sessions?'' = 0x2F # js ''v1'' @ 0x2F # js ''sessions'' @ [0x3F]"
  "js ''/events'' = 0x2F # js ''events''" "js ''/share'' = 0x2F # js ''share''"
  by (simp_all add: js_eval)

lemma segment_texts:
  "ascii (js ''v1'')" "ascii (js ''public'')" "ascii (js ''sessions'')" "ascii (js ''events'')" "ascii (js ''share'')"
  "{0x25, 0x2F, 0x3F} \<inter> set (js ''v1'') = {}" "{0x25, 0x2F, 0x3F} \<inter> set (js ''public'') = {}"
  "{0x25, 0x2F, 0x3F} \<inter> set (js ''sessions'') = {}" "{0x25, 0x2F, 0x3F} \<inter> set (js ''events'') = {}"
  "{0x25, 0x2F, 0x3F} \<inter> set (js ''share'') = {}"
  by (simp_all add: js_eval)

text \<open>A path of plain segments, and a query after it.\<close>

definition path_of :: "jsstr list \<Rightarrow> jsstr" where
  "path_of segs = concat (map (\<lambda>s. 0x2F # s) segs)"

definition seg_ok :: "jsstr \<Rightarrow> bool" where
  "seg_ok s \<longleftrightarrow> ascii s \<and> {0x25, 0x2F, 0x3F} \<inter> set s = {}"

lemma seg_ok_texts:
  "seg_ok (js ''v1'')" "seg_ok (js ''public'')" "seg_ok (js ''sessions'')" "seg_ok (js ''events'')" "seg_ok (js ''share'')"
  using segment_texts by (simp_all add: seg_ok_def)

lemma seg_plain_ok: "seg_plain s \<Longrightarrow> seg_ok s"
  using seg_plain_facts [of s] by (simp add: seg_ok_def)

lemma split_path_tail:
  "\<forall>s\<in>set segs. seg_ok s \<Longrightarrow> 0x2F \<notin> set a \<Longrightarrow> split_on 0x2F (a @ path_of segs) = a # segs"
proof (induction segs arbitrary: a)
  case Nil
  then show ?case by (simp add: path_of_def split_on_no_sep)
next
  case (Cons s segs)
  then have "split_on 0x2F (s @ path_of segs) = s # segs" by (simp add: seg_ok_def)
  with Cons.prems(2) show ?case by (simp add: path_of_def split_on_append)
qed

lemma path_plain:
  "\<forall>s\<in>set segs. seg_ok s \<Longrightarrow> ascii (path_of segs) \<and> 0x25 \<notin> set (path_of segs) \<and> 0x3F \<notin> set (path_of segs)"
  by (induction segs) (auto simp: path_of_def seg_ok_def)

lemma serve_path:
  assumes "\<forall>s\<in>set (v # rest). seg_ok s" and "req_url rq = path_of (v # rest) @ qs" and "qs = [] \<or> hd qs = 0x3F"
  shows "reader_serve rd rq sv =
    (if v \<noteq> js ''v1'' then (sv, not_found)
     else if rest \<noteq> [] \<and> hd rest = js ''public''
     then (case RegisterPublicRoutes (req_method rq) (tl rest) of
             None \<Rightarrow> (sv, not_found) | Some ep \<Rightarrow> handle rd (go_values (drop 1 qs)) ep sv)
     else (case RegisterRoutes (req_method rq) rest of
             None \<Rightarrow> (sv, not_found) | Some ep \<Rightarrow> JWTMiddleware rd rq (handle rd (go_values (drop 1 qs)) ep) sv))"
proof -
  note p = path_plain [OF assms(1)]
  have "takeWhile (\<lambda>c. c \<noteq> 0x3F) (req_url rq) = path_of (v # rest)
    \<and> dropWhile (\<lambda>c. c \<noteq> 0x3F) (req_url rq) = qs"
    using p assms(2,3) by (cases qs) (auto simp: takeWhile_append dropWhile_append takeWhile_eq_all_conv)
  moreover have "go_unescape False (path_of (v # rest)) = Some (map unat (path_of (v # rest)))"
    using p by (simp add: go_unescape_ascii)
  moreover have "go_decode (map unat (path_of (v # rest))) = path_of (v # rest)"
    using p by (simp add: go_decode_ascii)
  moreover have "split_on 0x2F (path_of (v # rest)) = [] # v # rest"
    using split_path_tail [OF assms(1), of "[]"] by simp
  ultimately show ?thesis by (simp add: reader_serve_def Let_def One_nat_def [symmetric] del: One_nat_def)
qed

lemma serve_public_session:
  "seg_plain t \<Longrightarrow> reader_serve rd (GET (js ''/v1/public/sessions/'' @ t)) sv = reader_GetPublicSession rd t sv"
  using serve_path [of "js ''v1''" "[js ''public'', js ''sessions'', t]" "GET (js ''/v1/public/sessions/'' @ t)" "[]" rd sv]
    seg_ok_texts seg_plain_ok [of t] seg_plain_facts(1) [of t]
  by (simp add: path_texts path_of_def GET_def RegisterPublicRoutes_def)

lemma serve_public_events:
  "seg_plain t \<Longrightarrow> reader_serve rd (GET (js ''/v1/public/sessions/'' @ t @ js ''/events'')) sv = reader_GetPublicEvents rd t sv"
  using serve_path [of "js ''v1''" "[js ''public'', js ''sessions'', t, js ''events'']"
      "GET (js ''/v1/public/sessions/'' @ t @ js ''/events'')" "[]" rd sv]
    seg_ok_texts seg_plain_ok [of t] seg_plain_facts(1) [of t]
  by (simp add: path_texts path_of_def GET_def RegisterPublicRoutes_def)

lemma handle_funs: "handle rd vs (DeleteEP i) = reader_Delete rd i" "handle rd vs ListEP = reader_List rd vs"
  by (simp_all add: fun_eq_iff)

lemma serve_delete:
  assumes "seg_plain i" and "rq = (DELETE (js ''/v1/sessions/'' @ i))\<lparr>req_headers := hs\<rparr>"
  shows "reader_serve rd rq sv = JWTMiddleware rd rq (reader_Delete rd i) sv"
  using serve_path [of "js ''v1''" "[js ''sessions'', i]" rq "[]" rd sv]
    seg_ok_texts seg_plain_ok [OF assms(1)] seg_plain_facts(1) [OF assms(1)]
  by (simp add: assms(2) path_texts path_of_def GET_def DELETE_def RegisterRoutes_def handle_funs)

lemma serve_list:
  assumes "rq = (GET (js ''/v1/sessions?'' @ qs))\<lparr>req_headers := hs\<rparr>"
  shows "reader_serve rd rq sv = JWTMiddleware rd rq (reader_List rd (go_values qs)) sv"
  using serve_path [of "js ''v1''" "[js ''sessions'']" rq "0x3F # qs" rd sv] seg_ok_texts
  by (simp add: assms path_texts path_of_def GET_def RegisterRoutes_def handle_funs)


section \<open>Query strings\<close>

lemma hex_val_upper: "d < 16 \<Longrightarrow> hex_val (of_nat (hex_upper d)) = Some d"
proof -
  assume "d < 16"
  then have "d \<in> set [0..<16]" by simp
  moreover have "list_all (\<lambda>d. hex_val (of_nat (hex_upper d)) = Some d) [0..<16]" by code_simp
  ultimately show ?thesis by (simp add: list_all_iff)
qed

lemma append_one: "(@) [x] = (#) x"
  by (rule ext) simp

lemma go_unescape_byte:
  assumes "b < 256"
  shows "go_unescape True (map of_nat (form_byte b) @ r) = map_option (Cons b) (go_unescape True r)"
proof -
  have u: "unat (of_nat b :: 16 word) = b" using assms by (intro unat_unit) simp
  show ?thesis
  proof (cases "b = 0x20 \<or> \<not> form_safe b")
    case True
    have "b div 16 < 16" "b mod 16 < 16" using assms by auto
    from hex_val_upper [OF this(1)] hex_val_upper [OF this(2)] True show ?thesis
      by (cases "b = 0x20") (auto simp: form_byte_def append_one split: option.split)
  next
    case False
    then have b: "b \<noteq> 0x2B" "b \<noteq> 0x25" "b < 0x80" by (auto simp: form_safe_def)
    then have "(of_nat b :: 16 word) \<noteq> 0x2B" "(of_nat b :: 16 word) \<noteq> 0x25" using u by auto
    moreover have "unit_bytes (of_nat b) = [b]" using unit_bytes_ascii [of "of_nat b"] u b(3) by simp
    ultimately show ?thesis using False by (simp add: form_byte_def append_one)
  qed
qed

lemma go_unescape_form: "go_unescape True (map of_nat (form_encode s)) = Some (utf8_bytes s)"
proof -
  have "\<forall>b\<in>set bs. b < 256 \<Longrightarrow> go_unescape True (map of_nat (concat (map form_byte bs))) = Some bs" for bs
    by (induction bs) (simp_all add: go_unescape_byte)
  with utf8_bytes_range show ?thesis by (simp add: form_encode_def)
qed

lemma form_encode_no_semicolon: "(0x3B :: 16 word) \<notin> set (map of_nat (form_encode s))"
proof -
  have hex: "hex_upper d \<noteq> 0x3B" if "d < 16" for d using that by (simp add: hex_upper_def)
  have "c \<noteq> 0x3B" if "b < 256" "c \<in> set (form_byte b)" for b c
  proof -
    have "b div 16 < 16" "b mod 16 < 16" using that(1) by auto
    from hex [OF this(1)] hex [OF this(2)] that(2) show ?thesis
      by (auto simp: form_byte_def form_safe_def split: if_splits)
  qed
  then have "c \<noteq> 0x3B" if "c \<in> set (form_encode s)" for c
    using that utf8_bytes_range [of s] by (auto simp: form_encode_def)
  moreover have "c < 128" if "c \<in> set (form_encode s)" for c using form_encode_plain [OF that] by simp
  ultimately have "(of_nat c :: 16 word) \<noteq> 0x3B" if "c \<in> set (form_encode s)" for c
    using that unat_unit [of c] by fastforce
  then show ?thesis by auto
qed

lemma go_pair_string: "go_pair (pair_string kv) = [(utf8 (fst kv), utf8 (snd kv))]"
proof -
  let ?k = "map of_nat (form_encode (fst kv)) :: jsstr" and ?v = "map of_nat (form_encode (snd kv)) :: jsstr"
  have "0x3B \<notin> set (pair_string kv)"
    using form_encode_no_semicolon [of "fst kv"] form_encode_no_semicolon [of "snd kv"] by (simp add: pair_string_def)
  moreover have "takeWhile (\<lambda>c. c \<noteq> 0x3D) (pair_string kv) = ?k" "dropWhile (\<lambda>c. c \<noteq> 0x3D) (pair_string kv) = 0x3D # ?v"
    using form_encode_units(2) [of "fst kv"]
    by (auto simp: pair_string_def takeWhile_append dropWhile_append takeWhile_eq_all_conv simp del: set_map)
  ultimately show ?thesis
    by (simp add: go_pair_def go_unescape_form utf8_def pair_string_def)
qed

text \<open>What the dashboard writes into an address is what the handler reads from it.\<close>

lemma go_values_query: "go_values (query_string ps) = map (\<lambda>kv. (utf8 (fst kv), utf8 (snd kv))) ps"
proof (cases "ps = []")
  case True
  then show ?thesis by (simp add: query_string_join go_values_def go_pair_def)
next
  case False
  have "(0x26 :: 16 word) \<notin> set (pair_string kv)" for kv
    using form_encode_units(1) by (simp add: pair_string_def)
  then have "split_on 0x26 (join [0x26] (map pair_string ps)) = map pair_string ps"
    using False by (intro split_on_join) auto
  then show ?thesis by (simp add: query_string_join go_values_def o_def go_pair_string concat_map_singleton)
qed

lemma go_atoi_show:
  assumes "0 \<le> n" and "n < 2 ^ 63"
  shows "go_atoi (show_int n) = Some n"
proof -
  let ?ds = "dec_digits (nat n)"
  obtain c r where ds: "?ds = c # r" by (cases ?ds) simp_all
  have all: "list_all is_digit ?ds" using dec_digits_all by (auto simp: list_all_iff)
  then have "is_digit c" by (simp add: ds)
  then have "c \<noteq> 0x2D" "c \<noteq> 0x2B" by (auto simp: is_digit_def word_le_nat_alt)
  with assms all show ?thesis by (simp add: go_atoi_def show_int_def Let_def ds) (simp flip: ds)
qed

lemma filter_keys:
  "utf8 (js ''identifier'') = js ''identifier''" "utf8 (js ''service_name'') = js ''service_name''"
  "utf8 (js ''environment'') = js ''environment''" "utf8 (js ''start_date'') = js ''start_date''"
  "utf8 (js ''end_date'') = js ''end_date''" "utf8 (js ''limit'') = js ''limit''" "utf8 (js ''offset'') = js ''offset''"
  by (simp_all add: utf8_ascii js_eval)

lemma utf8_show_int: "utf8 (show_int n) = show_int n"
proof (rule utf8_ascii)
  have "ascii (dec_digits k)" for k
    using dec_digits_all [of _ k] by (fastforce simp: ascii_def list_all_iff is_digit_def word_le_nat_alt)
  then show "ascii (show_int n)" by (simp add: show_int_def)
qed

lemma utf8_Nil [simp]: "utf8 s = [] \<longleftrightarrow> s = []"
  by (cases s rule: utf8_bytes.cases) (auto simp: utf8_def unit_bytes_def pair_bytes_def Let_def)

definition read_pair :: "jsstr \<times> jsstr \<Rightarrow> gobytes \<times> gobytes" where
  "read_pair kv = (utf8 (fst kv), utf8 (snd kv))"

lemma str_param_read:
  "utf8 (js k) = js k \<Longrightarrow> map_of (map read_pair (str_param k v)) x
     = (if x = js k \<and> or_default v [] \<noteq> [] then Some (utf8 (or_default v [])) else None)"
  by (cases v) (auto simp: str_param_def read_pair_def or_default_def)

lemma int_param_read:
  "utf8 (js k) = js k \<Longrightarrow> map_of (map read_pair (int_param k (Some n))) x
     = (if x = js k \<and> n \<noteq> 0 then Some (show_int n) else None)"
  by (auto simp: int_param_def read_pair_def utf8_show_int)

lemmas params_read = filter_keys [THEN str_param_read] filter_keys(6,7) [THEN int_param_read]

lemma utf8_empty [simp]: "utf8 [] = []"
  by (simp add: utf8_def)

text \<open>The filter the handler reads from the address of a page of the list.\<close>

lemma page_filter_read:
  assumes "page_query p = SessionsQuery f" and "0 \<le> page_offset p" and "page_offset p < 2 ^ 63"
  shows "list_filter (go_values (query_string (session_params f))) =
    \<lparr>lf_identifier = utf8 (or_default (se_identifier (sp_search p)) []),
     lf_service_name = utf8 (or_default (se_service_name (sp_search p)) []),
     lf_environment = utf8 (or_default (se_environment (sp_search p)) []),
     lf_start_date = None, lf_end_date = None, lf_limit = 20, lf_offset = page_offset p\<rparr>"
proof -
  define vs where "vs = go_values (query_string (session_params f))"
  have f: "f = \<lparr>sf_identifier = se_identifier (sp_search p), sf_service_name = se_service_name (sp_search p),
       sf_environment = se_environment (sp_search p), sf_start_date = None, sf_end_date = None,
       sf_limit = Some 20, sf_offset = Some (page_offset p)\<rparr>"
    using assms(1) by (simp add: page_query_def LIMIT_def)
  have vs: "vs = map read_pair (session_params f)" by (simp add: vs_def go_values_query read_pair_def [abs_def])
  have "map_of vs = map_of (map read_pair (int_param ''offset'' (Some (page_offset p))))
      ++ map_of (map read_pair (int_param ''limit'' (Some 20)))
      ++ map_of (map read_pair (str_param ''environment'' (se_environment (sp_search p))))
      ++ map_of (map read_pair (str_param ''service_name'' (se_service_name (sp_search p))))
      ++ map_of (map read_pair (str_param ''identifier'' (se_identifier (sp_search p))))"
    by (simp add: vs f session_params_def map_add_assoc) (simp add: str_param_def)
  note q = this
  have "Query vs ''identifier'' = utf8 (or_default (se_identifier (sp_search p)) [])"
    "Query vs ''service_name'' = utf8 (or_default (se_service_name (sp_search p)) [])"
    "Query vs ''environment'' = utf8 (or_default (se_environment (sp_search p)) [])"
    "Query vs ''start_date'' = []" "Query vs ''end_date'' = []"
    "Query vs ''limit'' = show_int 20"
    "Query vs ''offset'' = (if page_offset p = 0 then [] else show_int (page_offset p))"
    using q by (auto simp: Query_def map_add_def params_read split: option.splits)
  then show ?thesis
    using assms(2,3) unfolding vs_def [symmetric] by (simp add: list_filter_def Let_def go_atoi_show)
qed

end
