(* ===== verification/ServerAnswers.thy ===== *)
theory ServerAnswers
  imports ServerHttp
begin

text \<open>
  The answers of the reader as the dashboard reads them: the JSON of rows is carried unchanged, and the
  dashboard's queries and mutations, run against the reader, give what the tables hold.
\<close>

section \<open>Rows that JSON carries\<close>

lemma jint_ok [simp]: "json_ok (jint n) \<longleftrightarrow> \<bar>n\<bar> < 10 ^ 21"
  by simp

lemma int64_plain: "int64 n \<Longrightarrow> \<bar>n\<bar> < 10 ^ 21"
  by (auto simp: int64_def)

definition row_fits :: "session_row \<Rightarrow> bool" where
  "row_fits r \<longleftrightarrow> list_all int64 [s_event_count r, s_screen_width r, s_screen_height r, s_viewport_width r, s_viewport_height r]
     \<and> pred_option int64 (s_duration_ms r) \<and> num_plain (s_device_pixel_ratio r)
     \<and> list_all text_ok [s_identifier r, s_service_name r, s_environment r]"

lemma clean_str [simp]: "clean (time_json rd t) = time_json rd t" "clean (bytes_json b) = bytes_json b"
  "json_ok (time_json rd t)" "json_ok (bytes_json b)" "time_json rd t \<noteq> JUndef" "bytes_json b \<noteq> JUndef"
  by (simp_all add: time_json_def bytes_json_def)

lemma json_ok_row: "row_fits r \<Longrightarrow> json_ok (clean (row_json rd r))"
  unfolding row_json_def
  by (rule json_ok_clean_obj)
     (use int64_plain in \<open>auto simp: row_fits_def ptr_json_def omit_json_def split: option.splits\<close>)

lemma json_ok_event_row:
  "event_ok (raw_event e) \<Longrightarrow> int64 (e_seq e) \<Longrightarrow> json_ok (event_row_json rd e)"
  unfolding event_row_json_def using int64_plain [of "e_seq e"]
  by (simp add: event_ok_def raw_event_def)

lemma json_ok_public:
  "int64 (p_event_count p) \<Longrightarrow> pred_option int64 (p_duration_ms p) \<Longrightarrow> json_ok (public_json rd p)"
  unfolding public_json_def using int64_plain
  by (auto simp: ptr_json_def split: option.splits)


section \<open>The dashboard at the reader\<close>

lemma startsWith_append [simp]: "startsWith (a @ b) a"
  by (simp add: startsWith_def)

lemma reader_srv_at:
  "reader_srv rd base sv ((GET (base @ x))\<lparr>req_headers := hs\<rparr>) = Inr (snd (reader_serve rd ((GET x)\<lparr>req_headers := hs\<rparr>) sv))"
  "reader_srv rd base sv (GET (base @ x)) = Inr (snd (reader_serve rd (GET x) sv))"
  "reader_srv rd base sv ((DELETE (base @ x))\<lparr>req_headers := hs\<rparr>) = Inr (snd (reader_serve rd ((DELETE x)\<lparr>req_headers := hs\<rparr>) sv))"
  "reader_after rd base sv ((DELETE (base @ x))\<lparr>req_headers := hs\<rparr>) = fst (reader_serve rd ((DELETE x)\<lparr>req_headers := hs\<rparr>) sv)"
  by (simp_all add: reader_srv_def reader_after_def at_base_def GET_def DELETE_def)

lemma c_JSON_ok: "rsp_ok (c_JSON 200 v)" "json_ok (clean v) \<Longrightarrow> rsp_json (c_JSON 200 v) = Inr (clean v)"
  by (simp_all add: rsp_ok_def rsp_json_def c_JSON_def go_marshal_read)

lemma c_JSON_clean: "c_JSON status (clean v) = c_JSON status v"
  by (simp add: c_JSON_def go_marshal_def write_clean)

lemma public_session_answer:
  assumes "seg_plain t" and "snd (GetPublicSession (rd_engine rd) t sv) = Inr pub" and "json_ok (public_json rd pub)"
  shows "getPublicSession api (reader_srv rd (api_base api) sv) t = Inr (public_json rd pub)"
  using assms json_ok_clean [OF assms(3)]
  by (simp add: getPublicSession_def reader_srv_at serve_public_session reader_GetPublicSession_def answer_404_def c_JSON_ok)

lemma public_events_answer:
  assumes "seg_plain t" and "snd (GetPublicEvents (rd_engine rd) t sv) = Inr es" and "\<forall>e\<in>set es. json_ok (event_row_json rd e)"
  shows "getPublicSessionEvents api (reader_srv rd (api_base api) sv) t = Inr (JArr (map (event_row_json rd) es))"
proof -
  have ok: "json_ok (JArr (map (event_row_json rd) es))" using assms(3) by simp
  show ?thesis
    using assms(1,2) ok json_ok_clean [OF ok]
    by (simp add: getPublicSessionEvents_def reader_srv_at serve_public_events reader_GetPublicEvents_def answer_404_def
        c_JSON_ok del: clean.simps json_ok.simps)
qed

text \<open>Both queries of the public page.\<close>

lemma replay_answers:
  assumes "seg_plain t" and "snd (GetPublicSession (rd_engine rd) t sv) = Inr pub" and "snd (GetPublicEvents (rd_engine rd) t sv) = Inr es"
    and "int64 (p_event_count pub)" and "pred_option int64 (p_duration_ms pub)"
    and "\<And>e. e \<in> set es \<Longrightarrow> event_ok (raw_event e) \<and> int64 (e_seq e)"
  shows "query_fn api (reader_srv rd (api_base api) sv) (PublicSessionQuery t) d = (d, Inr (public_json rd pub))
    \<and> query_fn api (reader_srv rd (api_base api) sv) (PublicSessionEventsQuery t) d = (d, Inr (JArr (map (event_row_json rd) es)))"
  using public_session_answer [OF assms(1,2) json_ok_public [OF assms(4,5)], of api]
    public_events_answer [OF assms(1,3), of api] assms(6) json_ok_event_row by simp

text \<open>A request with a bearer token the server accepts reaches its handler.\<close>

lemma JWT_accepts:
  "rd_token_ok rd tok \<Longrightarrow> req_headers rq = [(js ''Authorization'', js ''Bearer '' @ tok)] \<Longrightarrow> JWTMiddleware rd rq h sv = h sv"
  by (simp add: JWTMiddleware_def Let_def)

lemma JWT_refuses:
  assumes "\<not> rd_token_ok rd tok" and "req_headers rq = [(js ''Authorization'', js ''Bearer '' @ tok)]"
  shows "JWTMiddleware rd rq h sv = (sv, c_JSON 401 (error_json (js ''invalid or expired token'')))"
  using assms by (simp add: JWTMiddleware_def Let_def)


section \<open>The list of sessions\<close>

text \<open>Which rows a search asks for: a field that is empty does not restrict the list.\<close>

definition chosen :: "jsstr option \<Rightarrow> jsstr \<Rightarrow> bool" where
  "chosen v s \<longleftrightarrow> or_default v [] = [] \<or> s = go_text (or_default v [])"

definition asked_for :: "search \<Rightarrow> session_row \<Rightarrow> bool" where
  "asked_for se r \<longleftrightarrow> chosen (se_identifier se) (s_identifier r) \<and> chosen (se_service_name se) (s_service_name r)
     \<and> chosen (se_environment se) (s_environment r)"

lemma utf8_text: "text_ok s \<Longrightarrow> utf8 s = utf8 v \<longleftrightarrow> s = go_text v"
  unfolding utf8_def text_ok_def
proof
  assume ok: "go_text s = s" and e: "(map of_nat (utf8_bytes s) :: gobytes) = map of_nat (utf8_bytes v)"
  have "unat (of_nat b :: 16 word) = b" if "b \<in> set (utf8_bytes x)" for b x
    using that utf8_bytes_range [of x] by (intro unat_unit) force
  then have "map unat (map of_nat (utf8_bytes x) :: gobytes) = utf8_bytes x" for x
    by (auto intro!: map_idI)
  then have "utf8_bytes s = utf8_bytes v" using e by metis
  then show "s = go_text v" using utf8_eq_iff ok by metis
next
  assume "s = go_text v"
  then show "(map of_nat (utf8_bytes s) :: gobytes) = map of_nat (utf8_bytes v)" by simp
qed

lemma filter_asked_for:
  assumes "page_query p = SessionsQuery f" and "0 \<le> page_offset p" and "page_offset p < 2 ^ 63" and "row_fits r"
  shows "filter_matches (list_filter (go_values (query_string (session_params f)))) r \<longleftrightarrow> asked_for (sp_search p) r"
  using assms(4) unfolding page_filter_read [OF assms(1-3)]
  by (simp add: filter_matches_def asked_for_def chosen_def row_fits_def utf8_text)


definition list_json :: "reader \<Rightarrow> sessions_page \<Rightarrow> server \<Rightarrow> jsval" where
  "list_json rd p sv =
     (let rows = order_sessions (rd_engine rd) (filter (asked_for (sp_search p)) (t_sessions sv))
      in JObj [(js ''data'', JArr (map (\<lambda>r. clean (row_json rd r)) (take 20 (drop (nat (page_offset p)) rows)))),
           (js ''limit'', jint 20), (js ''offset'', jint (page_offset p)), (js ''total'', jint (int (length rows)))])"

lemma order_sessions_facts:
  assumes "engine_contract eng"
  shows "set (order_sessions eng ss) = set ss" "length (order_sessions eng ss) = length ss"
proof -
  have "mset (order_sessions eng ss) = mset ss" using assms by (simp add: engine_contract_def)
  then show "set (order_sessions eng ss) = set ss" "length (order_sessions eng ss) = length ss"
    by (auto dest: mset_eq_setD mset_eq_length)
qed

lemma list_json_ok:
  assumes "engine_contract (rd_engine rd)" and "\<forall>r\<in>set (t_sessions sv). row_fits r" and "int64 (int (length (t_sessions sv)))"
    and "0 \<le> page_offset p" and "page_offset p < 2 ^ 63"
  shows "json_ok (list_json rd p sv)"
proof -
  let ?rows = "order_sessions (rd_engine rd) (filter (asked_for (sp_search p)) (t_sessions sv))"
  have "row_fits r" if "r \<in> set (take 20 (drop n ?rows))" for r n
    using that assms(1,2) by (auto dest!: in_set_takeD in_set_dropD simp: order_sessions_facts)
  moreover have "length ?rows \<le> length (t_sessions sv)" by (simp add: order_sessions_facts [OF assms(1)])
  then have "int (length ?rows) < 10 ^ 21" using assms(3) by (simp add: int64_def)
  ultimately show ?thesis using assms(4,5) json_ok_row by (simp add: list_json_def Let_def)
qed

lemma list_answer:
  assumes "healthy (rd_engine rd)" and "engine_contract (rd_engine rd)"
    and "\<forall>r\<in>set (t_sessions sv). row_fits r" and "int64 (int (length (t_sessions sv)))"
    and "page_query p = SessionsQuery f" and "0 \<le> page_offset p" and "page_offset p < 2 ^ 63"
  shows "snd (reader_List rd (go_values (query_string (session_params f))) sv) = c_JSON 200 (list_json rd p sv)"
proof -
  let ?f = "list_filter (go_values (query_string (session_params f)))"
  have m: "filter (filter_matches ?f) (t_sessions sv) = filter (asked_for (sp_search p)) (t_sessions sv)"
    using filter_asked_for [OF assms(5-7)] assms(3) by (intro filter_cong) simp_all
  have l: "lf_limit ?f = 20" "lf_offset ?f = page_offset p" by (simp_all add: page_filter_read [OF assms(5-7)])
  let ?rows = "order_sessions (rd_engine rd) (filter (asked_for (sp_search p)) (t_sessions sv))"
  have "snd (reader_List rd (go_values (query_string (session_params f))) sv) = c_JSON 200 (JObj
      [(js ''data'', JArr (map (row_json rd) (take 20 (drop (nat (page_offset p)) ?rows)))), (js ''limit'', jint 20),
       (js ''offset'', jint (page_offset p)), (js ''total'', jint (int (length ?rows)))])"
    by (simp add: reader_List_def Let_def answer_500_def list_sessions_def db_op_healthy [OF assms(1)] m l effective_limit_def
      order_sessions_facts [OF assms(2)])
  then show ?thesis
    by (subst (asm) c_JSON_clean [symmetric]) (simp add: list_json_def Let_def o_def)
qed

text \<open>A page of the list, asked for with a token the server accepts.\<close>

lemma list_query_answer:
  assumes "st_available (d_store d)" and "st_items (d_store d) TOKEN_KEY = Some tok" and "tok \<noteq> []" and "rd_token_ok rd tok"
    and "healthy (rd_engine rd)" and "engine_contract (rd_engine rd)"
    and "\<forall>r\<in>set (t_sessions sv). row_fits r" and "int64 (int (length (t_sessions sv)))"
    and "0 \<le> page_offset p" and "page_offset p < 2 ^ 63"
  shows "query_fn api (reader_srv rd (api_base api) sv) (page_query p) d = (d, Inr (list_json rd p sv))"
proof -
  obtain f where f: "page_query p = SessionsQuery f" by (simp add: page_query_def)
  let ?qs = "query_string (session_params f)"
  let ?rq = "(GET (js ''/v1/sessions?'' @ ?qs))\<lparr>req_headers := [(js ''Authorization'', js ''Bearer '' @ tok)]\<rparr>"
  have "reader_serve rd ?rq sv = reader_List rd (go_values ?qs) sv"
    using serve_list [of ?rq _ ?qs rd sv] JWT_accepts [OF assms(4), of ?rq] by simp
  then have srv: "reader_srv rd (api_base api) sv ((GET (api_base api @ js ''/v1/sessions?'' @ ?qs))
      \<lparr>req_headers := [(js ''Authorization'', js ''Bearer '' @ tok)]\<rparr>) = Inr (c_JSON 200 (list_json rd p sv))"
    using list_answer [OF assms(5-8) f assms(9,10)] by (simp add: reader_srv_at)
  have ok: "rsp_json (c_JSON 200 (list_json rd p sv)) = Inr (list_json rd p sv)"
    using list_json_ok [OF assms(6-10)] c_JSON_ok(2) json_ok_clean by metis
  have "rsp_status (c_JSON 200 (list_json rd p sv)) = 200" by (simp add: c_JSON_def)
  moreover have h: "req_headers (GET (api_base api @ js ''/v1/sessions?'' @ ?qs)) = []" by (simp add: GET_def)
  ultimately show ?thesis
    using fetchWithAuth_token [OF assms(1-3) h, of "reader_srv rd (api_base api) sv"] srv ok
    by (simp add: f listSessions_def ok_or_def c_JSON_ok)
qed

text \<open>
  Property C38 (a page of the list shows the sessions asked for). Let the stored token be one the server accepts and the
  database not fail. Then the page's query, sent to the server and its answer read back, gives
  twenty sessions from the page's offset on, of all sessions whose user, service and environment are
  exactly the texts of the search, whatever characters these hold (an empty one
  does not restrict the list), the newest first, and the total number of them; the login state is
  left alone. Submitting the form searches for the texts of its fields from the first page on, and
  reloading the address gives the same form back; clearing asks for every session, from the first page on.
\<close>

theorem filtered_list_end_to_end:
  assumes "st_available (d_store d)" and "st_items (d_store d) TOKEN_KEY = Some tok" and "tok \<noteq> []" and "rd_token_ok rd tok"
    and "healthy (rd_engine rd)" and "engine_contract (rd_engine rd)"
    and "\<forall>r\<in>set (t_sessions sv). row_fits r" and "int64 (int (length (t_sessions sv)))"
    and "0 \<le> page_offset p" and "page_offset p < 2 ^ 63"
  shows "(\<exists>rows. mset rows = mset (filter (asked_for (sp_search p)) (t_sessions sv))
      \<and> sorted_wrt (\<lambda>a b. s_started_at b \<le> s_started_at a) rows
      \<and> query_fn api (reader_srv rd (api_base api) sv) (page_query p) d = (d, Inr (JObj
          [(js ''data'', JArr (map (\<lambda>r. clean (row_json rd r)) (take 20 (drop (nat (page_offset p)) rows)))),
           (js ''limit'', jint 20), (js ''offset'', jint (page_offset p)), (js ''total'', jint (int (length rows)))])))
    \<and> (asked_for (sp_search (applyFilters p)) r \<longleftrightarrow>
         (sp_identifier p = [] \<or> s_identifier r = go_text (sp_identifier p))
       \<and> (sp_serviceName p = [] \<or> s_service_name r = go_text (sp_serviceName p))
       \<and> (sp_environment p = [] \<or> s_environment r = go_text (sp_environment p)))
    \<and> page_offset (applyFilters p) = 0
    \<and> sessions_page_init (sp_search (applyFilters p)) = (applyFilters p)\<lparr>sp_showFilters := False\<rparr>
    \<and> asked_for (sp_search (clearFilters p)) r \<and> page_offset (clearFilters p) = 0 \<and> \<not> hasActiveFilters (clearFilters p)"
proof (intro conjI)
  let ?rows = "order_sessions (rd_engine rd) (filter (asked_for (sp_search p)) (t_sessions sv))"
  have "mset ?rows = mset (filter (asked_for (sp_search p)) (t_sessions sv))
      \<and> sorted_wrt (\<lambda>a b. s_started_at b \<le> s_started_at a) ?rows"
    using assms(6) by (simp add: engine_contract_def del: mset_filter)
  with list_query_answer [OF assms, of api]
  show "\<exists>rows. mset rows = mset (filter (asked_for (sp_search p)) (t_sessions sv))
      \<and> sorted_wrt (\<lambda>a b. s_started_at b \<le> s_started_at a) rows
      \<and> query_fn api (reader_srv rd (api_base api) sv) (page_query p) d = (d, Inr (JObj
          [(js ''data'', JArr (map (\<lambda>r. clean (row_json rd r)) (take 20 (drop (nat (page_offset p)) rows)))),
           (js ''limit'', jint 20), (js ''offset'', jint (page_offset p)), (js ''total'', jint (int (length rows)))]))"
    unfolding list_json_def Let_def by blast
qed (simp_all add: asked_for_def chosen_def sessions_page_init_def applyFilters_def clearFilters_def str_or_undef_def
      hasActiveFilters_def page_offset_def page_number_def)

text \<open>A reader that accepts one token, and two sessions.\<close>

definition demo_reader :: reader where
  "demo_reader = \<lparr>rd_engine = demo_engine, rd_token_ok = (\<lambda>tok. tok = token_of (js ''h'') demo_claims (js ''s'')),
     rd_zone = 0, rd_db_error = js ''db'', rd_json_error = js ''json'', rd_payload_text = stringify\<rparr>"

definition demo_row :: "jsstr \<Rightarrow> jsstr \<Rightarrow> session_row" where
  "demo_row i user = blank_session\<lparr>s_id := i, s_identifier := user, s_share_token := Some (js ''t'' @ i)\<rparr>"

definition demo_rows :: server where
  "demo_rows = demo_server\<lparr>t_sessions := [demo_row (js ''s1'') (js ''jane''), demo_row (js ''s2'') (js ''joe'')]\<rparr>"

definition jane_page :: sessions_page where
  "jane_page = applyFilters (sessions_page_init
     \<lparr>se_identifier = Some (js ''jane''), se_service_name = None, se_environment = None, se_page = None\<rparr>)"

lemma demo_row_fits: "text_ok user \<Longrightarrow> row_fits (demo_row i user)"
  by (simp add: row_fits_def demo_row_def blank_session_def int64_def text_ok_def)

lemma demo_reader_facts:
  "healthy (rd_engine demo_reader)" "engine_contract (rd_engine demo_reader)"
  "rd_token_ok demo_reader (token_of (js ''h'') demo_claims (js ''s''))"
  by (simp_all add: demo_reader_def demo_healthy demo_engine_contract)

lemma demo_dash_facts:
  "st_available (d_store demo_dash)" "st_items (d_store demo_dash) TOKEN_KEY = Some (token_of (js ''h'') demo_claims (js ''s''))"
  "token_of (js ''h'') demo_claims (js ''s'') \<noteq> []"
  by (simp_all add: demo_dash_def demo_login_facts)

theorem filtered_list_end_to_end_witness:
  "query_fn None (reader_srv demo_reader (api_base None) demo_rows) (page_query jane_page) demo_dash = (demo_dash, Inr (JObj
     [(js ''data'', JArr [clean (row_json demo_reader (demo_row (js ''s1'') (js ''jane'')))]), (js ''limit'', jint 20),
      (js ''offset'', jint 0), (js ''total'', jint 1)]))"
proof -
  have t: "text_ok (js ''jane'')" "text_ok (js ''joe'')" "js ''jane'' \<noteq> []" "js ''joe'' \<noteq> js ''jane''"
    by code_simp+
  have o: "page_offset jane_page = 0"
    by (simp add: jane_page_def page_offset_def page_number_def applyFilters_def)
  have f: "filter (asked_for (sp_search jane_page)) (t_sessions demo_rows) = [demo_row (js ''s1'') (js ''jane'')]"
    using t by (simp add: demo_rows_def asked_for_def chosen_def jane_page_def applyFilters_def sessions_page_init_def
        str_or_undef_def demo_row_def text_ok_def)
  have sv: "\<forall>r\<in>set (t_sessions demo_rows). row_fits r" "int64 (int (length (t_sessions demo_rows)))"
    using t by (simp_all add: demo_rows_def demo_row_fits int64_def)
  from filtered_list_end_to_end [OF demo_dash_facts demo_reader_facts(3,1,2) sv, of jane_page None undefined] o obtain rows where
    "mset rows = mset (filter (asked_for (sp_search jane_page)) (t_sessions demo_rows))"
    "query_fn None (reader_srv demo_reader (api_base None) demo_rows) (page_query jane_page) demo_dash = (demo_dash, Inr (JObj
      [(js ''data'', JArr (map (\<lambda>r. clean (row_json demo_reader r)) (take 20 (drop (nat 0) rows)))),
       (js ''limit'', jint 20), (js ''offset'', jint 0), (js ''total'', jint (int (length rows)))]))" by auto
  moreover from this(1) have "rows = [demo_row (js ''s1'') (js ''jane'')]" unfolding f by simp
  ultimately show ?thesis by simp
qed

end
