(* ===== verification/ServerGuard.thy ===== *)
theory ServerGuard
  imports ServerAnswers
begin

text \<open>
  What changes the tables of the reader and who sees them: a deletion from the dashboard, end to end, and what the reader
  does for a request without a token it accepts.
\<close>

section \<open>Operations that only read\<close>

text \<open>The tables and the queue; what may differ is the number of operations so far.\<close>

definition same_data :: "server \<Rightarrow> server \<Rightarrow> bool" where
  "same_data a b \<longleftrightarrow> t_sessions a = t_sessions b \<and> t_events a = t_events b \<and> t_failed a = t_failed b
     \<and> sv_queue a = sv_queue b \<and> sv_pending a = sv_pending b"

lemma same_data_refl [simp]: "same_data sv sv" "same_data (sv\<lparr>sv_ops := n\<rparr>) sv"
  by (simp_all add: same_data_def)

lemma same_data_GetByShareToken: "same_data (fst (GetByShareToken eng t sv)) sv"
  by (simp add: GetByShareToken_def db_op_def Let_def)

lemma same_data_GetEvents: "same_data st sv \<Longrightarrow> same_data (fst (GetEvents eng i st)) sv"
  by (simp add: GetEvents_def db_op_def Let_def same_data_def)

lemma same_data_next:
  "same_data (fst p) sv \<Longrightarrow> (\<And>x st. same_data st sv \<Longrightarrow> same_data (fst (f x st)) sv) \<Longrightarrow> same_data (fst (next_op p f)) sv"
  by (cases p; cases "snd p") simp_all

lemma same_data_public:
  "same_data (fst (GetPublicSession eng t sv)) sv" "same_data (fst (GetPublicEvents eng t sv)) sv"
  unfolding GetPublicSession_def GetPublicEvents_def
  by (auto intro!: same_data_next same_data_GetByShareToken same_data_GetEvents)

lemma share_token_found:
  assumes "snd (GetByShareToken eng t sv) = Inr r"
  shows "r \<in> set (t_sessions sv) \<and> s_share_token r = Some t"
  using assms by (auto simp: GetByShareToken_def db_op_def Let_def find_Some_iff split: if_splits option.splits)

lemma public_session_found:
  assumes "snd (GetPublicSession eng t sv) = Inr p"
  shows "\<exists>r\<in>set (t_sessions sv). s_share_token r = Some t \<and> p = ToPublic r"
proof (cases "snd (GetByShareToken eng t sv)")
  case (Inr r)
  with share_token_found [OF Inr] assms show ?thesis
    by (cases "GetByShareToken eng t sv") (auto simp: GetPublicSession_def next_op_def)
qed (use assms in \<open>cases "GetByShareToken eng t sv"; simp add: GetPublicSession_def next_op_def\<close>)

lemma public_events_found:
  assumes "engine_contract eng" and "snd (GetPublicEvents eng t sv) = Inr es"
  shows "\<exists>r\<in>set (t_sessions sv). s_share_token r = Some t
    \<and> list_all (\<lambda>e. e \<in> set (t_events sv) \<and> e_session_id e = s_id r \<and> e_type e \<noteq> 6) es"
proof -
  obtain sv' where "GetPublicEvents eng t sv = (sv', Inr es)" using assms(2) by (metis prod.collapse)
  from GetPublicEvents_ok [OF this] obtain r where
    r: "find (\<lambda>r. s_share_token r = Some t) (t_sessions sv) = Some r"
    and es: "es = filter (\<lambda>e. e_type e \<noteq> rrwebPluginType) (order_events eng (session_events (s_id r) sv))" by blast
  have "mset (order_events eng (session_events (s_id r) sv)) = mset (session_events (s_id r) sv)"
    using assms(1) by (simp add: engine_contract_def)
  then have "set (order_events eng (session_events (s_id r) sv)) = set (session_events (s_id r) sv)"
    by (rule mset_eq_setD)
  then have "list_all (\<lambda>e. e \<in> set (t_events sv) \<and> e_session_id e = s_id r \<and> e_type e \<noteq> 6) es"
    by (auto simp: es rrwebPluginType_def session_events_def list_all_iff)
  moreover have "r \<in> set (t_sessions sv)" "s_share_token r = Some t" using r by (auto simp: find_Some_iff)
  ultimately show ?thesis by blast
qed


section \<open>Requests without a token\<close>

definition bearer_accepted :: "reader \<Rightarrow> request \<Rightarrow> bool" where
  "bearer_accepted rd rq \<longleftrightarrow>
     (case map_of (req_headers rq) (js ''Authorization'') of
        None \<Rightarrow> False
      | Some a \<Rightarrow> startsWith a (js ''Bearer '') \<and> rd_token_ok rd (drop (length (js ''Bearer '')) a))"

lemma JWT_refused:
  assumes "\<not> bearer_accepted rd rq"
  shows "\<exists>msg. JWTMiddleware rd rq h sv = (sv, c_JSON 401 (error_json msg))"
proof -
  have "\<not> startsWith [] (js ''Bearer '')" by (simp add: js_eval startsWith_def)
  then show ?thesis
    using assms by (auto simp: JWTMiddleware_def bearer_accepted_def Let_def split: option.splits)
qed

text \<open>The parts of the path of a request.\<close>

definition path_parts :: "request \<Rightarrow> jsstr list" where
  "path_parts rq = (case go_unescape False (takeWhile (\<lambda>c. c \<noteq> 0x3F) (req_url rq)) of
     None \<Rightarrow> [] | Some bs \<Rightarrow> split_on 0x2F (go_decode bs))"

text \<open>Requests for the endpoints of sessions, not for those of the other handlers.\<close>

definition for_sessions :: "request \<Rightarrow> bool" where
  "for_sessions rq \<longleftrightarrow> req_method rq \<noteq> js ''OPTIONS'' \<and> take 3 (path_parts rq) \<noteq> [[], js ''v1'', js ''auth'']
     \<and> path_parts rq \<noteq> [[], js ''health'']"

text \<open>What such a request can be: refused, or one of the two public ones.\<close>

lemma unauthenticated_cases:
  assumes "\<not> bearer_accepted rd rq"
  obtains rsp where "reader_serve rd rq sv = (sv, rsp)" "rsp_status rsp \<in> {400, 401, 404}"
  | t where "t \<in> set (path_parts rq)" "reader_serve rd rq sv = reader_GetPublicSession rd t sv"
  | t where "t \<in> set (path_parts rq)" "reader_serve rd rq sv = reader_GetPublicEvents rd t sv"
proof -
  have st: "rsp_status (c_Status n) = n" "rsp_status (c_JSON n v) = n" "rsp_status not_found = 404" for n v
    by (simp_all add: c_Status_def c_JSON_def not_found_def)
  define ok where "ok ps p \<longleftrightarrow> (\<exists>rsp. p = (sv, rsp) \<and> rsp_status rsp \<in> {400, 401, 404})
      \<or> (\<exists>t\<in>set ps. p = reader_GetPublicSession rd t sv) \<or> (\<exists>t\<in>set ps. p = reader_GetPublicEvents rd t sv)" for ps p
  have refused: "ok ps (sv, c_Status 400)" "ok ps (sv, not_found)" for ps by (simp_all add: ok_def st)
  have pub: "ok (e # v # rest) (case RegisterPublicRoutes meth (tl rest) of None \<Rightarrow> (sv, not_found) | Some ep \<Rightarrow> handle rd vs ep sv)"
    for meth rest vs e v
    by (cases rest; cases "tl rest") (auto simp: RegisterPublicRoutes_def refused ok_def st split: list.splits)
  have "ok ps (JWTMiddleware rd rq h sv)" for h ps
    using JWT_refused [OF assms, of h sv] st(2) by (auto simp: ok_def)
  then have "ok ps (case RegisterRoutes meth path of None \<Rightarrow> (sv, not_found) | Some ep \<Rightarrow> JWTMiddleware rd rq (handle rd vs ep) sv)"
    for meth path vs ps by (simp add: refused split: option.split)
  with pub refused have "ok (path_parts rq) (reader_serve rd rq sv)"
    unfolding reader_serve_def path_parts_def Let_def by (simp split: option.split list.split)
  then show thesis using that unfolding ok_def by blast
qed

text \<open>
  Property C25 (without a token only shared replays are seen). A request without a bearer token that the server accepts,
  whatever its method and address, as long as it is not for the login, key and health endpoints or an
  \<open>OPTIONS\<close> request, changes no table and no queue. It is refused with status 400, 401 or 404, unless the address has the
  share token of a session as one of its parts: then the answer may have that session's public data, which
  names no user, or events of that session that are no plugin events.
\<close>

theorem no_token_no_data:
  assumes "\<not> bearer_accepted rd rq" and "for_sessions rq" and "engine_contract (rd_engine rd)"
    and "reader_serve rd rq sv = (sv', rsp)"
  shows "same_data sv' sv
    \<and> (rsp_status rsp \<in> {400, 401, 404}
       \<or> (\<exists>r\<in>set (t_sessions sv). \<exists>t\<in>set (path_parts rq). s_share_token r = Some t
            \<and> (rsp = c_JSON 200 (public_json rd (ToPublic r))
               \<or> (\<exists>es. rsp = c_JSON 200 (JArr (map (event_row_json rd) es))
                    \<and> list_all (\<lambda>e. e \<in> set (t_events sv) \<and> e_session_id e = s_id r \<and> e_type e \<noteq> 6) es))))"
proof (cases rule: unauthenticated_cases [OF assms(1), of sv])
  case (1 rsp')
  with assms(4) show ?thesis by simp
next
  case (2 t)
  with assms(4) have e: "sv' = fst (GetPublicSession (rd_engine rd) t sv)"
    "rsp = (case snd (GetPublicSession (rd_engine rd) t sv) of
       Inl _ \<Rightarrow> c_JSON 404 (error_json (js ''not found'')) | Inr p \<Rightarrow> c_JSON 200 (public_json rd p))"
    by (simp_all add: reader_GetPublicSession_def answer_404_def)
  from 2(1) show ?thesis
    using public_session_found [of "rd_engine rd" t sv] same_data_public(1) e
    by (cases "snd (GetPublicSession (rd_engine rd) t sv)") (auto simp: c_JSON_def)
next
  case (3 t)
  with assms(4) have e: "sv' = fst (GetPublicEvents (rd_engine rd) t sv)"
    "rsp = (case snd (GetPublicEvents (rd_engine rd) t sv) of
       Inl _ \<Rightarrow> c_JSON 404 (error_json (js ''not found'')) | Inr es \<Rightarrow> c_JSON 200 (JArr (map (event_row_json rd) es)))"
    by (simp_all add: reader_GetPublicEvents_def answer_404_def)
  show ?thesis
  proof (cases "snd (GetPublicEvents (rd_engine rd) t sv)")
    case (Inl x)
    then show ?thesis using e same_data_public(2) by (simp add: c_JSON_def)
  next
    case (Inr es)
    with public_events_found [OF assms(3) Inr] 3(1) e same_data_public(2) show ?thesis by auto
  qed
qed

theorem no_token_no_data_witness:
  "rsp_status (snd (reader_serve demo_reader (GET (js ''/v1/sessions'')) demo_rows)) = 401
   \<and> same_data (fst (reader_serve demo_reader (GET (js ''/v1/sessions'')) demo_rows)) demo_rows"
proof -
  let ?rq = "GET (js ''/v1/sessions'')"
  obtain sv' rsp where r: "reader_serve demo_reader ?rq demo_rows = (sv', rsp)" by fastforce
  have b: "\<not> bearer_accepted demo_reader ?rq" by (simp add: bearer_accepted_def GET_def)
  have f: "for_sessions ?rq" by code_simp
  have "reader_serve demo_reader ?rq demo_rows = JWTMiddleware demo_reader ?rq (reader_List demo_reader (go_values [])) demo_rows"
    using serve_path [of "js ''v1''" "[js ''sessions'']" ?rq "[]" demo_reader demo_rows] seg_ok_texts
    by (simp add: path_of_def GET_def RegisterRoutes_def handle_funs js_eval)
  then have "rsp_status rsp = 401" using JWT_refused [OF b, of "reader_List demo_reader (go_values [])" demo_rows] r
    by (auto simp: c_JSON_def)
  with no_token_no_data [OF b f demo_reader_facts(2) r] r show ?thesis by simp
qed


section \<open>Deleting a session\<close>

lemma find_filter_other: "j \<noteq> i \<Longrightarrow> find (\<lambda>r. s_id r = j) (filter (\<lambda>r. s_id r \<noteq> i) rows) = find (\<lambda>r. s_id r = j) rows"
  by (induction rows) auto

text \<open>The request the dashboard sends, and the tables afterwards.\<close>

definition delete_request :: "jsstr option \<Rightarrow> jsstr \<Rightarrow> jsstr \<Rightarrow> request" where
  "delete_request api tok i =
     (DELETE (api_base api @ js ''/v1/sessions/'' @ i))\<lparr>req_headers := [(js ''Authorization'', js ''Bearer '' @ tok)]\<rparr>"

lemma delete_served:
  assumes "rd_token_ok rd tok" and "seg_plain i"
  shows "reader_srv rd (api_base api) sv (delete_request api tok i) = Inr (snd (reader_Delete rd i sv))"
    "reader_after rd (api_base api) sv (delete_request api tok i) = fst (reader_Delete rd i sv)"
  using serve_delete [OF assms(2) refl, of rd "[(js ''Authorization'', js ''Bearer '' @ tok)]" sv]
    JWT_accepts [OF assms(1), of "(DELETE (js ''/v1/sessions/'' @ i))\<lparr>req_headers := [(js ''Authorization'', js ''Bearer '' @ tok)]\<rparr>"]
  by (simp_all add: delete_request_def reader_srv_at)

lemma deleted_tables:
  assumes "\<not> db_fault (rd_engine rd) (sv_ops sv)" and "sv' = fst (reader_Delete rd i sv)"
  shows "t_sessions sv' = filter (\<lambda>r. s_id r \<noteq> i) (t_sessions sv)" "t_events sv' = filter (\<lambda>e. e_session_id e \<noteq> i) (t_events sv)"
    "t_failed sv' = t_failed sv"
  using assms by (simp_all add: reader_Delete_def answer_500_def repo_DeleteSession_def db_op_def Let_def)

lemma deleted_token:
  assumes "store_inv sv" and "row_of i sv = Some r" and "s_share_token r = Some t"
    and "t_sessions sv' = filter (\<lambda>r. s_id r \<noteq> i) (t_sessions sv)"
  shows "\<exists>e. snd (GetPublicSession eng t sv') = Inl e"
proof (cases "snd (GetPublicSession eng t sv')")
  case (Inr p)
  from public_session_found [OF Inr] obtain q where q: "q \<in> set (t_sessions sv')" "s_share_token q = Some t" by blast
  have "r \<in> set (t_sessions sv)" "s_id r = i" using assms(2) by (auto simp: row_of_def dest: find_Some_id)
  with q assms(1,3,4) have "s_id q = i" using tokens_uniqueD [of "t_sessions sv" q r t] by (simp add: store_inv_def)
  with q assms(4) show ?thesis by simp
qed simp

text \<open>
  The one request a computation of the dashboard makes: its outcome depends on the server, and only through
  the answer to that request. There is at most one such request.
\<close>

definition sends :: "(backend \<Rightarrow> 'a) \<Rightarrow> request \<Rightarrow> bool" where
  "sends f rq \<longleftrightarrow> (\<forall>srv srv'. srv rq = srv' rq \<longrightarrow> f srv = f srv') \<and> (\<exists>srv srv'. f srv \<noteq> f srv')"

lemma sendsI: "(\<And>srv srv'. srv rq = srv' rq \<Longrightarrow> f srv = f srv') \<Longrightarrow> f srv1 \<noteq> f srv2 \<Longrightarrow> sends f rq"
  unfolding sends_def by blast

lemma sendsD: "sends f rq \<Longrightarrow> srv rq = srv' rq \<Longrightarrow> f srv = f srv'"
  unfolding sends_def by blast

lemma sends_unique:
  assumes "sends f rq" and "sends f rq'"
  shows "rq' = rq"
proof (rule ccontr)
  assume ne: "rq' \<noteq> rq"
  have "f srv = f srv'" for srv srv'
  proof -
    have "f srv = f (srv(rq := srv' rq))" by (rule sendsD [OF assms(2)]) (simp add: ne)
    also have "\<dots> = f srv'" by (rule sendsD [OF assms(1)]) simp
    finally show ?thesis .
  qed
  with assms(1) show False unfolding sends_def by blast
qed

lemma handleDelete_sends:
  assumes "st_available (d_store d)" and "st_items (d_store d) TOKEN_KEY = Some tok" and "tok \<noteq> []"
  shows "sends (\<lambda>srv. handleDelete api srv True i d) (delete_request api tok i)"
proof -
  have h: "req_headers (DELETE (api_base api @ js ''/v1/sessions/'' @ i)) = []" by (simp add: DELETE_def GET_def)
  note f = fetchWithAuth_token [OF assms h, folded delete_request_def]
  have "handleDelete api (\<lambda>_. Inl TypeError) True i d \<noteq> handleDelete api (\<lambda>_. Inr \<lparr>rsp_status = 204, rsp_body = []\<rparr>) True i d"
    by (simp add: handleDelete_def deleteSession_def f ok_or_def rsp_ok_def)
  then show ?thesis by (rule sendsI [rotated]) (simp add: handleDelete_def deleteSession_def f)
qed

text \<open>
  Property C26 (deleting a session). Let the stored token be one the server accepts. Without the user's confirmation the page
  stays, whatever the server would answer. With it the button sends one request, and once the server has handled that request: unless the
  database fails, the session and all of its
  events are gone, every other session and its events are as before, the link that shared it finds
  nothing, and the list of sessions is opened. When the database fails, nothing is
  deleted and the page stays. Either way the batches that are kept as failed
  are not touched.
\<close>

theorem deleting_erases_session:
  assumes "st_available (d_store d)" and "st_items (d_store d) TOKEN_KEY = Some tok" and "tok \<noteq> []" and "rd_token_ok rd tok"
    and "seg_plain i" and "store_inv sv"
  shows "(\<forall>srv. handleDelete api srv False i d = (d, None, None))
    \<and> (\<exists>rq sv'. (\<forall>rq'. sends (\<lambda>srv. handleDelete api srv True i d) rq' \<longleftrightarrow> rq' = rq)
      \<and> sv' = reader_after rd (api_base api) sv rq \<and> t_failed sv' = t_failed sv
      \<and> (if db_fault (rd_engine rd) (sv_ops sv)
         then handleDelete api (reader_srv rd (api_base api) sv) True i d = (d, Some (DeleteSession i), None)
           \<and> t_sessions sv' = t_sessions sv \<and> t_events sv' = t_events sv
         else handleDelete api (reader_srv rd (api_base api) sv) True i d = (d, Some (DeleteSession i), Some SessionsRoute)
           \<and> row_of i sv' = None \<and> session_events i sv' = []
           \<and> (\<forall>j. j \<noteq> i \<longrightarrow> row_of j sv' = row_of j sv \<and> session_events j sv' = session_events j sv)
           \<and> (\<forall>r t. row_of i sv = Some r \<and> s_share_token r = Some t \<and> seg_plain t \<longrightarrow>
                query_fn api (reader_srv rd (api_base api) sv') (PublicSessionQuery t) d = (d, Inl (Thrown ''Replay not found'')))))"
proof -
  let ?srv = "reader_srv rd (api_base api) sv"
  define sv' where "sv' = reader_after rd (api_base api) sv (delete_request api tok i)"
  have sv': "sv' = fst (reader_Delete rd i sv)" using delete_served(2) [OF assms(4,5)] by (simp add: sv'_def)
  note del = delete_only_when_confirmed [OF assms(1-3) refl, of api ?srv i,
      folded api_base_def, folded delete_request_def, unfolded delete_served(1) [OF assms(4,5)]]
  note snt = handleDelete_sends [OF assms(1-3), of api i]
  have u: "\<forall>rq'. sends (\<lambda>srv. handleDelete api srv True i d) rq' \<longleftrightarrow> rq' = delete_request api tok i"
    using sends_unique [OF snt] snt by blast
  have n: "\<forall>srv. handleDelete api srv False i d = (d, None, None)" by (simp add: handleDelete_def)
  show ?thesis
  proof (cases "db_fault (rd_engine rd) (sv_ops sv)")
    case True
    then have "rsp_status (snd (reader_Delete rd i sv)) = 500" "same_data sv' sv"
      by (simp_all add: sv' reader_Delete_def answer_500_def repo_DeleteSession_def db_op_def Let_def c_JSON_def)
    with True del show ?thesis
      by (intro conjI n exI [of _ "delete_request api tok i"] exI [of _ sv'] u sv'_def) (auto simp: same_data_def)
  next
    case False
    then have "rsp_status (snd (reader_Delete rd i sv)) = 204"
      by (simp add: reader_Delete_def answer_500_def repo_DeleteSession_def db_op_def Let_def c_Status_def)
    moreover note tb = deleted_tables [OF False sv']
    have "row_of i sv' = None" "session_events i sv' = []"
      by (simp_all add: row_of_def session_events_def tb find_None_iff filter_empty_conv)
    moreover have "row_of j sv' = row_of j sv" "session_events j sv' = session_events j sv" if "j \<noteq> i" for j
      using that by (auto simp: row_of_def session_events_def tb find_filter_other intro!: filter_cong)
    moreover have "query_fn api (reader_srv rd (api_base api) sv') (PublicSessionQuery t) d = (d, Inl (Thrown ''Replay not found''))"
      if "row_of i sv = Some r" "s_share_token r = Some t" "seg_plain t" for r t
      using deleted_token [OF assms(6) that(1,2) tb(1), of "rd_engine rd"] that(3)
      by (auto simp: getPublicSession_def reader_srv_at serve_public_session reader_GetPublicSession_def answer_404_def
          rsp_ok_def c_JSON_def)
    ultimately show ?thesis using False del tb(3)
      by (intro conjI n exI [of _ "delete_request api tok i"] exI [of _ sv'] u sv'_def) simp_all
  qed
qed

lemma demo_rows_inv: "store_inv demo_rows"
proof -
  have "js ''s1'' \<noteq> js ''s2''" by code_simp
  then show ?thesis
    by (auto simp: store_inv_def demo_rows_def demo_server_def demo_row_def tokens_unique_def)
qed

theorem deleting_erases_session_witness:
  "\<exists>rq sv'. sends (\<lambda>srv. handleDelete None srv True (js ''s1'') demo_dash) rq
     \<and> sv' = reader_after demo_reader (api_base None) demo_rows rq
     \<and> handleDelete None (reader_srv demo_reader (api_base None) demo_rows) True (js ''s1'') demo_dash
         = (demo_dash, Some (DeleteSession (js ''s1'')), Some SessionsRoute)
     \<and> row_of (js ''s1'') sv' = None \<and> row_of (js ''s2'') sv' = Some (demo_row (js ''s2'') (js ''joe''))
     \<and> query_fn None (reader_srv demo_reader (api_base None) sv') (PublicSessionQuery (js ''ts1'')) demo_dash
         = (demo_dash, Inl (Thrown ''Replay not found''))"
proof -
  have p: "seg_plain (js ''s1'')" "seg_plain (js ''ts1'')" "js ''s2'' \<noteq> js ''s1''" "js ''t'' @ js ''s1'' = js ''ts1''" by code_simp+
  have f: "\<not> db_fault (rd_engine demo_reader) (sv_ops demo_rows)" by (simp add: demo_reader_def demo_engine_def)
  have r: "row_of (js ''s1'') demo_rows = Some (demo_row (js ''s1'') (js ''jane''))" "row_of (js ''s2'') demo_rows = Some (demo_row (js ''s2'') (js ''joe''))"
    "s_share_token (demo_row (js ''s1'') (js ''jane'')) = Some (js ''ts1'')"
    using p(3,4) by (simp_all add: row_of_def demo_rows_def demo_row_def)
  obtain rq sv' where d: "\<forall>rq'. sends (\<lambda>srv. handleDelete None srv True (js ''s1'') demo_dash) rq' \<longleftrightarrow> rq' = rq"
      "sv' = reader_after demo_reader (api_base None) demo_rows rq"
      "handleDelete None (reader_srv demo_reader (api_base None) demo_rows) True (js ''s1'') demo_dash
         = (demo_dash, Some (DeleteSession (js ''s1'')), Some SessionsRoute)" "row_of (js ''s1'') sv' = None"
    and other: "\<And>j. j \<noteq> js ''s1'' \<Longrightarrow> row_of j sv' = row_of j demo_rows"
    and link: "\<And>r t. row_of (js ''s1'') demo_rows = Some r \<and> s_share_token r = Some t \<and> seg_plain t \<Longrightarrow>
      query_fn None (reader_srv demo_reader (api_base None) sv') (PublicSessionQuery t) demo_dash
        = (demo_dash, Inl (Thrown ''Replay not found''))"
    using deleting_erases_session [OF demo_dash_facts demo_reader_facts(3) p(1) demo_rows_inv, of None,
        unfolded if_not_P [OF f]] by blast
  have "row_of (js ''s2'') sv' = Some (demo_row (js ''s2'') (js ''joe''))" using other [OF p(3)] r(2) by simp
  with d link [OF conjI, OF r(1) conjI, OF r(3) p(2)] show ?thesis by (intro exI [of _ rq] exI [of _ sv'] conjI) (blast | assumption)+
qed

end
