(* ===== verification/PageShare.thy ===== *)
theory PageShare
  imports PagePlayer
begin

text \<open>
  The public replay (\<open>routes/share.$token.tsx\<close>) and the overview
  (\<open>routes/app/_layout/index.tsx\<close>), with the data types only they use
  (\<open>http/public/session.ts\<close>, \<open>http/sessions/types.ts\<close>).
\<close>

section \<open>The shared replay\<close>

record PublicSession =
  ps_id :: jsstr
  ps_service_name :: jsstr
  ps_environment :: jsstr
  ps_started_at :: jsstr
  ps_duration_ms :: "int option"
  ps_event_count :: int

definition formatDuration_share :: "int option \<Rightarrow> jsstr" where
  "formatDuration_share v =
     (case v of
        None \<Rightarrow> [ch_dash]
      | Some ms \<Rightarrow>
          if ms = 0 then [ch_dash]
          else if ms < 1000 then show_int ms @ js ''ms''
          else if ms < 60000 then toFixed1 ms 1000 @ js ''s''
          else
            (let m = floor_quot (nat ms) 60000; s = floor_quot (nat ms mod 60000) 1000
             in dec_digits m @ js ''m '' @ dec_digits s @ js ''s''))"

type_synonym share_page = "PublicSession replay_page"

record public_meta =
  pm_service :: jsstr
  pm_environment :: "jsstr option"
  pm_times :: jsstr

record public_view =
  pv_debug_link :: "route option"
  pv_meta :: "public_meta option"
  pv_player :: bool

datatype share_view = LinkInvalid | ShareLoading | Replay public_view

definition public_meta_of :: "(jsstr \<Rightarrow> jsstr) \<Rightarrow> PublicSession \<Rightarrow> public_meta" where
  "public_meta_of formatTime s =
     \<lparr>pm_service = ps_service_name s, pm_environment = shown (ps_environment s),
      pm_times = formatDuration_share (ps_duration_ms s) @ js '' '' @ [ch_middot] @ js '' '' @ formatTime (ps_started_at s)\<rparr>"

text \<open>What the page shows to a visitor who is signed in (\<open>authed\<close>) or not.\<close>

definition share_view_of :: "(jsstr \<Rightarrow> jsstr) \<Rightarrow> bool \<Rightarrow> share_page \<Rightarrow> share_view" where
  "share_view_of formatTime authed p =
     (if qr_isError (rp_session p) then LinkInvalid
      else if page_loading p then ShareLoading
      else Replay
        \<lparr>pv_debug_link = (case qr_data (rp_session p) of
            None \<Rightarrow> None | Some s \<Rightarrow> if authed then Some (SessionRoute (ps_id s)) else None),
         pv_meta = map_option (public_meta_of formatTime) (qr_data (rp_session p)),
         pv_player = (page_events p \<noteq> [])\<rparr>)"

text \<open>The component reads the login on every render, which may remove an expired one.\<close>

definition PublicReplayPage :: "(jsstr \<Rightarrow> jsstr) \<Rightarrow> share_page \<Rightarrow> dash \<Rightarrow> dash \<times> share_view res" where
  "PublicReplayPage formatTime p d =
     (case isAuthenticated (d_now d) (d_store d) of
        (s, r) \<Rightarrow> (d\<lparr>d_store := s\<rparr>, bindR r (\<lambda>authed. Inr (share_view_of formatTime authed p))))"

definition share_target :: "share_page \<Rightarrow> bool" where
  "share_target p \<longleftrightarrow> \<not> qr_isError (rp_session p) \<and> \<not> page_loading p \<and> page_events p \<noteq> []"

definition share_react ::
    "share_page use_effect \<Rightarrow> int \<Rightarrow> PublicSession query_result \<times> (nat \<times> ReplayEvent list) query_result
      \<Rightarrow> share_page \<Rightarrow> share_page"
where
  "share_react u = react u share_target 900 480"


section \<open>The overview\<close>

record Stats =
  stt_total_sessions :: nat
  stt_sessions_today :: nat
  stt_sessions_this_week :: nat
  stt_failed_ingest_count :: nat
  stt_active_services :: "jsstr list"
  stt_recent_sessions :: "ReplaySession list"

definition formatDuration_overview :: "int option \<Rightarrow> jsstr" where
  "formatDuration_overview v =
     (case v of
        None \<Rightarrow> [ch_dash]
      | Some ms \<Rightarrow>
          if ms = 0 then [ch_dash]
          else if ms < 1000 then show_int ms @ js ''ms''
          else if ms < 60000 then toFixed1 ms 1000 @ js ''s''
          else
            (let m = floor_quot (nat ms) 60000; s = floor_quot (nat ms mod 60000) 1000
             in dec_digits m @ js ''m '' @ dec_digits s @ js ''s''))"

record stat_card =
  sc_label :: jsstr
  sc_value :: jsstr
  sc_highlight :: bool

definition StatCard :: "jsstr \<Rightarrow> nat \<Rightarrow> bool \<Rightarrow> stat_card" where
  "StatCard label value highlight = \<lparr>sc_label = label, sc_value = dec_digits value, sc_highlight = highlight\<rparr>"

definition stat_or_0 :: "(Stats \<Rightarrow> nat) \<Rightarrow> Stats option \<Rightarrow> nat" where
  "stat_or_0 f st = (case st of None \<Rightarrow> 0 | Some s \<Rightarrow> f s)"

datatype 'a panel = Skeleton nat | EmptyPanel | Panel "'a list"

definition stat_cards :: "bool \<Rightarrow> Stats option \<Rightarrow> stat_card panel" where
  "stat_cards isLoading st =
     (if isLoading then Skeleton 4
      else Panel
        [StatCard (js ''Total sessions'') (stat_or_0 stt_total_sessions st) False,
         StatCard (js ''Today'') (stat_or_0 stt_sessions_today st) False,
         StatCard (js ''This week'') (stat_or_0 stt_sessions_this_week st) False,
         StatCard (js ''Failed ingests'') (stat_or_0 stt_failed_ingest_count st) (0 < stat_or_0 stt_failed_ingest_count st)])"

record recent_row =
  rr_label :: jsstr
  rr_url :: "jsstr option"
  rr_time :: jsstr
  rr_duration :: jsstr
  rr_opens :: route

definition recent_row_of :: "(jsstr \<Rightarrow> jsstr) \<Rightarrow> ReplaySession \<Rightarrow> recent_row" where
  "recent_row_of formatTime s =
     \<lparr>rr_label = session_label s, rr_url = shown (rs_start_url s), rr_time = formatTime (rs_started_at s),
      rr_duration = formatDuration_overview (rs_duration_ms s), rr_opens = SessionRoute (rs_id s)\<rparr>"

definition recent_sessions :: "(jsstr \<Rightarrow> jsstr) \<Rightarrow> bool \<Rightarrow> Stats option \<Rightarrow> recent_row panel" where
  "recent_sessions formatTime isLoading st =
     (if isLoading then Skeleton 3
      else (case st of
              None \<Rightarrow> EmptyPanel
            | Some s \<Rightarrow> if stt_recent_sessions s = [] then EmptyPanel
                        else Panel (map (recent_row_of formatTime) (stt_recent_sessions s))))"

definition active_services :: "bool \<Rightarrow> Stats option \<Rightarrow> jsstr panel" where
  "active_services isLoading st =
     (if isLoading then Skeleton 3
      else (case st of
              None \<Rightarrow> EmptyPanel
            | Some s \<Rightarrow> if stt_active_services s = [] then EmptyPanel else Panel (stt_active_services s)))"

definition DashboardPage ::
    "(jsstr \<Rightarrow> jsstr) \<Rightarrow> Stats query_result \<Rightarrow> stat_card panel \<times> recent_row panel \<times> jsstr panel"
where
  "DashboardPage formatTime q =
     (stat_cards (qr_isLoading q) (qr_data q), recent_sessions formatTime (qr_isLoading q) (qr_data q),
      active_services (qr_isLoading q) (qr_data q))"


section \<open>One format for durations\<close>

lemma durations_agree:
  "formatDuration_sessions = fmtDuration" "formatDuration_player = fmtDuration"
  "formatDuration_share = fmtDuration" "formatDuration_overview = fmtDuration"
  by (rule ext; simp add: formatDuration_sessions_def formatDuration_player_def formatDuration_share_def
      formatDuration_overview_def fmtDuration_def)+

text \<open>
  Property C40 (durations). The report and the four pages each have their own copy of the function; all print the
  same. For every whole number of milliseconds below 2 to the 53: nothing or zero is a dash;
  below a second the milliseconds are printed; below a minute the seconds to one decimal, at
  most fifty milliseconds away from the duration; from a minute on, the whole minutes and
  the remaining whole seconds, which are fewer than sixty. In particular the
  double-precision quotients lose nothing. The rounding makes the last fifty milliseconds
  before a minute print as sixty seconds.
\<close>

theorem durations_printed_exactly:
  assumes "f \<in> {fmtDuration, formatDuration_sessions, formatDuration_player, formatDuration_share, formatDuration_overview}"
    and "0 < ms" and "ms < 2 ^ 53"
  shows "f None = [ch_dash] \<and> f (Some 0) = [ch_dash] \<and> f (Some 59950) = js ''60.0s''
    \<and> (if ms < 1000 then f (Some ms) = show_int ms @ js ''ms''
       else if ms < 60000 then \<exists>t. f (Some ms) = fixed1 t @ js ''s'' \<and> \<bar>100 * int t - ms\<bar> \<le> 50
       else \<exists>m s. f (Some ms) = dec_digits m @ js ''m '' @ dec_digits s @ js ''s''
         \<and> s < 60 \<and> int (60 * m + s) = ms div 1000)"
proof -
  have "f = fmtDuration" using assms(1) durations_agree by auto
  moreover have "fmtDuration None = [ch_dash]" "fmtDuration (Some 0) = [ch_dash]" by (simp_all add: fmtDuration_def)
  moreover have "fmtDuration (Some 59950) = js ''60.0s''" by code_simp
  ultimately show ?thesis using fmtDuration_exact [OF assms(2,3)] by (simp only: simp_thms)
qed

theorem durations_printed_exactly_witness:
  "formatDuration_player (Some 999) = js ''999ms''
   \<and> (\<exists>t. formatDuration_share (Some 59999) = fixed1 t @ js ''s'' \<and> \<bar>100 * int t - 59999\<bar> \<le> 50)"
proof -
  have "show_int 999 @ js ''ms'' = js ''999ms''" by code_simp
  with durations_printed_exactly [of formatDuration_player 999] durations_printed_exactly [of formatDuration_share 59999]
  show ?thesis by simp
qed


section \<open>The shared replay\<close>

interpretation share: replay_host share_target 900 480
  by unfold_locales (auto simp: share_target_def page_loading_def page_events_def)

lemma share_target_done:
  "es \<noteq> [] \<Longrightarrow> rp_session p = query_done s \<Longrightarrow> rp_events p = query_done (r, es) \<Longrightarrow> share_target p"
  by (simp add: share_target_def page_loading_def page_events_def query_done_def)

text \<open>
  Property C23 (a shared replay needs no login). Let \<open>useEffect\<close> keep its contract. Where the storage can be read, a
  visitor without a valid login sees the same as one with it, except for the link to the
  full view of that very session, which is shown only while the login counts. What is
  shown of the session are its service, environment, duration and start. The events are played if they are
  new to the page at a render where both answers are there, so when the session is answered before its events.
  When the events are answered first, while the session is still loading, there is no player, and no later
  render with the same events brings one. A failed query for the session shows that the link is invalid,
  whatever else has been loaded.
\<close>

theorem shared_replay_public:
  assumes "effect_contract u" and "st_available (d_store d)"
    and "(host_step arr u share_target 900 480)\<^sup>*\<^sup>* replay_page_init p" and "es \<noteq> []" and "events_ref p \<noteq> Some r" and "q = share_react u w (query_done s, query_done (r, es)) p"
  shows "plays q es
    \<and> (\<exists>d'. PublicReplayPage formatTime q d = (d', Inr (Replay
          \<lparr>pv_debug_link = (if logged_in d then Some (SessionRoute (ps_id s)) else None),
           pv_meta = Some \<lparr>pm_service = ps_service_name s, pm_environment = shown (ps_environment s),
             pm_times = fmtDuration (ps_duration_ms s) @ js '' '' @ [ch_middot] @ js '' '' @ formatTime (ps_started_at s)\<rparr>,
           pv_player = True\<rparr>)))
    \<and> (\<forall>failed. qr_isError failed \<longrightarrow>
         (\<exists>d'. PublicReplayPage formatTime (share_react u w (failed, query_done (r, es)) q) d = (d', Inr LinkInvalid)))
    \<and> plays (fold (share_react u w) [(query_done s, query_pending), (query_done s, query_done (r, es))] replay_page_init) es
    \<and> (\<forall>results. (\<forall>x\<in>set results. map_option fst (qr_data (snd x)) = Some r) \<longrightarrow>
         rp_player (fold (share_react u w) ((query_pending, query_done (r, es)) # results) replay_page_init) = None)"
proof -
  note rq = share.react_queries [OF assms(1)]
  have t: "share_target (p\<lparr>rp_session := fst (query_done s, query_done (r, es)), rp_events := snd (query_done s, query_done (r, es))\<rparr>)"
    by (rule share_target_done [OF assms(4)]) simp_all
  have p: "plays q es"
    unfolding assms(6) share_react_def by (rule share.new_events_play [OF assms(1) share.reachable_plays [OF assms(1,3)] _ assms(5) t]) simp
  have q: "rp_session q = query_done s" "page_events q = es" "\<not> page_loading q"
    by (simp_all add: assms(6) share_react_def page_events_def page_loading_def rq query_done_def)
  obtain s' ok where a: "isAuthenticated (d_now d) (d_store d) = (s', Inr ok)"
    using isAuthenticated_total [OF assms(2), of "d_now d" thesis] by simp
  then have "logged_in d = ok" by (simp add: logged_in_def)
  have f: "plays (fold (share_react u w)
      [(query_done s, query_pending), (query_done s, query_done (r, es))] replay_page_init) es"
    unfolding share_react_def
    by (rule share.session_first_plays [OF assms(1)]) (rule share_target_done [OF assms(4)])
  note orders = f share.events_first_no_player [OF assms(1), folded share_react_def]
  show ?thesis
    by (intro conjI allI impI p orders)
       (use a \<open>logged_in d = ok\<close> q assms(4) in \<open>simp_all add: PublicReplayPage_def share_view_of_def
          public_meta_of_def durations_agree query_done_def share_react_def rq\<close>)
qed

definition demo_public :: PublicSession where
  "demo_public = \<lparr>ps_id = js ''s1'', ps_service_name = js ''web'', ps_environment = js ''test'',
     ps_started_at = js ''2024-05-01T10:00:00Z'', ps_duration_ms = Some 1500, ps_event_count = 5\<rparr>"

theorem shared_replay_public_witness:
  "plays (share_react plain_effect 640 (query_done demo_public, query_done (7, demo_visit)) replay_page_init) demo_visit"
proof -
  have "events_ref (replay_page_init :: share_page) \<noteq> Some 7"
    by (simp add: events_ref_def replay_page_init_def query_pending_def)
  moreover have "st_available (d_store demo_dash)" "demo_visit \<noteq> []"
    by (simp_all add: demo_dash_def demo_login_facts demo_visit_def)
  ultimately show ?thesis
    using shared_replay_public [OF plain_effect_contract _ rtranclp.rtrancl_refl _ _ refl, of demo_dash demo_visit 7 640 demo_public]
    by blast
qed

end
