(* ===== verification/UiParts.thy ===== *)
theory UiParts
  imports PageShell
begin

text \<open>
  The markup the pages are built from: the parts under \<open>components/ui\<close>, the sidebar
  (\<open>components/sidebar.tsx\<close>), the frame of the pages under \<open>/app\<close> (\<open>routes/app/_layout.tsx\<close>), the
  root component (\<open>routes/__root.tsx\<close>) and the last lines of \<open>main.tsx\<close>. A JSX expression is
  the tree of elements it creates; properties are lists of key and value, where spreading
  \<open>{...props}\<close> over properties that were given before overrides them. Functions among the properties
  stand for themselves in the pages' models and are not part of the tree. The class-name libraries
  (\<open>clsx\<close>, \<open>tailwind-merge\<close>, \<open>class-variance-authority\<close>) are a parameter; the components of other
  packages (\<open>Slot\<close>, icons, \<open>Link\<close>, \<open>Outlet\<close>) are elements named after them.
\<close>

section \<open>Elements and properties\<close>

type_synonym props = "(jsstr \<times> jsval) list"

datatype element =
    Host jsstr props "element list"
  | Component jsstr props "element list"
  | TextNode jsstr

text \<open>Reading a property, \<open>{ a, b, ...rest }\<close>, and \<open>{ ...a, ...b }\<close>.\<close>

definition get_prop :: "props \<Rightarrow> jsstr \<Rightarrow> jsval" where
  "get_prop ps k = (case map_of ps k of None \<Rightarrow> JUndef | Some v \<Rightarrow> v)"

definition without :: "jsstr list \<Rightarrow> props \<Rightarrow> props" where
  "without ks ps = filter (\<lambda>kv. fst kv \<notin> set ks) ps"

fun put_prop :: "jsstr \<Rightarrow> jsval \<Rightarrow> props \<Rightarrow> props" where
  "put_prop k v [] = [(k, v)]"
| "put_prop k v (kv # ps) = (if fst kv = k then (k, v) # ps else kv # put_prop k v ps)"

definition spread :: "props \<Rightarrow> props \<Rightarrow> props" where
  "spread a b = fold (\<lambda>kv. put_prop (fst kv) (snd kv)) b a"

definition cls :: "string \<Rightarrow> jsstr \<times> jsval" where
  "cls s = (js ''className'', jstr s)"

text \<open>
  The class-name libraries. A table of variants is a list of names with the classes of each of
  their values.
\<close>

type_synonym variants = "(jsstr \<times> (jsstr \<times> jsstr) list) list"

record class_lib =
  clsx :: "jsval \<Rightarrow> jsstr"
  twMerge :: "jsstr \<Rightarrow> jsstr"
  cva :: "jsstr \<Rightarrow> variants \<Rightarrow> (jsstr \<times> jsstr) list \<Rightarrow> props \<Rightarrow> jsstr"

definition cn :: "class_lib \<Rightarrow> jsval list \<Rightarrow> jsval" where
  "cn lib inputs = JStr (twMerge lib (clsx lib (JArr inputs)))"

section \<open>Badges and buttons\<close>

definition badgeVariants :: "class_lib \<Rightarrow> props \<Rightarrow> jsval" where
  "badgeVariants lib ps = JStr (cva lib
     (js ''inline-flex items-center justify-center rounded-md border px-2 py-0.5 text-xs font-medium '' @
      js ''w-fit whitespace-nowrap shrink-0 [&>svg]:size-3 gap-1 [&>svg]:pointer-events-none '' @
      js ''focus-visible:border-ring focus-visible:ring-ring/50 focus-visible:ring-[3px] '' @
      js ''aria-invalid:ring-destructive/20 dark:aria-invalid:ring-destructive/40 '' @
      js ''aria-invalid:border-destructive transition-[color,box-shadow] overflow-hidden'')
     [(js ''variant'', [
        (js ''default'', js ''border-transparent bg-primary text-primary-foreground [a&]:hover:bg-primary/90''),
        (js ''secondary'', js ''border-transparent bg-secondary text-secondary-foreground [a&]:hover:bg-secondary/90''),
        (js ''destructive'', (js ''border-transparent bg-destructive text-white [a&]:hover:bg-destructive/90 '' @
          js ''focus-visible:ring-destructive/20 dark:focus-visible:ring-destructive/40 '' @
          js ''dark:bg-destructive/60'')),
        (js ''outline'', js ''text-foreground [a&]:hover:bg-accent [a&]:hover:text-accent-foreground'')])]
     [(js ''variant'', js ''default'')]
     ps)"

definition Badge :: "class_lib \<Rightarrow> props \<Rightarrow> element list \<Rightarrow> element" where
  "Badge lib ps kids =
     (if truthy (get_prop ps (js ''asChild'')) then Component (js ''Slot'') else Host (js ''span''))
       (spread [(js ''data-slot'', jstr ''badge''),
          (js ''className'', cn lib [badgeVariants lib [(js ''variant'', get_prop ps (js ''variant''))], get_prop ps (js ''className'')])]
         (without [js ''className'', js ''variant'', js ''asChild''] ps)) kids"

definition buttonVariants :: "class_lib \<Rightarrow> props \<Rightarrow> jsval" where
  "buttonVariants lib ps = JStr (cva lib
     (js ''inline-flex items-center justify-center gap-2 whitespace-nowrap rounded-md text-sm '' @
      js ''font-medium transition-all disabled:pointer-events-none disabled:opacity-50 '' @
      js ''[&_svg]:pointer-events-none [&_svg:not([class*='size-'])]:size-4 shrink-0 [&_svg]:shrink-0 '' @
      js ''outline-none focus-visible:border-ring focus-visible:ring-ring/50 focus-visible:ring-[3px] '' @
      js ''aria-invalid:ring-destructive/20 dark:aria-invalid:ring-destructive/40 '' @
      js ''aria-invalid:border-destructive'')
     [(js ''variant'', [
        (js ''default'', js ''bg-primary text-primary-foreground shadow-xs hover:bg-primary/90''),
        (js ''destructive'', (js ''bg-destructive text-white shadow-xs hover:bg-destructive/90 '' @
          js ''focus-visible:ring-destructive/20 dark:focus-visible:ring-destructive/40 '' @
          js ''dark:bg-destructive/60'')),
        (js ''outline'', (js ''border bg-background shadow-xs hover:bg-accent hover:text-accent-foreground '' @
          js ''dark:bg-input/30 dark:border-input dark:hover:bg-input/50'')),
        (js ''secondary'', js ''bg-secondary text-secondary-foreground shadow-xs hover:bg-secondary/80''),
        (js ''ghost'', js ''hover:bg-accent hover:text-accent-foreground dark:hover:bg-accent/50''),
        (js ''link'', js ''text-primary underline-offset-4 hover:underline'')]),
      (js ''size'', [
        (js ''default'', js ''h-9 px-4 py-2 has-[>svg]:px-3''),
        (js ''sm'', js ''h-8 rounded-md gap-1.5 px-3 has-[>svg]:px-2.5''),
        (js ''lg'', js ''h-10 rounded-md px-6 has-[>svg]:px-4''),
        (js ''icon'', js ''size-9'')])]
     [(js ''variant'', js ''default''), (js ''size'', js ''default'')]
     ps)"

definition Button :: "class_lib \<Rightarrow> props \<Rightarrow> element list \<Rightarrow> element" where
  "Button lib ps kids =
     (if truthy (get_prop ps (js ''asChild'')) then Component (js ''Slot'') else Host (js ''button''))
       (spread [(js ''data-slot'', jstr ''button''),
          (js ''className'', cn lib [buttonVariants lib [(js ''variant'', get_prop ps (js ''variant'')),
             (js ''size'', get_prop ps (js ''size'')), (js ''className'', get_prop ps (js ''className''))]])]
         (without [js ''className'', js ''variant'', js ''size'', js ''asChild''] ps)) kids"


section \<open>Cards and inputs\<close>

definition Card :: "class_lib \<Rightarrow> props \<Rightarrow> element list \<Rightarrow> element" where
  "Card lib ps kids =
     Host (js ''div'') (spread [(js ''data-slot'', jstr ''card''),
       (js ''className'', cn lib [jstr ''bg-card text-card-foreground flex flex-col gap-6 rounded-xl border py-6 shadow-sm'', get_prop ps (js ''className'')])]
       (without [js ''className''] ps)) kids"

definition CardHeader :: "class_lib \<Rightarrow> props \<Rightarrow> element list \<Rightarrow> element" where
  "CardHeader lib ps kids =
     Host (js ''div'') (spread [(js ''data-slot'', jstr ''card-header''),
       (js ''className'', cn lib [JStr (js ''@container/card-header grid auto-rows-min grid-rows-[auto_auto] items-start gap-1.5 px-6 '' @
          js ''has-data-[slot=card-action]:grid-cols-[1fr_auto] [.border-b]:pb-6''), get_prop ps (js ''className'')])]
       (without [js ''className''] ps)) kids"

definition CardTitle :: "class_lib \<Rightarrow> props \<Rightarrow> element list \<Rightarrow> element" where
  "CardTitle lib ps kids =
     Host (js ''div'') (spread [(js ''data-slot'', jstr ''card-title''),
       (js ''className'', cn lib [jstr ''leading-none font-semibold'', get_prop ps (js ''className'')])]
       (without [js ''className''] ps)) kids"

definition CardDescription :: "class_lib \<Rightarrow> props \<Rightarrow> element list \<Rightarrow> element" where
  "CardDescription lib ps kids =
     Host (js ''div'') (spread [(js ''data-slot'', jstr ''card-description''),
       (js ''className'', cn lib [jstr ''text-muted-foreground text-sm'', get_prop ps (js ''className'')])]
       (without [js ''className''] ps)) kids"

definition CardAction :: "class_lib \<Rightarrow> props \<Rightarrow> element list \<Rightarrow> element" where
  "CardAction lib ps kids =
     Host (js ''div'') (spread [(js ''data-slot'', jstr ''card-action''),
       (js ''className'', cn lib [jstr ''col-start-2 row-span-2 row-start-1 self-start justify-self-end'', get_prop ps (js ''className'')])]
       (without [js ''className''] ps)) kids"

definition CardContent :: "class_lib \<Rightarrow> props \<Rightarrow> element list \<Rightarrow> element" where
  "CardContent lib ps kids =
     Host (js ''div'') (spread [(js ''data-slot'', jstr ''card-content''),
       (js ''className'', cn lib [jstr ''px-6'', get_prop ps (js ''className'')])]
       (without [js ''className''] ps)) kids"

definition CardFooter :: "class_lib \<Rightarrow> props \<Rightarrow> element list \<Rightarrow> element" where
  "CardFooter lib ps kids =
     Host (js ''div'') (spread [(js ''data-slot'', jstr ''card-footer''),
       (js ''className'', cn lib [jstr ''flex items-center px-6 [.border-t]:pt-6'', get_prop ps (js ''className'')])]
       (without [js ''className''] ps)) kids"

definition Input :: "class_lib \<Rightarrow> props \<Rightarrow> element" where
  "Input lib ps =
     Host (js ''input'') (spread [(js ''type'', get_prop ps (js ''type'')), (js ''data-slot'', jstr ''input''),
       (js ''className'', cn lib [
          JStr (js ''file:text-foreground placeholder:text-muted-foreground selection:bg-primary '' @
            js ''selection:text-primary-foreground dark:bg-input/30 border-input flex h-9 w-full min-w-0 '' @
            js ''rounded-md border bg-transparent px-3 py-1 text-base shadow-xs '' @
            js ''transition-[color,box-shadow] outline-none file:inline-flex file:h-7 file:border-0 '' @
            js ''file:bg-transparent file:text-sm file:font-medium disabled:pointer-events-none '' @
            js ''disabled:cursor-not-allowed disabled:opacity-50 md:text-sm''),
          jstr ''focus-visible:border-ring focus-visible:ring-ring/50 focus-visible:ring-[3px]'',
          JStr (js ''aria-invalid:ring-destructive/20 dark:aria-invalid:ring-destructive/40 '' @
            js ''aria-invalid:border-destructive''),
          get_prop ps (js ''className'')])]
       (without [js ''className'', js ''type''] ps)) []"


section \<open>Pagination\<close>

definition Pagination :: "class_lib \<Rightarrow> props \<Rightarrow> element list \<Rightarrow> element" where
  "Pagination lib ps kids =
     Host (js ''nav'') (spread [(js ''role'', jstr ''navigation''), (js ''aria-label'', jstr ''pagination''),
       (js ''data-slot'', jstr ''pagination''),
       (js ''className'', cn lib [jstr ''mx-auto flex w-full justify-center'', get_prop ps (js ''className'')])]
       (without [js ''className''] ps)) kids"

definition PaginationContent :: "class_lib \<Rightarrow> props \<Rightarrow> element list \<Rightarrow> element" where
  "PaginationContent lib ps kids =
     Host (js ''ul'') (spread [(js ''data-slot'', jstr ''pagination-content''),
       (js ''className'', cn lib [jstr ''flex flex-row items-center gap-1'', get_prop ps (js ''className'')])]
       (without [js ''className''] ps)) kids"

definition PaginationItem :: "props \<Rightarrow> element list \<Rightarrow> element" where
  "PaginationItem ps kids = Host (js ''li'') (spread [(js ''data-slot'', jstr ''pagination-item'')] ps) kids"

text \<open>\<open>size = "icon"\<close> applies to a missing size only.\<close>

definition PaginationLink :: "class_lib \<Rightarrow> props \<Rightarrow> element list \<Rightarrow> element" where
  "PaginationLink lib ps kids =
     (let isActive = get_prop ps (js ''isActive'');
          size = (if get_prop ps (js ''size'') = JUndef then jstr ''icon'' else get_prop ps (js ''size''))
      in Host (js ''a'') (spread [
           (js ''aria-current'', if truthy isActive then jstr ''page'' else JUndef),
           (js ''data-slot'', jstr ''pagination-link''),
           (js ''data-active'', isActive),
           (js ''className'', cn lib [buttonVariants lib [
              (js ''variant'', if truthy isActive then jstr ''outline'' else jstr ''ghost''),
              (js ''size'', size)], get_prop ps (js ''className'')])]
           (without [js ''className'', js ''isActive'', js ''size''] ps)) kids)"

definition PaginationPrevious :: "class_lib \<Rightarrow> props \<Rightarrow> element" where
  "PaginationPrevious lib ps =
     PaginationLink lib (spread [(js ''aria-label'', jstr ''Go to previous page''), (js ''size'', jstr ''default''),
       (js ''className'', cn lib [jstr ''gap-1 px-2.5 sm:pl-2.5'', get_prop ps (js ''className'')])]
       (without [js ''className''] ps))
       [Component (js ''ChevronLeftIcon'') [] [],
        Host (js ''span'') [cls ''hidden sm:block''] [TextNode (js ''Previous'')]]"

definition PaginationNext :: "class_lib \<Rightarrow> props \<Rightarrow> element" where
  "PaginationNext lib ps =
     PaginationLink lib (spread [(js ''aria-label'', jstr ''Go to next page''), (js ''size'', jstr ''default''),
       (js ''className'', cn lib [jstr ''gap-1 px-2.5 sm:pr-2.5'', get_prop ps (js ''className'')])]
       (without [js ''className''] ps))
       [Host (js ''span'') [cls ''hidden sm:block''] [TextNode (js ''Next'')],
        Component (js ''ChevronRightIcon'') [] []]"

definition PaginationEllipsis :: "class_lib \<Rightarrow> props \<Rightarrow> element" where
  "PaginationEllipsis lib ps =
     Host (js ''span'') (spread [(js ''aria-hidden'', JBool True), (js ''data-slot'', jstr ''pagination-ellipsis''),
       (js ''className'', cn lib [jstr ''flex size-9 items-center justify-center'', get_prop ps (js ''className'')])]
       (without [js ''className''] ps))
       [Component (js ''MoreHorizontalIcon'') [cls ''size-4''] [],
        Host (js ''span'') [cls ''sr-only''] [TextNode (js ''More pages'')]]"


section \<open>The frame of the pages\<close>

definition NavItem :: "jsstr \<Rightarrow> jsstr \<Rightarrow> jsstr \<Rightarrow> bool \<Rightarrow> element" where
  "NavItem dest icon label exact =
     Component (js ''Link'')
       [(js ''to'', JStr dest),
        (js ''activeProps'', JObj [cls ''bg-sidebar-accent text-sidebar-primary font-medium'']),
        (js ''inactiveProps'', JObj [cls ''text-sidebar-foreground hover:bg-sidebar-accent/50'']),
        (js ''activeOptions'', if exact then JObj [(js ''exact'', JBool True)] else JUndef)]
       [Host (js ''span'') [cls ''flex items-center gap-3 rounded-md px-3 py-2 text-sm transition-colors'']
         [Component icon [cls ''h-4 w-4 shrink-0''] [], TextNode label]]"

definition Sidebar :: element where
  "Sidebar =
     Host (js ''aside'') [cls ''w-56 h-screen flex flex-col bg-sidebar border-r border-sidebar-border shrink-0'']
      [Host (js ''div'') [cls ''flex items-center gap-3 h-16 px-4 border-b border-sidebar-border'']
        [Host (js ''div'') [cls ''w-9 h-9 rounded-lg bg-primary/10 flex items-center justify-center shrink-0'']
          [Component (js ''Film'') [cls ''h-5 w-5 text-primary''] []],
         Host (js ''div'') [cls ''min-w-0'']
          [Host (js ''p'') [cls ''font-semibold text-sm text-sidebar-foreground leading-tight'']
            [TextNode (js ''BatRewind'')],
           Host (js ''p'') [cls ''text-xs text-muted-foreground''] [TextNode (js ''Session Replay'')]]],
       Host (js ''nav'') [cls ''flex-1 px-2 py-4 space-y-0.5'']
        [NavItem (js ''/app/'') (js ''LayoutDashboard'') (js ''Overview'') True,
         NavItem (js ''/app/sessions'') (js ''MonitorPlay'') (js ''Sessions'') False]]"

definition AppLayout :: element where
  "AppLayout =
     Host (js ''div'') [cls ''flex h-screen overflow-hidden'']
      [Sidebar,
       Host (js ''div'') [cls ''flex flex-col flex-1 min-w-0'']
        [Component (js ''Header'') [] [],
         Component (js ''FailedIngestBanner'') [] [],
         Host (js ''main'') [cls ''flex-1 overflow-auto''] [Component (js ''Outlet'') [] []]]]"

text \<open>The fragment of the root component is the list of its children.\<close>

definition RootComponent :: "element list" where
  "RootComponent =
     [Component (js ''QueryClientProvider'') [(js ''client'', jstr ''queryClient'')] [Component (js ''Outlet'') [] []],
      Component (js ''TanStackRouterDevtools'') [] []]"

text \<open>
  The end of \<open>main.tsx\<close>, given the content of the element \<open>root\<close> (\<open>None\<close> when the page has no such
  element): what is rendered into it, if anything.
\<close>

definition main_render :: "jsstr option \<Rightarrow> element option res" where
  "main_render innerHTML =
     (case innerHTML of
        None \<Rightarrow> Inl TypeError
      | Some html \<Rightarrow> Inr (if html = []
          then Some (Component (js ''StrictMode'') []
                 [Component (js ''RouterProvider'') [(js ''router'', jstr ''router'')] []])
          else None))"


section \<open>What the parts show\<close>

lemma put_prop_lookup: "map_of (put_prop k v ps) x = (if x = k then Some v else map_of ps x)"
  by (induction ps) auto

lemma spread_lookup:
  "distinct (map fst b) \<Longrightarrow> map_of (spread a b) x = (case map_of b x of None \<Rightarrow> map_of a x | Some v \<Rightarrow> Some v)"
proof (induction b arbitrary: a)
  case (Cons kv b)
  then have "fst kv \<notin> dom (map_of b)" by (simp add: dom_map_of_conv_image_fst)
  with Cons show ?case
    by (cases kv) (auto simp: spread_def put_prop_lookup split: option.splits)
qed (simp add: spread_def)

lemma without_lookup: "map_of (without ks ps) x = (if x \<in> set ks then None else map_of ps x)"
  by (induction ps) (auto simp: without_def)

lemma distinct_without: "distinct (map fst ps) \<Longrightarrow> distinct (map fst (without ks ps))"
  unfolding without_def by (rule distinct_map_filter)

fun props_of :: "element \<Rightarrow> props" where
  "props_of (Host t ps kids) = ps"
| "props_of (Component c ps kids) = ps"
| "props_of (TextNode s) = []"

text \<open>
  A link of the pagination is announced as the current page exactly when it is active, unless the
  caller says otherwise; what the caller passes on, such as \<open>aria-disabled\<close>, reaches the element.
\<close>

lemma pagination_link_props:
  assumes "distinct (map fst ps)"
  shows "get_prop (props_of (PaginationLink lib ps kids)) (js ''aria-current'') =
      (case map_of ps (js ''aria-current'') of Some v \<Rightarrow> v
       | None \<Rightarrow> if truthy (get_prop ps (js ''isActive'')) then jstr ''page'' else JUndef)"
    and "get_prop (props_of (PaginationLink lib ps kids)) (js ''aria-disabled'') = get_prop ps (js ''aria-disabled'')"
  by (simp_all add: PaginationLink_def Let_def get_prop_def spread_lookup distinct_without assms without_lookup
      split: option.split)

lemma spread_distinct: "distinct (map fst a) \<Longrightarrow> distinct (map fst (spread a b))"
proof (induction b arbitrary: a)
  case (Cons kv b)
  have "fst ` set (put_prop k v ps) = insert k (fst ` set ps)" for k v ps
    by (induction ps) auto
  then have "distinct (map fst ps) \<Longrightarrow> distinct (map fst (put_prop k v ps))" for k v ps
    by (induction ps) auto
  with Cons show ?case by (simp add: spread_def)
qed (simp add: spread_def)

lemma link_passes:
  assumes "distinct (map fst ps)"
    and "k \<notin> {js ''aria-current'', js ''data-slot'', js ''data-active'', js ''className'', js ''isActive'', js ''size''}"
  shows "get_prop (props_of (PaginationLink lib ps kids)) k = get_prop ps k"
  using assms(2)
  by (simp add: PaginationLink_def Let_def get_prop_def spread_lookup distinct_without assms(1) without_lookup
      split: option.split)

text \<open>The two buttons of the session list keep their labels and are announced as disabled as asked.\<close>

lemma pagination_buttons_announce:
  assumes "distinct (map fst ps)" and "map_of ps (js ''aria-label'') = None"
  shows "get_prop (props_of (PaginationPrevious lib ps)) (js ''aria-label'') = jstr ''Go to previous page''"
    and "get_prop (props_of (PaginationNext lib ps)) (js ''aria-label'') = jstr ''Go to next page''"
    and "get_prop (props_of (PaginationPrevious lib ps)) (js ''aria-disabled'') = get_prop ps (js ''aria-disabled'')"
    and "get_prop (props_of (PaginationNext lib ps)) (js ''aria-disabled'') = get_prop ps (js ''aria-disabled'')"
proof -
  have d: "distinct (map fst (spread [(js ''aria-label'', x), (js ''size'', y), (js ''className'', z)] b))" for x y z b
    by (rule spread_distinct) simp
  show "get_prop (props_of (PaginationPrevious lib ps)) (js ''aria-label'') = jstr ''Go to previous page''"
    and "get_prop (props_of (PaginationNext lib ps)) (js ''aria-label'') = jstr ''Go to next page''"
    and "get_prop (props_of (PaginationPrevious lib ps)) (js ''aria-disabled'') = get_prop ps (js ''aria-disabled'')"
    and "get_prop (props_of (PaginationNext lib ps)) (js ''aria-disabled'') = get_prop ps (js ''aria-disabled'')"
    unfolding PaginationPrevious_def PaginationNext_def
    by (subst link_passes [OF d], simp,
        simp add: get_prop_def spread_lookup distinct_without assms without_lookup split: option.split)+
qed

text \<open>The links in a tree, in the order of the page.\<close>

fun links :: "element \<Rightarrow> jsval list" where
  "links (Host t ps kids) = concat (map links kids)"
| "links (Component c ps kids) =
     (if c = js ''Link'' then [get_prop ps (js ''to'')] else []) @ concat (map links kids)"
| "links (TextNode s) = []"

text \<open>
  The sidebar, which every page under \<open>/app\<close> shows, has exactly two links, to pages under the guarded
  layout. The first is written with the trailing slash the router ignores.
\<close>

lemma sidebar_links:
  "links AppLayout = [JStr (route_path OverviewRoute @ js ''/''), JStr (route_path SessionsRoute)]"
proof -
  have "js ''/app'' @ js ''/'' = js ''/app/''" by code_simp
  then show ?thesis by (simp add: AppLayout_def Sidebar_def NavItem_def get_prop_def cls_def)
qed

lemma main_renders_once: "main_render (Some html) = Inr (Some e) \<longleftrightarrow> html = [] \<and>
    e = Component (js ''StrictMode'') [] [Component (js ''RouterProvider'') [(js ''router'', jstr ''router'')] []]"
  by (auto simp: main_render_def)

end
