(* ===== verification/PageMarkup.thy ===== *)
theory PageMarkup
  imports PageShare UiParts
begin

text \<open>
  The markup of the pages: the tree of elements each page returns for what \<open>PageShell\<close>, \<open>PageSessions\<close>,
  \<open>PagePlayer\<close> and \<open>PageShare\<close> compute, built from the parts of \<open>UiParts\<close>. As there, functions among the properties
  are not part of the tree; keys and references are not properties; neighbouring texts are one text. The lemmas
  read the trees: which texts a page shows, in which order, and which of its controls are disabled.
\<close>

section \<open>Conditional children\<close>

text \<open>\<open>{c && <E/>}\<close>, and an element for a value that may be missing.\<close>

definition shownIf :: "bool \<Rightarrow> element \<Rightarrow> element list" where
  "shownIf b e = (if b then [e] else [])"

definition each :: "('a \<Rightarrow> element) \<Rightarrow> 'a option \<Rightarrow> element list" where
  "each f v = (case v of None \<Rightarrow> [] | Some x \<Rightarrow> [f x])"

definition divE :: "string \<Rightarrow> element list \<Rightarrow> element" where
  "divE c kids = Host (js ''div'') [cls c] kids"

definition spanE :: "string \<Rightarrow> element list \<Rightarrow> element" where
  "spanE c kids = Host (js ''span'') [cls c] kids"

definition pE :: "string \<Rightarrow> jsstr \<Rightarrow> element" where
  "pE c s = Host (js ''p'') [cls c] [TextNode s]"

definition iconE :: "string \<Rightarrow> string \<Rightarrow> element" where
  "iconE name c = Component (js name) [cls c] []"

text \<open>A JavaScript value as a child: texts and numbers are shown, objects are refused by React.\<close>

fun child :: "jsval \<Rightarrow> element list res" where
  "child (JStr s) = Inr [TextNode s]"
| "child (JNum n) = Inr [TextNode (num_to_string n)]"
| "child (JArr []) = Inr []"
| "child (JArr (v # vs)) = bindR (child v) (\<lambda>a. bindR (child (JArr vs)) (\<lambda>b. Inr (a @ b)))"
| "child (JObj kvs) = Inl (Thrown ''Objects are not valid as a React child'')"
| "child _ = Inr []"


section \<open>Login\<close>

definition field_label :: "string \<Rightarrow> element" where
  "field_label s = Host (js ''label'') [cls ''text-xs font-medium text-muted-foreground uppercase tracking-wide''] [TextNode (js s)]"

definition LoginPage_markup :: "class_lib \<Rightarrow> login_page \<Rightarrow> element" where
  "LoginPage_markup lib p =
     (case login_view p of (err, label, off) \<Rightarrow>
      divE ''flex min-h-screen items-center justify-center p-4''
       [divE ''w-full max-w-sm space-y-6''
         [divE ''text-center space-y-2''
           [divE ''w-14 h-14 rounded-2xl bg-primary/10 flex items-center justify-center mx-auto'' [iconE ''Film'' ''h-7 w-7 text-primary''],
            Host (js ''h1'') [cls ''text-2xl font-bold text-foreground''] [TextNode (js ''BatRewind'')],
            pE ''text-sm text-muted-foreground'' (js ''Sign in to your account'')],
          Card lib [cls ''p-6 space-y-4 border-border/50 bg-card/50 backdrop-blur-sm'']
           [Host (js ''form'') [cls ''space-y-4'']
             ([divE ''space-y-1''
                [field_label ''Email'',
                 Input lib [(js ''type'', jstr ''email''), (js ''placeholder'', jstr ''admin@example.com''), (js ''value'', JStr (lg_email p)),
                   (js ''required'', JBool True), (js ''autoFocus'', JBool True)]],
               divE ''space-y-1''
                [field_label ''Password'',
                 Input lib [(js ''type'', jstr ''password''), (js ''placeholder'', JStr (replicate 8 0x2022)), (js ''value'', JStr (lg_password p)),
                   (js ''required'', JBool True)]]]
              @ each (pE ''text-sm text-destructive'') err
              @ [Button lib [(js ''type'', jstr ''submit''), cls ''w-full'', (js ''disabled'', JBool off)] [TextNode label]])]]])"


section \<open>Header, theme button and banner\<close>

definition ThemeToggle_markup :: "class_lib \<Rightarrow> jsstr \<Rightarrow> element" where
  "ThemeToggle_markup lib theme =
     Button lib [(js ''variant'', jstr ''ghost''), (js ''size'', jstr ''sm''), cls ''h-8 w-8 p-0'']
       [case theme_icon_of theme of Sun \<Rightarrow> iconE ''Sun'' ''h-4 w-4'' | Moon \<Rightarrow> iconE ''Moon'' ''h-4 w-4'']"

definition user_markup :: "jsval \<times> jsval \<Rightarrow> element res" where
  "user_markup u =
     bindR (child (fst u)) (\<lambda>name. bindR (child (snd u)) (\<lambda>role. Inr
       (divE ''text-right''
         [Host (js ''p'') [cls ''text-xs font-medium text-foreground''] name,
          Host (js ''p'') [cls ''text-xs text-muted-foreground capitalize''] role])))"

definition Header_markup :: "class_lib \<Rightarrow> dash \<Rightarrow> element res" where
  "Header_markup lib d =
     bindR (header_user d) (\<lambda>user.
     bindR (case user of None \<Rightarrow> Inr [] | Some u \<Rightarrow> bindR (user_markup u) (\<lambda>e. Inr [e])) (\<lambda>us. Inr
       (Host (js ''header'') [cls ''h-16 shrink-0 border-b border-border bg-card flex items-center justify-between px-6'']
         [Host (js ''div'') [] [],
          divE ''flex items-center gap-3''
           ([Component (js ''ThemeToggle'') [] []] @ us
            @ [Button lib [(js ''variant'', jstr ''ghost''), (js ''size'', jstr ''sm''), cls ''gap-2'']
                 [iconE ''LogOut'' ''h-4 w-4'', TextNode (js ''Logout'')]])])))"

definition FailedIngestBanner_markup :: "class_lib \<Rightarrow> FailedIngest list option \<Rightarrow> bool \<Rightarrow> element option" where
  "FailedIngestBanner_markup lib dat isPending =
     map_option (\<lambda>b.
       divE ''bg-destructive/10 border-b border-destructive/30 px-6 py-3 flex items-center justify-between gap-4''
        [divE ''flex items-center gap-2 text-destructive text-sm''
          [iconE ''AlertTriangle'' ''h-4 w-4 shrink-0'',
           Host (js ''span'') [] [Host (js ''strong'') [] [TextNode (dec_digits (bn_count b))], TextNode (bn_text b)]],
         Button lib [(js ''size'', jstr ''sm''), (js ''variant'', jstr ''destructive''), (js ''disabled'', JBool (bn_disabled b)), cls ''gap-2 shrink-0'']
          [iconE ''RefreshCw'' ''h-3.5 w-3.5'', TextNode (bn_button b)]])
       (failed_banner dat isPending)"


section \<open>The list of sessions\<close>

definition filter_form :: "class_lib \<Rightarrow> sessions_page \<Rightarrow> element" where
  "filter_form lib p =
     Host (js ''form'') [cls ''bg-card border border-border rounded-lg p-4 space-y-3'']
      [divE ''grid grid-cols-1 sm:grid-cols-3 gap-3''
        [divE ''space-y-1''
          [field_label ''Identifier'',
           Input lib [(js ''placeholder'', jstr ''user@example.com or ID''), (js ''value'', JStr (sp_identifier p))]],
         divE ''space-y-1''
          [field_label ''Service'',
           Input lib [(js ''placeholder'', jstr ''web, app, ...''), (js ''value'', JStr (sp_serviceName p))]],
         divE ''space-y-1''
          [field_label ''Environment'',
           Host (js ''select'')
            [(js ''className'', JStr (js ''flex h-9 w-full rounded-md border border-input bg-transparent px-3 py-1 text-sm shadow-xs outline-none '' @
                js ''focus-visible:border-ring focus-visible:ring-ring/50 focus-visible:ring-[3px] dark:bg-input/30'')),
             (js ''value'', JStr (sp_environment p))]
            (Host (js ''option'') [(js ''value'', jstr '''')] [TextNode (js ''All'')]
             # map (\<lambda>env. Host (js ''option'') [(js ''value'', JStr env)] [TextNode env]) ENVIRONMENTS)]],
       divE ''flex gap-2 pt-1''
        (Button lib [(js ''type'', jstr ''submit''), (js ''size'', jstr ''sm''), cls ''gap-2'']
           [iconE ''Search'' ''h-3.5 w-3.5'', TextNode (js ''Apply'')]
         # shownIf (hasActiveFilters p)
             (Button lib [(js ''type'', jstr ''button''), (js ''size'', jstr ''sm''), (js ''variant'', jstr ''ghost'')] [TextNode (js ''Clear'')]))]"

definition list_row_markup :: "class_lib \<Rightarrow> list_row \<Rightarrow> element" where
  "list_row_markup lib r =
     Host (js ''button'')
      [(js ''type'', jstr ''button''),
       (js ''className'', JStr (js ''w-full text-left bg-card border border-border rounded-lg px-4 py-3 '' @
          js ''hover:border-primary/50 hover:bg-card/80 transition-colors group''))]
      [divE ''flex items-start justify-between gap-4''
        [divE ''min-w-0 space-y-1''
          (divE ''flex items-center gap-2 flex-wrap''
            ([spanE ''flex items-center gap-1.5 text-sm font-medium text-foreground''
                [iconE ''User'' ''h-3.5 w-3.5 text-muted-foreground shrink-0'', TextNode (sr_label r)],
              Badge lib [(js ''variant'', jstr ''secondary''), cls ''text-xs''] [TextNode (sr_service r)]]
             @ each (\<lambda>(env, col). Host (js ''span'') [(js ''className'', JStr (js ''text-xs '' @ col))] [TextNode env]) (sr_environment r)
             @ each (\<lambda>(label, col). Badge lib [(js ''variant'', jstr ''outline''), (js ''className'', JStr (js ''text-xs '' @ col))]
                 [TextNode label]) (sr_badge r))
           # each (\<lambda>url. divE ''flex items-center gap-1.5 text-xs text-muted-foreground''
               [iconE ''Globe'' ''h-3 w-3 shrink-0'', spanE ''truncate max-w-xs'' [TextNode url]]) (sr_url r)),
         divE ''shrink-0 text-right space-y-1''
          [divE ''flex items-center gap-1.5 text-xs text-muted-foreground justify-end''
            [iconE ''Clock'' ''h-3 w-3'', TextNode (sr_duration r)],
           pE ''text-xs text-muted-foreground'' (sr_time r),
           pE ''text-xs text-muted-foreground'' (sr_events r)]]]"

fun sessions_list_markup :: "class_lib \<Rightarrow> sessions_view \<Rightarrow> element" where
  "sessions_list_markup lib (Loading n) =
     divE ''space-y-3'' (replicate n (divE ''h-20 rounded-lg bg-card border border-border animate-pulse'' []))"
| "sessions_list_markup lib (NoSessions filtered) =
     divE ''flex flex-col items-center justify-center py-20 text-center''
      ([iconE ''MonitorPlay'' ''h-10 w-10 text-muted-foreground/40 mb-3'',
        pE ''text-sm text-muted-foreground'' (js ''No sessions found'')]
       @ shownIf filtered (Host (js ''button'') [cls ''text-xs text-primary mt-1 hover:underline''] [TextNode (js ''Clear filters'')]))"
| "sessions_list_markup lib (Rows rs) = divE ''space-y-2'' (map (list_row_markup lib) rs)"

definition arrow_props :: "bool \<Rightarrow> props" where
  "arrow_props off = [(js ''aria-disabled'', JBool off), (js ''className'', if off then jstr ''pointer-events-none opacity-50'' else jstr '''')]"

definition pagination_markup :: "class_lib \<Rightarrow> pagination \<Rightarrow> element" where
  "pagination_markup lib g =
     Pagination lib [] [PaginationContent lib []
       [PaginationItem [] [PaginationPrevious lib (arrow_props (pg_previous_disabled g))],
        PaginationItem [] [spanE ''px-3 text-sm text-muted-foreground'' [TextNode (pg_text g)]],
        PaginationItem [] [PaginationNext lib (arrow_props (pg_next_disabled g))]]]"

definition SessionsPage_markup ::
    "class_lib \<Rightarrow> (jsstr \<Rightarrow> jsstr) \<Rightarrow> bool \<Rightarrow> (ReplaySession list \<times> nat) option \<Rightarrow> sessions_page \<Rightarrow> element"
where
  "SessionsPage_markup lib formatTime isLoading dat p =
     divE ''p-6 space-y-5''
      ([divE ''flex items-center justify-between gap-4''
         [Host (js ''div'') []
           (Host (js ''h1'') [cls ''text-xl font-semibold text-foreground''] [TextNode (js ''Sessions'')]
            # each (pE ''text-xs text-muted-foreground mt-0.5'') (sessions_heading (total_of dat))),
          Button lib [(js ''variant'', jstr ''outline''), (js ''size'', jstr ''sm''), cls ''gap-2'']
           ([iconE ''SlidersHorizontal'' ''h-3.5 w-3.5'', TextNode (js ''Filters'')]
            @ shownIf (hasActiveFilters p) (spanE ''ml-1 h-1.5 w-1.5 rounded-full bg-primary'' []))]]
       @ shownIf (sp_showFilters p) (filter_form lib p)
       @ [sessions_list_markup lib (sessions_list_view formatTime isLoading dat p)]
       @ each (pagination_markup lib) (pagination_view (total_of dat) p))"


section \<open>The overview\<close>

definition stat_card_markup :: "class_lib \<Rightarrow> string \<Rightarrow> stat_card \<Rightarrow> element" where
  "stat_card_markup lib icon c =
     Card lib []
      [CardHeader lib [cls ''pb-2'']
        [divE ''flex items-center justify-between''
          [CardTitle lib [cls ''text-sm font-medium text-muted-foreground''] [TextNode (sc_label c)],
           Component (js icon) [(js ''className'', JStr (js ''h-4 w-4 '' @ (if sc_highlight c then js ''text-destructive'' else js ''text-muted-foreground'')))] []]],
       CardContent lib []
        [Host (js ''p'') [(js ''className'', JStr (js ''text-3xl font-bold '' @ (if sc_highlight c then js ''text-destructive'' else js ''text-foreground'')))]
          [TextNode (sc_value c)]]]"

fun panel_markup :: "element \<Rightarrow> element list \<Rightarrow> ('a list \<Rightarrow> element list) \<Rightarrow> (element list \<Rightarrow> element list) \<Rightarrow> 'a panel \<Rightarrow> element list" where
  "panel_markup bar none items wrap (Skeleton n) = wrap (replicate n bar)"
| "panel_markup bar none items wrap EmptyPanel = none"
| "panel_markup bar none items wrap (Panel xs) = items xs"

definition recent_row_markup :: "recent_row \<Rightarrow> element" where
  "recent_row_markup r =
     Host (js ''button'')
      [(js ''type'', jstr ''button''),
       (js ''className'', JStr (js ''w-full flex items-center justify-between px-6 py-3 border-b border-border/50 last:border-0 '' @
          js ''hover:bg-secondary/30 transition-colors text-left''))]
      [divE ''flex items-center gap-3 min-w-0''
        [iconE ''User'' ''h-3.5 w-3.5 text-muted-foreground shrink-0'',
         divE ''min-w-0''
          (pE ''text-sm text-foreground truncate'' (rr_label r)
           # each (\<lambda>url. divE ''flex items-center gap-1 text-xs text-muted-foreground''
               [iconE ''Globe'' ''h-3 w-3 shrink-0'', spanE ''truncate max-w-[200px]'' [TextNode url]]) (rr_url r))],
       divE ''shrink-0 text-right ml-4''
        [pE ''text-xs text-muted-foreground'' (rr_time r), pE ''text-xs text-muted-foreground'' (rr_duration r)]]"

definition DashboardPage_markup :: "class_lib \<Rightarrow> (jsstr \<Rightarrow> jsstr) \<Rightarrow> Stats query_result \<Rightarrow> element" where
  "DashboardPage_markup lib formatTime q =
     (case DashboardPage formatTime q of (cards, recent, services) \<Rightarrow>
      divE ''p-6 space-y-6''
       [Host (js ''div'') []
         [Host (js ''h1'') [cls ''text-xl font-semibold text-foreground''] [TextNode (js ''Overview'')],
          pE ''text-sm text-muted-foreground mt-0.5'' (js ''Session replay metrics'')],
        divE ''grid grid-cols-2 lg:grid-cols-4 gap-4''
         (panel_markup (divE ''h-28 rounded-xl bg-card border border-border animate-pulse'' []) []
           (\<lambda>cs. map2 (stat_card_markup lib) [''MonitorPlay'', ''Activity'', ''Clock'', ''AlertTriangle''] cs) (\<lambda>bars. bars) cards),
        divE ''grid grid-cols-1 lg:grid-cols-3 gap-4''
         [divE ''lg:col-span-2''
           [Card lib []
             [CardHeader lib [cls ''border-b border-border pb-4'']
               [CardTitle lib [cls ''text-sm font-medium''] [TextNode (js ''Recent sessions'')]],
              CardContent lib [cls ''p-0'']
               (panel_markup (divE ''h-12 rounded bg-secondary animate-pulse'' [])
                 [divE ''flex flex-col items-center justify-center py-10 text-center''
                   [iconE ''MonitorPlay'' ''h-8 w-8 text-muted-foreground/30 mb-2'',
                    pE ''text-sm text-muted-foreground'' (js ''No sessions yet'')]]
                 (map recent_row_markup) (\<lambda>bars. [divE ''p-4 space-y-3'' bars]) recent)]],
          Host (js ''div'') []
           [Card lib []
             [CardHeader lib [cls ''border-b border-border pb-4'']
               [divE ''flex items-center gap-2''
                 [iconE ''Server'' ''h-4 w-4 text-muted-foreground'',
                  CardTitle lib [cls ''text-sm font-medium''] [TextNode (js ''Active services'')]]],
              CardContent lib [cls ''pt-4'']
               (panel_markup (divE ''h-6 rounded bg-secondary animate-pulse'' [])
                 [pE ''text-sm text-muted-foreground'' (js ''No services yet'')]
                 (\<lambda>svcs. [divE ''flex flex-wrap gap-2'' (map (\<lambda>svc. Badge lib [(js ''variant'', jstr ''secondary'')] [TextNode svc]) svcs)])
                 (\<lambda>bars. [divE ''space-y-2'' bars]) services)]]]])"


section \<open>The shared replay\<close>

definition debug_door :: "class_lib \<Rightarrow> element" where
  "debug_door lib =
     divE ''flex items-center justify-between gap-4 rounded-lg border border-primary/30 bg-accent px-4 py-3''
      [divE ''flex items-center gap-2 text-sm text-accent-foreground''
        [iconE ''ShieldCheck'' ''h-4 w-4'',
         TextNode (js ''You're signed in '' @ [ch_dash] @ js '' open the full debug view with console & identity.'')],
       Button lib [(js ''size'', jstr ''sm'')] [TextNode (js ''Open debug view'')]]"

definition public_meta_markup :: "class_lib \<Rightarrow> public_meta \<Rightarrow> element" where
  "public_meta_markup lib m =
     divE ''flex flex-wrap items-center gap-3 text-sm''
      ([Badge lib [(js ''variant'', jstr ''secondary'')] [TextNode (pm_service m)]]
       @ each (\<lambda>env. spanE ''text-xs text-muted-foreground'' [TextNode env]) (pm_environment m)
       @ [spanE ''flex items-center gap-1.5 text-xs text-muted-foreground ml-auto''
            [iconE ''Clock'' ''h-3.5 w-3.5'', TextNode (pm_times m)]])"

fun share_main_markup :: "class_lib \<Rightarrow> share_view \<Rightarrow> element list" where
  "share_main_markup lib LinkInvalid =
     [divE ''flex flex-col items-center justify-center py-24 text-center''
       [iconE ''Lock'' ''h-10 w-10 text-muted-foreground/40 mb-3'',
        pE ''text-sm text-muted-foreground'' (js ''This replay link is invalid or has been revoked.'')]]"
| "share_main_markup lib ShareLoading = [divE ''h-[480px] rounded-lg bg-card animate-pulse'' []]"
| "share_main_markup lib (Replay v) =
     each (\<lambda>_. debug_door lib) (pv_debug_link v)
     @ each (public_meta_markup lib) (pv_meta v)
     @ [if pv_player v then divE ''w-full rounded-lg overflow-hidden border border-border'' []
        else Host (js ''div'')
          [(js ''className'', JStr (js ''flex items-center justify-center h-[480px] bg-card border border-border rounded-lg '' @
              js ''text-sm text-muted-foreground''))]
          [TextNode (js ''No replay events available.'')],
        pE ''text-center text-xs text-muted-foreground pt-2''
          (js ''Sensitive data (console logs, user identity) is hidden on shared links.'')]"

definition PublicReplayPage_markup :: "class_lib \<Rightarrow> share_view \<Rightarrow> element" where
  "PublicReplayPage_markup lib v =
     divE ''min-h-screen bg-background flex flex-col''
      [Host (js ''header'') [cls ''border-b border-border px-6 py-3 flex items-center gap-2'']
        [iconE ''MonitorPlay'' ''h-5 w-5 text-primary'',
         spanE ''font-semibold text-foreground'' [TextNode (js ''BatRewind'')],
         spanE ''text-xs text-muted-foreground ml-1'' [TextNode (js ''shared replay'')]],
       Host (js ''main'') [cls ''flex-1 w-full max-w-5xl mx-auto px-6 py-6 space-y-4''] (share_main_markup lib v)]"


section \<open>The player page\<close>

fun icon_name :: "icon \<Rightarrow> string" where
  "icon_name GlobeIcon = ''Globe''"
| "icon_name MonitorIcon = ''Monitor''"
| "icon_name TabletIcon = ''Tablet''"
| "icon_name SmartphoneIcon = ''Smartphone''"
| "icon_name LanguagesIcon = ''Languages''"
| "icon_name ClockIcon = ''Clock''"

definition DeviceMeta_markup :: "icon \<times> (icon \<times> jsstr) list \<Rightarrow> element" where
  "DeviceMeta_markup dm =
     Host (js ''div'')
      [(js ''className'', JStr (js ''bg-card border border-border rounded-lg px-4 py-2.5 flex flex-wrap items-center '' @
          js ''gap-x-4 gap-y-2 text-xs text-muted-foreground''))]
      (spanE ''flex items-center gap-1.5 text-foreground font-medium''
        [iconE (icon_name (fst dm)) ''h-3.5 w-3.5 text-muted-foreground'', TextNode (js ''Device'')]
       # map (\<lambda>(i, label). spanE ''flex items-center gap-1.5'' [iconE (icon_name i) ''h-3.5 w-3.5'', TextNode label]) (snd dm))"

definition CopyForAIButton_markup :: "class_lib \<Rightarrow> clip_button \<Rightarrow> element" where
  "CopyForAIButton_markup lib b =
     Button lib [(js ''variant'', jstr ''outline''), (js ''size'', jstr ''sm''),
       cls ''gap-2 ml-auto border-[#f59e0b]/40 text-[#f59e0b] hover:bg-[#f59e0b]/10 hover:text-[#f59e0b]'']
       [if cb_copied b then iconE ''Check'' ''h-4 w-4 text-[#34d399]'' else iconE ''Sparkles'' ''h-4 w-4'', TextNode (copy_label b)]"

definition ShareButton_markup :: "class_lib \<Rightarrow> bool \<Rightarrow> clip_button \<Rightarrow> element" where
  "ShareButton_markup lib isPending b =
     Button lib [(js ''variant'', jstr ''outline''), (js ''size'', jstr ''sm''), (js ''disabled'', JBool isPending), cls ''gap-2'']
       [if cb_copied b then iconE ''Check'' ''h-4 w-4 text-[#34d399]'' else iconE ''Link2'' ''h-4 w-4'', TextNode (share_label isPending b)]"

definition DeleteButton_markup :: "class_lib \<Rightarrow> bool \<Rightarrow> element" where
  "DeleteButton_markup lib isPending =
     Button lib [(js ''variant'', jstr ''outline''), (js ''size'', jstr ''sm''), (js ''disabled'', JBool isPending),
       cls ''gap-2 border-[#f87171]/40 text-[#f87171] hover:bg-[#f87171]/10 hover:text-[#f87171]'']
       [iconE ''Trash2'' ''h-4 w-4'', TextNode (delete_label isPending)]"

definition console_row_markup :: "console_row \<Rightarrow> element" where
  "console_row_markup r =
     Host (js ''button'')
      [(js ''type'', jstr ''button''),
       (js ''className'', JStr (js ''w-full text-left flex items-start gap-3 px-4 py-1.5 border-b border-border/30 last:border-0 '' @
          js ''hover:bg-secondary/40 transition-colors''))]
      [Host (js ''span'') [(js ''className'', JStr (js ''shrink-0 uppercase '' @ cr_color r @ js '' w-10''))] [TextNode (cr_label r)],
       spanE ''flex-1 min-w-0 text-foreground/90 whitespace-pre-wrap break-words'' [TextNode (cr_message r)],
       spanE ''shrink-0 text-muted-foreground'' [TextNode (cr_clock r)]]"

definition ConsolePanel_markup :: "console_panel \<Rightarrow> element" where
  "ConsolePanel_markup c =
     divE ''bg-card border border-border rounded-lg overflow-hidden''
      [divE ''px-4 py-2.5 border-b border-border flex items-center gap-2''
        [iconE ''Terminal'' ''h-4 w-4 text-muted-foreground'',
         pE ''text-sm font-medium text-foreground'' (js ''Console''),
         divE ''ml-auto flex items-center gap-3 text-xs''
          (each (\<lambda>s. spanE ''text-[#f87171]'' [TextNode s]) (cp_errors c)
           @ each (\<lambda>s. spanE ''text-[#fbbf24]'' [TextNode s]) (cp_warnings c)
           @ [spanE ''text-muted-foreground'' [TextNode (cp_logs c)]])],
       divE ''max-h-64 overflow-y-auto font-mono text-xs''
        (if cp_rows c = [] then [pE ''px-4 py-6 text-muted-foreground text-center'' (js ''No console output.'')]
         else map console_row_markup (cp_rows c))]"

definition timeline_row_markup :: "timeline_row \<Rightarrow> element" where
  "timeline_row_markup r =
     Host (js ''button'')
      [(js ''type'', jstr ''button''),
       (js ''className'', JStr (js ''w-full text-left flex items-start gap-3 px-4 py-2.5 border-b border-border/50 last:border-0 '' @
          js ''hover:bg-secondary/40 transition-colors''))]
      [Host (js ''span'') [(js ''className'', JStr (js ''mt-1.5 h-2 w-2 shrink-0 rounded-full '' @ tr_dot r))] [],
       divE ''min-w-0 flex-1''
        [Host (js ''p'') [(js ''className'', JStr (js ''text-xs font-medium '' @ tr_color r))] [TextNode (tr_label r)],
         pE ''text-xs text-foreground/90 truncate'' (tr_message r)],
       spanE ''text-[10px] text-muted-foreground font-mono shrink-0 mt-0.5'' [TextNode (tr_offset r)]]"

definition session_meta_markup :: "class_lib \<Rightarrow> session_view \<Rightarrow> element" where
  "session_meta_markup lib v =
     divE ''bg-card border border-border rounded-lg px-4 py-3 flex flex-wrap items-center gap-4 text-sm''
      ([divE ''flex items-center gap-1.5 text-foreground font-medium''
          [iconE ''User'' ''h-4 w-4 text-muted-foreground'', TextNode (sv_label v)],
        Badge lib [(js ''variant'', jstr ''secondary'')] [TextNode (sv_service v)]]
       @ each (\<lambda>(label, col). Badge lib [(js ''variant'', jstr ''outline''), (js ''className'', JStr col)] [TextNode label]) (sv_trigger v)
       @ each (\<lambda>s. spanE ''flex items-center gap-1 text-xs text-[#f87171]'' [iconE ''AlertTriangle'' ''h-3.5 w-3.5'', TextNode s]) (sv_errors v)
       @ each (\<lambda>s. spanE ''text-xs text-muted-foreground'' [TextNode s]) (sv_environment v)
       @ each (\<lambda>s. divE ''flex items-center gap-1.5 text-xs text-muted-foreground min-w-0''
             [iconE ''Globe'' ''h-3.5 w-3.5 shrink-0'', spanE ''truncate max-w-xs'' [TextNode s]]) (sv_start_url v)
       @ [divE ''flex items-center gap-1.5 text-xs text-muted-foreground ml-auto''
            [iconE ''Clock'' ''h-3.5 w-3.5'', TextNode (sv_times v)]])"

definition timeline_markup :: "timeline_row list \<Rightarrow> element" where
  "timeline_markup rows =
     divE ''w-80 shrink-0 bg-card border border-border rounded-lg overflow-hidden''
      [divE ''px-4 py-3 border-b border-border flex items-center gap-2''
        [iconE ''MousePointerClick'' ''h-4 w-4 text-muted-foreground'',
         Host (js ''p'') [cls ''text-sm font-medium text-foreground'']
          [TextNode (js ''Timeline''), spanE ''ml-2 text-xs text-muted-foreground font-normal'' [TextNode (dec_digits (length rows))]]],
       divE ''overflow-y-auto max-h-[600px]''
        (if rows = [] then [pE ''px-4 py-6 text-xs text-muted-foreground text-center'' (js ''No user actions captured.'')]
         else map timeline_row_markup rows)]"

text \<open>The page, given its view and the states of its three buttons.\<close>

record player_buttons =
  pb_copy :: clip_button
  pb_share :: clip_button
  pb_sharing :: bool
  pb_deleting :: bool

fun PlayerPage_markup :: "class_lib \<Rightarrow> player_buttons \<Rightarrow> player_view \<Rightarrow> element" where
  "PlayerPage_markup lib b PlayerLoading =
     divE ''p-6 space-y-4'' [divE ''h-8 w-40 rounded bg-card animate-pulse'' [], divE ''h-[440px] rounded-lg bg-card animate-pulse'' []]"
| "PlayerPage_markup lib b SessionNotFound =
     divE ''p-6'' [pE ''text-sm text-muted-foreground'' (js ''Session not found.'')]"
| "PlayerPage_markup lib b (SessionShown v) =
     divE ''p-6 space-y-5''
      ([divE ''flex items-center gap-3''
          [Button lib [(js ''variant'', jstr ''ghost''), (js ''size'', jstr ''sm''), cls ''gap-2'']
             [iconE ''ArrowLeft'' ''h-4 w-4'', TextNode (js ''Sessions'')],
           CopyForAIButton_markup lib (pb_copy b),
           ShareButton_markup lib (pb_sharing b) (pb_share b),
           DeleteButton_markup lib (pb_deleting b)],
        session_meta_markup lib v]
       @ each DeviceMeta_markup (sv_device v)
       @ [divE ''flex gap-4 items-start''
            [divE ''flex-1 min-w-0 space-y-4''
              [if sv_player v then divE ''w-full rounded-lg overflow-hidden border border-border'' []
               else Host (js ''div'')
                 [(js ''className'', JStr (js ''flex items-center justify-center h-[440px] bg-card border border-border rounded-lg '' @
                     js ''text-sm text-muted-foreground''))]
                 [TextNode (js ''No events recorded for this session.'')],
               ConsolePanel_markup (sv_console v)],
             timeline_markup (sv_timeline v)]])"


section \<open>What the trees show\<close>

fun texts :: "element \<Rightarrow> jsstr list" where
  "texts (Host t ps kids) = concat (map texts kids)"
| "texts (Component c ps kids) = concat (map texts kids)"
| "texts (TextNode s) = [s]"

lemma texts_parts [simp]:
  "texts (divE c kids) = concat (map texts kids)" "texts (spanE c kids) = concat (map texts kids)" "texts (pE c s) = [s]"
  "texts (iconE n c) = []" "texts (field_label n) = [js n]"
  "texts (Button lib ps kids) = concat (map texts kids)" "texts (Badge lib ps kids) = concat (map texts kids)"
  "texts (Card lib ps kids) = concat (map texts kids)" "texts (CardHeader lib ps kids) = concat (map texts kids)"
  "texts (CardTitle lib ps kids) = concat (map texts kids)" "texts (CardContent lib ps kids) = concat (map texts kids)"
  "texts (Input lib ps) = []" "texts (Pagination lib ps kids) = concat (map texts kids)"
  "texts (PaginationContent lib ps kids) = concat (map texts kids)" "texts (PaginationItem ps kids) = concat (map texts kids)"
  "texts (PaginationPrevious lib ps) = [js ''Previous'']" "texts (PaginationNext lib ps) = [js ''Next'']"
  by (simp_all add: divE_def spanE_def pE_def iconE_def field_label_def Button_def Badge_def Card_def CardHeader_def CardTitle_def
      CardContent_def Input_def Pagination_def PaginationContent_def PaginationItem_def PaginationPrevious_def PaginationNext_def
      PaginationLink_def Let_def)

lemma texts_each [simp]: "concat (map texts (each f v)) = (case v of None \<Rightarrow> [] | Some x \<Rightarrow> texts (f x))"
  by (simp add: each_def split: option.split)

lemma texts_shownIf [simp]: "concat (map texts (shownIf b e)) = (if b then texts e else [])"
  by (simp add: shownIf_def)

definition option_texts :: "('a \<Rightarrow> jsstr) \<Rightarrow> 'a option \<Rightarrow> jsstr list" where
  "option_texts f v = (case v of None \<Rightarrow> [] | Some x \<Rightarrow> [f x])"

text \<open>A row of the list shows the values of its session, in this order, and nothing else.\<close>

lemma list_row_texts:
  "texts (list_row_markup lib r) = [sr_label r, sr_service r] @ option_texts fst (sr_environment r) @ option_texts fst (sr_badge r)
     @ option_texts id (sr_url r) @ [sr_duration r, sr_time r, sr_events r]"
  by (simp add: list_row_markup_def option_texts_def split: option.split)

lemma sessions_list_texts:
  "concat (map texts [sessions_list_markup lib (sessions_list_view formatTime isLoading dat p)]) =
     (if isLoading then []
      else case dat of
        Some (s # ss, n) \<Rightarrow> concat (map (\<lambda>s. texts (list_row_markup lib (list_row_of formatTime s))) (s # ss))
      | _ \<Rightarrow> js ''No sessions found'' # (if hasActiveFilters p then [js ''Clear filters''] else []))"
  by (simp add: sessions_list_view_def Let_def o_def concat_map_singleton split: option.split list.split)

text \<open>The whole page: heading, form where it is shown, list, and pages where there are several.\<close>

lemma sessions_page_texts:
  "texts (SessionsPage_markup lib formatTime isLoading dat p) =
     [js ''Sessions''] @ option_texts id (sessions_heading (total_of dat)) @ [js ''Filters'']
     @ (if sp_showFilters p
        then [js ''Identifier'', js ''Service'', js ''Environment'', js ''All''] @ ENVIRONMENTS @ [js ''Apply'']
          @ (if hasActiveFilters p then [js ''Clear''] else [])
        else [])
     @ texts (sessions_list_markup lib (sessions_list_view formatTime isLoading dat p))
     @ (case pagination_view (total_of dat) p of None \<Rightarrow> [] | Some g \<Rightarrow> [js ''Previous'', pg_text g, js ''Next''])"
  by (simp add: SessionsPage_markup_def filter_form_def pagination_markup_def option_texts_def o_def concat_map_singleton
      split: option.split)

text \<open>The login page shows an error exactly if there is one.\<close>

lemma login_page_texts:
  "texts (LoginPage_markup lib p) =
     [js ''BatRewind'', js ''Sign in to your account'', js ''Email'', js ''Password'']
     @ (if lg_error p = [] then [] else [lg_error p]) @ [if lg_loading p then js ''Signing in...'' else js ''Sign in'']"
  by (simp add: LoginPage_markup_def login_view_def)

text \<open>To a visitor without a login the shared replay shows the data of the session and no way into the dashboard.\<close>

lemma share_page_texts:
  assumes "pv_debug_link v = None"
  shows "texts (PublicReplayPage_markup lib (Replay v)) =
     [js ''BatRewind'', js ''shared replay'']
     @ (case pv_meta v of None \<Rightarrow> [] | Some m \<Rightarrow> [pm_service m] @ option_texts id (pm_environment m) @ [pm_times m])
     @ (if pv_player v then [] else [js ''No replay events available.''])
     @ [js ''Sensitive data (console logs, user identity) is hidden on shared links.'']"
  using assms by (simp add: PublicReplayPage_markup_def public_meta_markup_def option_texts_def split: option.split)

lemma console_row_texts: "texts (console_row_markup r) = [cr_label r, cr_message r, cr_clock r]"
  by (simp add: console_row_markup_def)

lemma timeline_row_texts: "texts (timeline_row_markup r) = [tr_label r, tr_message r, tr_offset r]"
  by (simp add: timeline_row_markup_def)

text \<open>The timeline has one entry for each item, with its label, its message and its offset.\<close>

lemma timeline_texts:
  "texts (timeline_markup (map (timeline_row_of first) items)) =
     [js ''Timeline'', dec_digits (length items)]
     @ (if items = [] then [js ''No user actions captured.'']
        else concat (map (\<lambda>it. [km_label (KIND_META (ti_kind it)), ti_message it,
               js ''+'' @ formatDuration_player (Some (ti_timestamp it - first))]) items))"
  by (simp add: timeline_markup_def timeline_row_texts timeline_row_of_def o_def)

text \<open>Controls that are disabled while a call is under way.\<close>

lemma button_disabled:
  assumes "distinct (map fst ps)" and "map_of ps (js ''disabled'') = Some v"
  shows "map_of (props_of (Button lib ps kids)) (js ''disabled'') = Some v"
proof -
  have k: "js ''disabled'' \<notin> set [js ''className'', js ''variant'', js ''size'', js ''asChild'']" by code_simp
  show ?thesis
    using assms k
    by (auto simp: Button_def spread_lookup distinct_without without_lookup)
qed

lemma delete_button_disabled: "map_of (props_of (DeleteButton_markup lib isPending)) (js ''disabled'') = Some (JBool isPending)"
  unfolding DeleteButton_markup_def by (rule button_disabled) (simp_all add: cls_def)

lemma share_button_disabled: "map_of (props_of (ShareButton_markup lib isPending b)) (js ''disabled'') = Some (JBool isPending)"
  unfolding ShareButton_markup_def by (rule button_disabled) (simp_all add: cls_def)

end
