(* ===== verification/RouteTable.thy ===== *)
theory RouteTable
  imports PageShell
begin

text \<open>
  The table of routes the router's plugin generates (\<open>routeTree.gen.ts\<close>): the options of each route, the
  tree the router is given, and the tables that give each route's address and name to the type
  checker. The lemmas show that the tables say of each route what its place in the tree makes it, and
  that the addresses and the guarded pages of \<open>PageShell\<close> are those of the tree.
\<close>

section \<open>Routes and their options\<close>

datatype file_route =
    RootFile | LoginFile | IndexFile | ShareTokenFile | AppLayoutFile | AppLayoutIndexFile
  | AppLayoutSessionsFile | AppLayoutSessionsIdFile

record route_options =
  ro_id :: jsstr
  ro_path :: jsstr
  getParentRoute :: file_route

text \<open>What each route is updated with; the root has no options.\<close>

fun route_update :: "file_route \<Rightarrow> route_options option" where
  "route_update RootFile = None"
| "route_update LoginFile = Some \<lparr>ro_id = js ''/login'', ro_path = js ''/login'', getParentRoute = RootFile\<rparr>"
| "route_update IndexFile = Some \<lparr>ro_id = js ''/'', ro_path = js ''/'', getParentRoute = RootFile\<rparr>"
| "route_update ShareTokenFile =
     Some \<lparr>ro_id = js ''/share/$token'', ro_path = js ''/share/$token'', getParentRoute = RootFile\<rparr>"
| "route_update AppLayoutFile = Some \<lparr>ro_id = js ''/app/_layout'', ro_path = js ''/app'', getParentRoute = RootFile\<rparr>"
| "route_update AppLayoutIndexFile = Some \<lparr>ro_id = js ''/'', ro_path = js ''/'', getParentRoute = AppLayoutFile\<rparr>"
| "route_update AppLayoutSessionsFile =
     Some \<lparr>ro_id = js ''/sessions'', ro_path = js ''/sessions'', getParentRoute = AppLayoutFile\<rparr>"
| "route_update AppLayoutSessionsIdFile =
     Some \<lparr>ro_id = js ''/sessions_/$id'', ro_path = js ''/sessions/$id'', getParentRoute = AppLayoutFile\<rparr>"


section \<open>The tables\<close>

definition FileRoutesByFullPath :: "(jsstr \<times> file_route) list" where
  "FileRoutesByFullPath =
     [(js ''/'', IndexFile), (js ''/login'', LoginFile), (js ''/app'', AppLayoutFile),
      (js ''/share/$token'', ShareTokenFile), (js ''/app/sessions'', AppLayoutSessionsFile),
      (js ''/app/'', AppLayoutIndexFile), (js ''/app/sessions/$id'', AppLayoutSessionsIdFile)]"

definition FileRoutesByTo :: "(jsstr \<times> file_route) list" where
  "FileRoutesByTo =
     [(js ''/'', IndexFile), (js ''/login'', LoginFile), (js ''/share/$token'', ShareTokenFile),
      (js ''/app/sessions'', AppLayoutSessionsFile), (js ''/app'', AppLayoutIndexFile),
      (js ''/app/sessions/$id'', AppLayoutSessionsIdFile)]"

definition FileRoutesById :: "(jsstr \<times> file_route) list" where
  "FileRoutesById =
     [(js ''__root__'', RootFile), (js ''/'', IndexFile), (js ''/login'', LoginFile),
      (js ''/app/_layout'', AppLayoutFile), (js ''/share/$token'', ShareTokenFile),
      (js ''/app/_layout/sessions'', AppLayoutSessionsFile), (js ''/app/_layout/'', AppLayoutIndexFile),
      (js ''/app/_layout/sessions_/$id'', AppLayoutSessionsIdFile)]"

record file_route_types =
  fileRoutesByFullPath :: "(jsstr \<times> file_route) list"
  fullPaths :: "jsstr list"
  fileRoutesByTo :: "(jsstr \<times> file_route) list"
  frt_to :: "jsstr list"
  frt_id :: "jsstr list"
  fileRoutesById :: "(jsstr \<times> file_route) list"

definition FileRouteTypes :: file_route_types where
  "FileRouteTypes =
     \<lparr>fileRoutesByFullPath = FileRoutesByFullPath,
      fullPaths = [js ''/'', js ''/login'', js ''/app'', js ''/share/$token'', js ''/app/sessions'', js ''/app/'',
        js ''/app/sessions/$id''],
      fileRoutesByTo = FileRoutesByTo,
      frt_to = [js ''/'', js ''/login'', js ''/share/$token'', js ''/app/sessions'', js ''/app'', js ''/app/sessions/$id''],
      frt_id = [js ''__root__'', js ''/'', js ''/login'', js ''/app/_layout'', js ''/share/$token'',
        js ''/app/_layout/sessions'', js ''/app/_layout/'', js ''/app/_layout/sessions_/$id''],
      fileRoutesById = FileRoutesById\<rparr>"

record file_route_entry =
  fe_id :: jsstr
  fe_path :: jsstr
  fe_fullPath :: jsstr
  preLoaderRoute :: file_route
  parentRoute :: file_route

definition FileRoutesByPath :: "(jsstr \<times> file_route_entry) list" where
  "FileRoutesByPath =
     [(js ''/login'', \<lparr>fe_id = js ''/login'', fe_path = js ''/login'', fe_fullPath = js ''/login'',
        preLoaderRoute = LoginFile, parentRoute = RootFile\<rparr>),
      (js ''/'', \<lparr>fe_id = js ''/'', fe_path = js ''/'', fe_fullPath = js ''/'',
        preLoaderRoute = IndexFile, parentRoute = RootFile\<rparr>),
      (js ''/share/$token'', \<lparr>fe_id = js ''/share/$token'', fe_path = js ''/share/$token'', fe_fullPath = js ''/share/$token'',
        preLoaderRoute = ShareTokenFile, parentRoute = RootFile\<rparr>),
      (js ''/app/_layout'', \<lparr>fe_id = js ''/app/_layout'', fe_path = js ''/app'', fe_fullPath = js ''/app'',
        preLoaderRoute = AppLayoutFile, parentRoute = RootFile\<rparr>),
      (js ''/app/_layout/'', \<lparr>fe_id = js ''/app/_layout/'', fe_path = js ''/'', fe_fullPath = js ''/app/'',
        preLoaderRoute = AppLayoutIndexFile, parentRoute = AppLayoutFile\<rparr>),
      (js ''/app/_layout/sessions'', \<lparr>fe_id = js ''/app/_layout/sessions'', fe_path = js ''/sessions'', fe_fullPath = js ''/app/sessions'',
        preLoaderRoute = AppLayoutSessionsFile, parentRoute = AppLayoutFile\<rparr>),
      (js ''/app/_layout/sessions_/$id'', \<lparr>fe_id = js ''/app/_layout/sessions_/$id'', fe_path = js ''/sessions/$id'', fe_fullPath = js ''/app/sessions/$id'',
        preLoaderRoute = AppLayoutSessionsIdFile, parentRoute = AppLayoutFile\<rparr>)]"


section \<open>The tree\<close>

datatype route_tree = Branch file_route "route_tree list"

definition AppLayoutRouteChildren :: "route_tree list" where
  "AppLayoutRouteChildren = [Branch AppLayoutSessionsFile [], Branch AppLayoutIndexFile [], Branch AppLayoutSessionsIdFile []]"

definition AppLayoutRouteWithChildren :: route_tree where
  "AppLayoutRouteWithChildren = Branch AppLayoutFile AppLayoutRouteChildren"

definition rootRouteChildren :: "route_tree list" where
  "rootRouteChildren = [Branch IndexFile [], Branch LoginFile [], AppLayoutRouteWithChildren, Branch ShareTokenFile []]"

definition routeTree :: route_tree where
  "routeTree = Branch RootFile rootRouteChildren"


section \<open>Tables and tree agree\<close>

text \<open>The routes of a tree with the chain of routes above each, nearest first.\<close>

fun branches :: "file_route list \<Rightarrow> route_tree \<Rightarrow> (file_route \<times> file_route list) list" where
  "branches up (Branch r ts) = (r, up) # concat (map (branches (r # up)) ts)"

text \<open>An identifier or a path below that of the parent; below the root it stands alone.\<close>

definition below :: "(route_options \<Rightarrow> jsstr) \<Rightarrow> file_route list \<Rightarrow> jsstr" where
  "below f rs = concat (map f (rev (List.map_filter route_update rs)))"

lemma tree_branches:
  "branches [] routeTree =
     [(RootFile, []), (IndexFile, [RootFile]), (LoginFile, [RootFile]), (AppLayoutFile, [RootFile]),
      (AppLayoutSessionsFile, [AppLayoutFile, RootFile]), (AppLayoutIndexFile, [AppLayoutFile, RootFile]),
      (AppLayoutSessionsIdFile, [AppLayoutFile, RootFile]), (ShareTokenFile, [RootFile])]"
  by (simp add: routeTree_def rootRouteChildren_def AppLayoutRouteWithChildren_def AppLayoutRouteChildren_def)

lemma tree_covers_routes: "\<exists>!up. (r, up) \<in> set (branches [] routeTree)"
  by (cases r) (simp_all add: tree_branches)

text \<open>The parent a route names is the route above it in the tree.\<close>

lemma tree_has_parents:
  "(r, up) \<in> set (branches [] routeTree) \<Longrightarrow>
     (case route_update r of None \<Rightarrow> up = [] | Some ro \<Rightarrow> up \<noteq> [] \<and> getParentRoute ro = hd up)"
  by (auto simp: tree_branches)

lemmas below_eval = below_def List.map_filter_def js_eval

lemma entries_of_tree:
  "list_all (\<lambda>(key, e). \<exists>up. map_of (branches [] routeTree) (preLoaderRoute e) = Some up
      \<and> key = fe_id e \<and> fe_id e = below ro_id (preLoaderRoute e # up) \<and> fe_fullPath e = below ro_path (preLoaderRoute e # up)
      \<and> map_option ro_path (route_update (preLoaderRoute e)) = Some (fe_path e) \<and> parentRoute e = hd up) FileRoutesByPath"
  by (simp add: FileRoutesByPath_def tree_branches below_eval)

lemma path_tables_of_tree:
  "list_all (\<lambda>(key, r). \<exists>up. map_of (branches [] routeTree) r = Some up \<and> key = below ro_path (r # up)) FileRoutesByFullPath"
  "list_all (\<lambda>(key, r). \<exists>up. map_of (branches [] routeTree) r = Some up
      \<and> key = (if up = [] then js ''__root__'' else below ro_id (r # up))) FileRoutesById"
  by (simp_all add: FileRoutesByFullPath_def FileRoutesById_def tree_branches below_eval)

text \<open>The names listed for the type checker are the keys of the tables.\<close>

lemma listed_names:
  "fullPaths FileRouteTypes = map fst (fileRoutesByFullPath FileRouteTypes)"
  "frt_to FileRouteTypes = map fst (fileRoutesByTo FileRouteTypes)"
  "frt_id FileRouteTypes = map fst (fileRoutesById FileRouteTypes)"
  by (simp_all add: FileRouteTypes_def FileRoutesByFullPath_def FileRoutesByTo_def FileRoutesById_def)

section \<open>Addresses and guarded pages\<close>

fun file_of :: "route \<Rightarrow> file_route" where
  "file_of RootRoute = IndexFile"
| "file_of LoginRoute = LoginFile"
| "file_of (ShareRoute t) = ShareTokenFile"
| "file_of OverviewRoute = AppLayoutIndexFile"
| "file_of SessionsRoute = AppLayoutSessionsFile"
| "file_of (SessionRoute i) = AppLayoutSessionsIdFile"

fun route_param :: "route \<Rightarrow> jsstr" where
  "route_param (ShareRoute t) = t"
| "route_param (SessionRoute i) = i"
| "route_param _ = []"

text \<open>The address of a page is the pattern of its route with the parameter in place of its name.\<close>

lemma route_path_pattern:
  "\<exists>pat. (pat, file_of r) \<in> set FileRoutesByTo
     \<and> route_path r = takeWhile (\<lambda>c. c \<noteq> 0x24) pat @ (if 0x24 \<in> set pat then route_param r else [])"
  by (cases r) (simp_all add: FileRoutesByTo_def js_eval)

text \<open>The guard of the layout stands before exactly the pages below it in the tree.\<close>

lemma under_app_tree:
  "under_app r \<longleftrightarrow> (\<exists>up. (file_of r, up) \<in> set (branches [] routeTree) \<and> AppLayoutFile \<in> set up)"
  by (cases r) (simp_all add: tree_branches)

lemma guard_before_children:
  "beforeLoad r = (if file_of r = IndexFile then root_guard
     else if \<exists>up. (file_of r, up) \<in> set (branches [] routeTree) \<and> AppLayoutFile \<in> set up then app_guard
     else (\<lambda>d. (d, Inr Proceed)))"
  unfolding under_app_tree [symmetric] by (cases r) (simp_all add: fun_eq_iff beforeLoad_def)

end
