(* ===== verification/Spec2Isabelle.thy ===== *)
theory Spec2Isabelle
  imports RecorderStream RecorderTape ServerWire ServerGuard PageMarkup RouteTable
begin

text \<open>
  BatRewind records user sessions in the browser and replays them in a dashboard. This
  development models the TypeScript of both, the browser SDK (\<open>packages/browser\<close>) and the
  dashboard (\<open>packages/dashboard\<close>), and the part of the Go server (\<open>internal/\<close>) through which they
  talk to each other: the SDK posts batches of events, a worker stores them, the dashboard reads
  sessions back.

  \<^bold>\<open>The language.\<close> \<open>Prelude\<close> has results that are an exception or a value, and the contract of
  a component that changes by steps (locale \<open>invariant_system\<close>). \<open>JsString\<close> has strings as
  lists of 16-bit units with the methods the sources call; \<open>JsNumber\<close> has numbers, their
  printing and the rounding of quotients to double precision; \<open>JsValue\<close> has dynamic values,
  property access, conversions and \<open>JSON.stringify\<close>; \<open>JsonParse\<close> has \<open>JSON.parse\<close>, with the
  proof that it reads back what was written and that the bound on its recursion is never
  met (for every writer that keeps the laws of the locale \<open>json_writer\<close>); \<open>WebStorage\<close> has the two storages, with the locales \<open>codec\<close>, \<open>kv_store\<close> and
  \<open>coded_store\<close>; \<open>Base64\<close> has \<open>atob\<close>; \<open>JsDate\<close> has timestamps and \<open>toISOString\<close>.

  \<^bold>\<open>The SDK.\<close> \<open>SdkTypes\<close> models \<open>types.ts\<close>; \<open>SdkSession\<close> \<open>session.ts\<close>; \<open>SdkTransport\<close>
  \<open>metadata.ts\<close> and \<open>transport.ts\<close>; \<open>SdkWidget\<close> \<open>widget.ts\<close>; \<open>Recorder\<close> \<open>index.ts\<close>, with the
  variables of the module and what it has registered in the page as one record \<open>sdk\<close>, one
  definition per function, and \<open>exec\<close> for what the page and the host application can do to
  it. \<open>RecorderFrame\<close> says which fields an operation leaves alone; \<open>RecorderInv\<close> has the
  invariant of every reachable state and the property of \<open>stop\<close>; \<open>RecorderStream\<close> the
  properties of the \<open>always\<close> mode (nothing is lost, the buffer is bounded);
  \<open>RecorderBuffer\<close> the rolling window of the \<open>buffered\<close> mode and the end of its pruning loop;
  \<open>RecorderTape\<close> that the rolling buffer refines an abstract tape; \<open>RecorderReport\<close> what reports, uncaught
  errors and failed starts do, and the device metadata; \<open>RecorderTypes\<close> the declared types of the module's
  variables and of the batches as an invariant; \<open>RecorderSettings\<close> the privacy options in force and whom
  uploads name.

  \<^bold>\<open>The dashboard.\<close> \<open>DashAuth\<close> models \<open>lib/auth.ts\<close>, \<open>lib/api.ts\<close>, \<open>lib/theme.ts\<close> and the
  theme in \<open>main.tsx\<close>; \<open>DashHttp\<close> the calls under \<open>http/\<close> and the queries and mutations of
  \<open>queries/sessions.ts\<close>; \<open>Timeline\<close> \<open>lib/timeline.ts\<close>; \<open>Incident\<close> \<open>lib/incident.ts\<close>.
  \<open>PageShell\<close> models the route guards (\<open>routes/index.tsx\<close>, \<open>routes/app/_layout.tsx\<close>), the login page,
  the header, the theme button and the banner; \<open>PageSessions\<close> the list of sessions
  (\<open>routes/app/_layout/sessions.tsx\<close>); \<open>ReplayMount\<close> the effect that creates the player, which two
  pages share (locale \<open>replay_host\<close>); \<open>PagePlayer\<close> the player page
  (\<open>routes/app/_layout/sessions_.$id.tsx\<close>); \<open>PageShare\<close> the public replay (\<open>routes/share.$token.tsx\<close>)
  and the overview (\<open>routes/app/_layout/index.tsx\<close>). A page is modelled by its state, its
  handlers, and a function to the texts and choices it shows. \<open>UiParts\<close> has the trees of elements of
  the parts under \<open>components/ui\<close>, the sidebar, the frame of the pages under \<open>/app\<close> and the root component;
  \<open>PageMarkup\<close> those of every page; \<open>RouteTable\<close> the generated \<open>routeTree.gen.ts\<close>, with the proof that its
  tables agree with its tree and that the guard stands before every page of the layout.

  \<^bold>\<open>The server.\<close> \<open>GoText\<close> has what Go makes of texts: bytes and UTF-8, JSON as \<open>encoding/json\<close> writes it, and
  timestamps. \<open>ServerStore\<close> models the rows of \<open>internal/session/model.go\<close> and the methods of
  \<open>repository.go\<close> on three tables; \<open>ServerService\<close> the reading of requests, \<open>useragent.go\<close>, \<open>service.go\<close>, the
  handler of \<open>writer_handler.go\<close>, the queue (\<open>internal/queue\<close>) and the worker (\<open>internal/worker/service.go\<close>).
  \<open>ServerProps\<close> has the invariant of the tables, kept by every operation whatever fails, and what storing a batch
  does; \<open>ServerQueue\<close> that the queue carries requests unchanged, that an accepted batch is kept, and what
  a share link shows; \<open>ServerWire\<close> the checks before the handler (\<open>cmd/writer/main.go\<close>, \<open>internal/middleware\<close>,
  the key check of \<open>internal/auth/middleware.go\<close>) and what the server makes of the SDK's batches. \<open>ServerReader\<close> models the read
  endpoints (\<open>reader_handler.go\<close>, the bearer check of \<open>internal/auth/middleware.go\<close>, the routes of \<open>cmd/reader/main.go\<close>)
  from the address to the text of the answer; \<open>ServerHttp\<close> shows that the addresses the dashboard writes reach
  the handlers with the values that were meant, \<open>ServerAnswers\<close> what the dashboard then reads, with the list of sessions
  from form to page, and \<open>ServerGuard\<close> deletion from button to tables and what is seen without a token.

  \<^bold>\<open>What is shown.\<close> In the SDK: a session survives reloads for thirty minutes and is always available
  where identifiers can be made; the rolling buffer keeps its whole window and refines an
  abstract tape; the \<open>always\<close> mode loses nothing; \<open>stop\<close> leaves nothing running; every upload has its declared
  type, names session and user, respects the privacy options, and survives the wire. In the server: an accepted
  batch is stored or kept for a retry, a public replay has no console, and without a token nothing but shared replays
  is seen. In the dashboard: the login counts until the token expires and guards every page under
  \<open>/app\<close>; every query's outcome for every answer; the list shows the sessions that were asked for, page by page, and deleting
  erases one session and no other, both through the server and back; the
  timeline is the recording without its noise and never fails on recorded events; the incident report has
  one line per timeline item and console item; the player plays the events at hand; the theme survives clicks and reloads. Across all three: the link a report
  returns opens a page whose queries are answered with the events that were in the buffer, ordered by timestamp, and with
  which status the server answers each upload. Where the code does not do what it means to, the property says
  what it does (failed starts, full storages, encoded tokens, the order of two answers, the
  theme after a reload, the second batch of a session).

  \<^bold>\<open>Parameters.\<close> \<open>crypto.randomUUID\<close> (\<open>uuid\<close>), the answers the dashboard gets (\<open>srv\<close>), the base
  address of the API (\<open>api\<close>), what \<open>Date\<close> makes of text that is no timestamp (\<open>engine\<close>), the
  locale-dependent printing of times (\<open>formatTime\<close>, \<open>formatClock\<close>), the router (\<open>router_contract\<close>),
  \<open>useEffect\<close> (\<open>effect_contract\<close>), the matching of query keys (\<open>matches_prefix\<close>) and the class-name
  libraries. For the server, the record \<open>engine\<close> of \<open>ServerStore\<close>: which operations of the database and the queue fail,
  the order of rows that \<open>ORDER BY\<close> does not tell apart (\<open>engine_contract\<close>), and identifiers; the record \<open>reader\<close> of \<open>ServerReader\<close> adds which bearer tokens are valid, the
  time zone and the texts of third-party errors; the record \<open>writer\<close> of \<open>ServerWire\<close> the verdict of the CORS package on an origin,
  which API keys are found and the decision of the rate limiter for a caller. The events \<open>rrweb\<close>
  emits are the environment's choice; it may emit some before \<open>record\<close> returns, which has the
  same effect as right after \<open>init\<close>, since the rest of \<open>init\<close> does not look at the buffers. A
  configuration object is not passed to \<open>init\<close> a second time after \<open>identify\<close> has changed it.

  \<^bold>\<open>Bounds.\<close> Timestamps, sizes, counts and page numbers are integers (the address of the session list accepts
  any number as page; fractional pages and pages whose offset is no exact double are not modelled); the results that depend on double
  precision say up to which number they hold. \<open>JSON.parse\<close> recurses on a bound taken from
  the length of the text. All other recursions are structural or have a measure.

  \<^bold>\<open>Not modelled.\<close> The construction of the query client (\<open>http/query-client.ts\<close>); the player, query, router and
  class-name libraries; the locale-dependent printing of times; of the server, logins, passwords and the storing of API keys
  (third-party hashing and tokens), the inside of the CORS package and the arithmetic of the token bucket, CORS at the read
  endpoints, redirects between addresses that differ by a trailing slash, how a browser encodes keys that are not printable ASCII into a header, the number of workers and their timers, migrations, Redis and the
  database itself; the documentation site, the landing page and the playground, which are static pages and
  configuration of other programs.
\<close>


section \<open>From a report to the replay\<close>

lemma strip_slash_origin:
  assumes "origin = [] \<or> last origin \<noteq> 0x2F"
  shows "strip_slash origin = origin" "strip_slash (origin @ js ''/'') = origin"
proof -
  have "js ''/'' = [0x2F]" by code_simp
  with assms show "strip_slash origin = origin" "strip_slash (origin @ js ''/'') = origin"
    by (auto simp: strip_slash_def)
qed

lemma seq_fits:
  assumes "e_seq ` set es = int ` {0..<n}" and "int64 (int n)" and "e \<in> set es"
  shows "int64 (e_seq e)"
proof -
  have "e_seq e \<in> int ` {0..<n}" using assms(1,3) by blast
  with assms(2) show ?thesis by (auto simp: int64_def)
qed

text \<open>
  Property C5 (a report reaches whoever opens its link). Let the SDK, in \<open>buffered\<close> mode, be configured
  with the address of the ingest server as \<open>endpoint\<close> and with the origin of the dashboard as \<open>shareBaseUrl\<close> (or as \<open>endpoint\<close>), with or without a trailing
  slash, and name a user and a service, and let the token have only letters, digits, hyphens and underscores, as a UUID does. Then
  \<open>report\<close> uploads one batch and returns the address of the dashboard's page for shared replays with
  the session's token, which is also the link the dashboard's share button copies. Let the batch pass the checks before the
  handler (origin, size, key, rate), the session and its token be new to the server, whose queue is empty, and
  neither database nor queue fail: then the server accepts
  the batch. Once a worker has taken it, opening the link shows the page to anyone and leaves the storage
  alone, and the page's two queries, sent to the server, are answered with the
  public data of this session and with the events of the rolling buffer, each as often as it is there, ordered by their timestamps and
  without the plugin events; the session's identifier gives all of them. Events with the same timestamp may change places; if
  the timestamps increase strictly, the order is exactly that of the buffer.
\<close>

theorem reported_link_opens_replay:
  assumes "m_config st = Some c" and "isBuffered st" and "m_sessionId st = JStr i" and "m_shareToken st = JStr t"
    and "i \<noteq> []" and "seg_plain t" and "sdk_typed st" and "buffer_fits st" and "concat (m_segments st) \<noteq> []"
    and "named_user c i \<noteq> []" and "named_service c \<noteq> []"
    and "or_default (shareBaseUrl c) (endpoint c) \<in> {origin, origin @ js ''/''}"
    and "origin = [] \<or> last origin \<noteq> 0x2F" and "router_contract router" and "rd_engine rd = eng"
    and "healthy eng" and "engine_contract eng" and "uuid_parses eng (go_text i)" and "\<not> enqueue_fails eng (sv_messages sv)"
    and "store_inv sv" and "sv_queue sv = []" and "row_of (go_text i) sv = None"
    and "\<forall>r\<in>set (t_sessions sv). s_share_token r \<noteq> Some t"
    and "wr_engine wr = eng" and "endpoint c = wr_base wr" and "key_plain (apiKey c)"
    and "\<forall>u. sent (fst (report st)) = sent st @ [u] \<longrightarrow> admits wr (apiKey c) (content_length (upload_request u))"
  shows "\<exists>r u sv1 es pub. snd (report st) = Inr r \<and> rr_shareUrl r = origin @ route_path (ShareRoute t)
    \<and> share_link origin (rr_shareToken r) = Inr (rr_shareUrl r)
    \<and> sent (fst (report st)) = sent st @ [u] \<and> post_upload wr u sv = Some (sv1, 204)
    \<and> snd (GetEvents eng (go_text i) (runWorker eng sv1)) = Inr es
    \<and> mset (map raw_event es) = mset (concat (m_segments st)) \<and> sorted (map e_timestamp es)
    \<and> (sorted_wrt (<) (map ev_timestamp (concat (m_segments st))) \<longrightarrow> map raw_event es = concat (m_segments st))
    \<and> router (ShareRoute t) d = (d\<lparr>d_location := route_path (ShareRoute t)\<rparr>, Inr (ShareRoute t))
    \<and> p_id pub = go_text i \<and> p_event_count pub = int (length es) \<and> p_duration_ms pub = None
    \<and> query_fn api (reader_srv rd (api_base api) (runWorker eng sv1)) (PublicSessionQuery t) d = (d, Inr (public_json rd pub))
    \<and> query_fn api (reader_srv rd (api_base api) (runWorker eng sv1)) (PublicSessionEventsQuery t) d
        = (d, Inr (JArr (map (event_row_json rd) (filter (\<lambda>e. e_type e \<noteq> 6) es))))"
proof -
  have tt: "go_text t = t" "t \<noteq> []" using seg_plain_text [OF assms(6)] seg_plain_facts(1) [OF assms(6)] by simp_all
  have strip: "strip_slash (or_default (shareBaseUrl c) (endpoint c)) = origin"
    using assms(12) strip_slash_origin [OF assms(13)] by auto
  then obtain r where r: "snd (report st) = Inr r" "rr_shareUrl r = origin @ route_path (ShareRoute t)"
    "share_link origin (rr_shareToken r) = Inr (rr_shareUrl r)"
    using report_link [OF assms(1,3,4)] by (simp add: share_link_def)
  from report_upload [OF assms(1-5,9,7,8)] obtain u where
    u: "sent (fst (report st)) = sent st @ [u]" "payload_fits (up_payload u)" "pl_session_id (up_payload u) = JStr i"
      "pl_share_token (up_payload u) = JStr t" "pl_events (up_payload u) = concat (m_segments st)"
      "pl_identifier (up_payload u) = JStr (named_user c i)" "pl_service_name (up_payload u) = named_service c"
      "up_endpoint u = endpoint c" "up_apiKey u = apiKey c" by blast
  from upload_accepted [OF u(2,3) assms(5) u(6) assms(10)] u(5,7) assms(9,11,18,19) obtain sv1 where
    sv1: "post_batch eng u sv = (sv1, 204)" by auto
  have adm: "up_endpoint u = wr_base wr" "admits wr (up_apiKey u) (content_length (upload_request u))"
    using assms(25,27) u(1,8,9) by simp_all
  have acc: "post_upload wr u sv = Some (sv1, 204)"
    using post_upload_admitted [OF adm, of sv] sv1 assms(24) by simp
  have tok: "go_text i = go_text (text_of (pl_session_id (up_payload u)))"
    "t = go_text (text_of (pl_share_token (up_payload u)))" using u(3,4) tt by simp_all
  from batch_served [OF assms(16,17) u(2) sv1 refl assms(21,20,22) tok tt(2) assms(23), unfolded u(5)] obtain es pub where
    es: "snd (GetEvents eng (go_text i) (runWorker eng sv1)) = Inr es" "mset (map raw_event es) = mset (concat (m_segments st))"
      "sorted (map e_timestamp es)"
      "sorted_wrt (<) (map ev_timestamp (concat (m_segments st))) \<longrightarrow> map raw_event es = concat (m_segments st)"
      "snd (GetPublicEvents eng t (runWorker eng sv1)) = Inr (filter (\<lambda>e. e_type e \<noteq> 6) es)"
      "snd (GetPublicSession eng t (runWorker eng sv1)) = Inr pub" "p_id pub = go_text i"
      "p_event_count pub = int (length (concat (m_segments st)))" "p_duration_ms pub = None"
      "e_seq ` set es = int ` {0..<length (concat (m_segments st))}" by blast
  have len: "int64 (int (length (concat (m_segments st))))" using assms(8) by (simp add: buffer_fits_def del: length_concat)
  have "set (pl_events (up_payload u)) = raw_event ` set es" unfolding u(5) using mset_eq_setD [OF es(2)] by simp
  then have "event_ok (raw_event e)" if "e \<in> set es" for e
    using u(2) that by (simp add: payload_fits_def payload_typed_def)
  then have "event_ok (raw_event e) \<and> int64 (e_seq e)" if "e \<in> set (filter (\<lambda>e. e_type e \<noteq> 6) es)" for e
    using that seq_fits [OF es(10) len] by simp
  from replay_answers [of t rd "runWorker eng sv1" pub "filter (\<lambda>e. e_type e \<noteq> 6) es", OF assms(6) _ _ _ _ this]
  have q: "query_fn api (reader_srv rd (api_base api) (runWorker eng sv1)) (PublicSessionQuery t) d = (d, Inr (public_json rd pub))
    \<and> query_fn api (reader_srv rd (api_base api) (runWorker eng sv1)) (PublicSessionEventsQuery t) d
        = (d, Inr (JArr (map (event_row_json rd) (filter (\<lambda>e. e_type e \<noteq> 6) es))))"
    using es(5,6,8,9) len assms(15) by (simp del: length_concat query_fn.simps)
  have "router (ShareRoute t) d = (d\<lparr>d_location := route_path (ShareRoute t)\<rparr>, Inr (ShareRoute t))"
    by (simp add: router_is_navigate [OF assms(14)] navigate_unguarded)
  moreover have "length es = length (concat (m_segments st))" using arg_cong [OF es(2), of size] by (simp del: length_concat)
  ultimately show ?thesis
    using r u(1) acc es(1-4,7-9) q
    by (intro exI [of _ r] exI [of _ u] exI [of _ sv1] exI [of _ es] exI [of _ pub]) (simp del: length_concat query_fn.simps)
qed

theorem reported_link_opens_replay_witness:
  "\<exists>st r u sv1 es. st = demo_recorded\<lparr>m_config := Some (demo_config\<lparr>endpoint := js ''http://w''\<rparr>)\<rparr>
     \<and> snd (report st) = Inr r \<and> rr_shareUrl r = js ''http://w'' @ route_path (ShareRoute (js ''t''))
     \<and> sent (fst (report st)) = [u] \<and> post_upload demo_writer u demo_server = Some (sv1, 204)
     \<and> query_fn None (reader_srv demo_reader (api_base None) (runWorker demo_engine sv1)) (PublicSessionEventsQuery (js ''t'')) demo_dash
          = (demo_dash, Inr (JArr (map (event_row_json demo_reader) es)))
     \<and> map raw_event es = [demo_event 2 1000, demo_event 3 1001]"
proof -
  let ?c = "demo_config\<lparr>endpoint := js ''http://w''\<rparr>"
  let ?st = "demo_recorded\<lparr>m_config := Some ?c\<rparr>"
  have st: "m_config ?st = Some ?c" "m_sessionId ?st = jstr ''s''" "m_shareToken ?st = jstr ''t''"
      "concat (m_segments ?st) = [demo_event 2 1000, demo_event 3 1001]" "sent ?st = []"
    by (simp_all add: demo_recorded_def demo_page_def)
  have b: "isBuffered ?st" by (simp add: isBuffered_def st demo_config_def)
  have ty: "sdk_typed ?st" "buffer_fits ?st"
    using demo_page_typed
    by (simp_all add: demo_recorded_def sdk_typed_defs string_or_null_def segs_ok_def event_ok_def demo_event_def
        demo_page_def buffer_fits_def int64_def)
  have o: "or_default (shareBaseUrl ?c) (endpoint ?c) \<in> {js ''http://w'', js ''http://w'' @ js ''/''}"
    "last (js ''http://w'') \<noteq> 0x2F" "js ''s'' \<noteq> []" "seg_plain (js ''t'')" "js ''web'' \<noteq> []"
    by (simp_all add: demo_config_def) code_simp+
  have rd: "rd_engine demo_reader = demo_engine" by (simp add: demo_reader_def)
  have nm: "named_user ?c (js ''s'') \<noteq> []" "named_service ?c \<noteq> []"
    using o by (simp_all add: named_user_def named_service_def demo_config_def)
  have sv: "store_inv demo_server" "sv_queue demo_server = []" "row_of (go_text (js ''s'')) demo_server = None"
    "\<forall>r\<in>set (t_sessions demo_server). s_share_token r \<noteq> Some (js ''t'')"
    using store.init_inv [OF demo_server_fresh] by (simp_all add: demo_server_def row_of_def)
  have en: "uuid_parses demo_engine (go_text (js ''s''))" "\<not> enqueue_fails demo_engine (sv_messages demo_server)"
    by (simp_all add: demo_engine_def)
  have seg: "concat (m_segments ?st) \<noteq> []" "sorted_wrt (<) (map ev_timestamp (concat (m_segments ?st)))"
    unfolding st(4) by (simp_all add: demo_event_def)
  have w: "wr_engine demo_writer = demo_engine" "endpoint ?c = wr_base demo_writer" "key_plain (apiKey ?c)"
    "\<forall>u. sent (fst (report ?st)) = sent ?st @ [u] \<longrightarrow> admits demo_writer (apiKey ?c) (content_length (upload_request u))"
    by (simp_all add: demo_writer_def admits_def demo_config_def) code_simp+
  from reported_link_opens_replay [OF st(1) b st(2,3) o(3,4) ty seg(1) nm o(1) disjI2 [OF o(2)] navigate_contract rd
      demo_healthy demo_engine_contract en sv w] seg(2)
  obtain r u sv1 es where a: "snd (report ?st) = Inr r" "rr_shareUrl r = js ''http://w'' @ route_path (ShareRoute (js ''t''))"
    "sent (fst (report ?st)) = sent ?st @ [u]" "post_upload demo_writer u demo_server = Some (sv1, 204)"
    "map raw_event es = concat (m_segments ?st)"
    "query_fn None (reader_srv demo_reader (api_base None) (runWorker demo_engine sv1)) (PublicSessionEventsQuery (js ''t'')) demo_dash
       = (demo_dash, Inr (JArr (map (event_row_json demo_reader) (filter (\<lambda>e. e_type e \<noteq> 6) es))))"
    by blast
  have "map e_type es = map ev_type (map raw_event es)" by (simp add: raw_event_def)
  then have "map e_type es = [2, 3]" unfolding a(5) st(4) by (simp add: demo_event_def)
  then have "e_type ` set es = {2, 3}" by (metis list.set_map list.simps(15) set_empty2)
  then have "\<forall>e\<in>set es. e_type e \<in> {2, 3}" by blast
  then have "filter (\<lambda>e. e_type e \<noteq> 6) es = es" by (intro filter_True) auto
  with a st(4,5) show ?thesis by auto
qed

end
